(* ===== verification/Prelude.thy ===== *)
theory Prelude
  imports Main "HOL-Library.Word" "HOL-Library.State_Monad" "HOL-Library.Sublist"
begin

section \<open>Errors, stateful programs and their weakest preconditions\<close>

text \<open>
  What every component of the development shares: Go's \<open>error\<close> values, programs over an explicit
  state, the \<open>if err != nil { return err }\<close> pattern as the combinator \<open>must\<close>, a weakest
  precondition calculus whose equations are collected in \<open>wp_simps\<close>, and a locale that
  composes contracts between the state before and after a program.
\<close>

named_theorems wp_simps \<open>weakest precondition equations\<close>
named_theorems spec_simps \<open>what one operation of a component does, as equations\<close>

subsection \<open>Errors\<close>

text \<open>
  An error carries what the code asks of it: which sentinel or API status it is
  (\<open>errors.Is\<close>, \<open>apierrors.IsNotFound\<close>, \<open>apierrors.IsAlreadyExists\<close>) and its text
  (\<open>err.Error()\<close>). A panic that unwinds out of a handler is the kind \<open>EkPanic\<close>, the end of the
  process by a fatal log line (\<open>os.Exit(1)\<close>) the kind \<open>EkExit\<close>.
\<close>

datatype err_kind =
    EkRecordNotFound | EkK8sNotFound | EkK8sAlreadyExists
  | EkEOF | EkCanceled | EkDeadlineExceeded | EkPanic | EkExit | EkOther

datatype error = Error (kind_of: err_kind) (error_text: string)

definition is_record_not_found :: "error \<Rightarrow> bool" where
  "is_record_not_found e = (kind_of e = EkRecordNotFound)"

definition is_not_found :: "error \<Rightarrow> bool" where
  "is_not_found e = (kind_of e = EkK8sNotFound)"

definition is_already_exists :: "error \<Rightarrow> bool" where
  "is_already_exists e = (kind_of e = EkK8sAlreadyExists)"

lemmas error_kind_defs = is_record_not_found_def is_not_found_def is_already_exists_def

type_synonym 'a result = "error + 'a"

definition is_ok :: "'a result \<Rightarrow> bool" where
  "is_ok r = (case r of Inl _ \<Rightarrow> False | Inr _ \<Rightarrow> True)"

lemma is_ok_simps [simp]: "is_ok (Inr x)" "\<not> is_ok (Inl e)"
  by (simp_all add: is_ok_def)

subsection \<open>Programs\<close>

abbreviation ret :: "'a \<Rightarrow> ('s, 'a) state" where
  "ret \<equiv> State_Monad.return"

abbreviation ok :: "'a \<Rightarrow> ('s, 'a result) state" where
  "ok x \<equiv> State_Monad.return (Inr x)"

abbreviation fail :: "error \<Rightarrow> ('s, 'a result) state" where
  "fail e \<equiv> State_Monad.return (Inl e)"

text \<open>\<open>x, err := m; if err != nil { return err }; f x\<close>\<close>

definition must :: "('s, 'a result) state \<Rightarrow> ('a \<Rightarrow> ('s, 'b result) state) \<Rightarrow> ('s, 'b result) state" where
  "must m f = State_Monad.bind m (\<lambda>r. case r of Inl e \<Rightarrow> fail e | Inr x \<Rightarrow> f x)"

text \<open>\<open>x, err := m; if err != nil { h err } else { f x }\<close>\<close>

definition catch :: "('s, 'a result) state \<Rightarrow> (error \<Rightarrow> ('s, 'b) state) \<Rightarrow> ('a \<Rightarrow> ('s, 'b) state) \<Rightarrow> ('s, 'b) state" where
  "catch m h f = State_Monad.bind m (\<lambda>r. case r of Inl e \<Rightarrow> h e | Inr x \<Rightarrow> f x)"

text \<open>Assignments to the state and reads of it.\<close>

definition modify :: "('s \<Rightarrow> 's) \<Rightarrow> ('s, unit) state" where
  "modify f = State (\<lambda>s. ((), f s))"

definition gets :: "('s \<Rightarrow> 'a) \<Rightarrow> ('s, 'a) state" where
  "gets f = State (\<lambda>s. (f s, s))"

subsection \<open>Weakest preconditions\<close>

definition wp :: "('s, 'a) state \<Rightarrow> ('a \<Rightarrow> 's \<Rightarrow> bool) \<Rightarrow> 's \<Rightarrow> bool" where
  "wp m Q s = (case run_state m s of (r, s') \<Rightarrow> Q r s')"

lemma wp_ret [wp_simps]: "wp (ret x) Q s = Q x s"
  by (simp add: wp_def)

lemma wp_bind [wp_simps]: "wp (State_Monad.bind m f) Q s = wp m (\<lambda>x. wp (f x) Q) s"
  by (simp add: wp_def split: prod.splits)

lemma wp_must [wp_simps]:
  "wp (must m f) Q s = wp m (\<lambda>r. case r of Inl e \<Rightarrow> Q (Inl e) | Inr x \<Rightarrow> wp (f x) Q) s"
  by (simp add: must_def wp_def split: prod.splits sum.splits)

lemma wp_catch [wp_simps]:
  "wp (catch m h f) Q s = wp m (\<lambda>r. case r of Inl e \<Rightarrow> wp (h e) Q | Inr x \<Rightarrow> wp (f x) Q) s"
  by (simp add: catch_def wp_def split: prod.splits sum.splits)

lemma wp_if [wp_simps]: "wp (if b then m else n) Q s = (if b then wp m Q s else wp n Q s)"
  by simp

lemma wp_get [wp_simps]: "wp State_Monad.get Q s = Q s s"
  by (simp add: wp_def)

lemma wp_set [wp_simps]: "wp (State_Monad.set t) Q s = Q () t"
  by (simp add: wp_def)

lemma wp_modify [wp_simps]: "wp (modify f) Q s = Q () (f s)"
  by (simp add: wp_def modify_def)

lemma wp_gets [wp_simps]: "wp (gets f) Q s = Q (f s) s"
  by (simp add: wp_def gets_def)

lemma wp_mono: "wp m P s \<Longrightarrow> (\<And>r t. P r t \<Longrightarrow> Q r t) \<Longrightarrow> wp m Q s"
  by (auto simp: wp_def split: prod.splits)

lemma wp_conj: "wp m (\<lambda>r t. P r t \<and> Q r t) s = (wp m P s \<and> wp m Q s)"
  by (simp add: wp_def split: prod.splits)

lemma wp_run: "wp m Q s \<Longrightarrow> run_state m s = (r, t) \<Longrightarrow> Q r t"
  by (simp add: wp_def)

lemma wpI: "(\<And>r t. run_state m s = (r, t) \<Longrightarrow> Q r t) \<Longrightarrow> wp m Q s"
  by (simp add: wp_def split: prod.splits)

lemma wp_via: "state_io_rel R m \<Longrightarrow> (\<And>r t. R s t \<Longrightarrow> Q r t) \<Longrightarrow> wp m Q s"
  by (simp add: wp_def state_io_rel_def split: prod.splits) (metis snd_conv)

lemma wp_iff_run: "wp m Q s = Q (fst (run_state m s)) (snd (run_state m s))"
  by (simp add: wp_def split: prod.splits)

lemma wp_run_rel: "wp m (\<lambda>r t. R s t) s = R s (snd (run_state m s))"
  by (simp add: wp_iff_run)

subsection \<open>Running a program\<close>

lemma run_must [simp]:
  "run_state (must m f) s =
     (case run_state m s of (Inl e, t) \<Rightarrow> (Inl e, t) | (Inr v, t) \<Rightarrow> run_state (f v) t)"
  by (simp add: must_def split: prod.splits sum.splits)

lemma must_okE:
  assumes "run_state (must m f) s = (Inr v, t)"
  obtains a u where "run_state m s = (Inr a, u)" "run_state (f a) u = (Inr v, t)"
  using assms by (cases "run_state m s") (auto split: sum.splits)

lemma must_errorE:
  assumes "run_state (must m f) s = (Inl e, t)"
  obtains "run_state m s = (Inl e, t)"
  | a u where "run_state m s = (Inr a, u)" "run_state (f a) u = (Inl e, t)"
  using assms by (cases "run_state m s") (auto split: sum.splits)

lemma run_catch [simp]:
  "run_state (catch m h f) s =
     (case run_state m s of (Inl e, t) \<Rightarrow> run_state (h e) t | (Inr v, t) \<Rightarrow> run_state (f v) t)"
  by (simp add: catch_def split: prod.splits sum.splits)

lemma run_modify [simp]: "run_state (modify f) s = ((), f s)"
  by (simp add: modify_def)

lemma run_gets [simp]: "run_state (gets f) s = (f s, s)"
  by (simp add: gets_def)

subsection \<open>Contracts between the state before and the state after\<close>

text \<open>
  A contract \<open>R\<close> that holds of no step at all and of two steps in a row holds of every program
  built from parts that keep it. The components interpret the locale on the relations they
  promise: the trace of external calls only grows, an execution table only grows, and so on.
\<close>

locale step_contract =
  fixes R :: "'s \<Rightarrow> 's \<Rightarrow> bool"
  assumes R_refl: "R s s"
    and R_trans: "R s t \<Longrightarrow> R t u \<Longrightarrow> R s u"
begin

lemma keep_ret: "state_io_rel R (ret x)"
  by (simp add: state_io_rel_def R_refl)

lemma keep_get: "state_io_rel R State_Monad.get"
  by (simp add: state_io_rel_def R_refl)

lemma keep_bind:
  assumes "state_io_rel R m" and "\<And>x. state_io_rel R (f x)"
  shows "state_io_rel R (State_Monad.bind m f)"
  unfolding state_io_rel_def
proof
  fix s
  obtain x t where m: "run_state m s = (x, t)" by fastforce
  have "R s t" using assms(1) m by (metis state_io_relD)
  moreover have "R t (snd (run_state (f x) t))" using assms(2) by (simp add: state_io_rel_def)
  ultimately show "R s (snd (run_state (State_Monad.bind m f) s))" using m by (auto intro: R_trans)
qed

lemma keep_must:
  "state_io_rel R m \<Longrightarrow> (\<And>x. state_io_rel R (f x)) \<Longrightarrow> state_io_rel R (must m f)"
  unfolding must_def by (intro keep_bind) (auto simp: keep_ret split: sum.splits)

lemma keep_catch:
  "state_io_rel R m \<Longrightarrow> (\<And>e. state_io_rel R (h e)) \<Longrightarrow> (\<And>x. state_io_rel R (f x)) \<Longrightarrow>
   state_io_rel R (catch m h f)"
  unfolding catch_def by (intro keep_bind) (auto split: sum.splits)

lemma keep_if:
  "(b \<Longrightarrow> state_io_rel R m) \<Longrightarrow> (\<not> b \<Longrightarrow> state_io_rel R n) \<Longrightarrow> state_io_rel R (if b then m else n)"
  by simp

lemma keep_option:
  "state_io_rel R m \<Longrightarrow> (\<And>x. state_io_rel R (f x)) \<Longrightarrow> state_io_rel R (case v of None \<Rightarrow> m | Some x \<Rightarrow> f x)"
  by (cases v) auto

lemma keep_sum:
  "(\<And>e. state_io_rel R (h e)) \<Longrightarrow> (\<And>x. state_io_rel R (f x)) \<Longrightarrow>
   state_io_rel R (case v of Inl e \<Rightarrow> h e | Inr x \<Rightarrow> f x)"
  by (cases v) auto

lemma keep_modify: "(\<And>s. R s (f s)) \<Longrightarrow> state_io_rel R (modify f)"
  by (simp add: state_io_rel_def modify_def)

lemma keep_gets: "state_io_rel R (gets f)"
  by (simp add: state_io_rel_def gets_def R_refl)

lemma keep_wp: "state_io_rel R m \<Longrightarrow> wp m (\<lambda>r t. R s t) s"
  by (simp add: wp_def state_io_rel_def split: prod.splits) (metis snd_conv)

lemmas keeps = keep_ret keep_get keep_gets keep_bind keep_must keep_catch keep_if keep_option keep_sum

end

end
