(* ===== verification/GoStd.thy ===== *)
theory GoStd
  imports Prelude
begin

section \<open>The parts of the Go language and standard library the services use\<close>

text \<open>
  Strings are byte strings (\<open>char list\<close>, one \<open>char\<close> a byte), as Go's are: \<open>len\<close> counts bytes
  and \<open>s[:63]\<close> cuts bytes. \<open>int\<close> and \<open>int64\<close> are \<open>64 word\<close>, \<open>int32\<close> is \<open>32 word\<close>, read with
  \<open>sint\<close>; a \<open>float32\<close> is its IEEE 754 bit pattern, so that a copied value is the same value
  (NaN included) and a conversion to an integer truncates as the hardware does.
\<close>

unbundle bit_operations_syntax

subsection \<open>Integers\<close>

type_synonym byte = "8 word"
type_synonym go_int = "64 word"
type_synonym int64 = "64 word"
type_synonym int32 = "32 word"
type_synonym time = int \<comment> \<open>nanoseconds since the Unix epoch\<close>

text \<open>The zero \<open>time.Time\<close>: the first of January of the year 1.\<close>

definition zero_time :: time where
  "zero_time = - 62135596800 * 1000000000"

text \<open>\<open>t.Sub(u)\<close> saturates at the ends of the range of \<open>time.Duration\<close>.\<close>

definition time_Sub :: "time \<Rightarrow> time \<Rightarrow> int" where
  "time_Sub t u = max (- (2 ^ 63)) (min (2 ^ 63 - 1) (t - u))"

text \<open>\<open>int32(x)\<close> of a 64-bit \<open>x\<close> keeps the low bits.\<close>

definition to_int32 :: "go_int \<Rightarrow> int32" where
  "to_int32 x = ucast x"

definition positive :: "'a::len word \<Rightarrow> bool" where
  "positive x = (0 < sint x)"

lemma to_int32_small:
  assumes "0 \<le> sint x" "sint x < 2 ^ 31"
  shows "sint (to_int32 x) = sint x"
proof -
  have u: "uint x = sint x"
    using assms by (simp add: uint_sint take_bit_int_eq_self)
  have "sint (to_int32 x) = signed_take_bit 31 (uint x)"
    by (simp add: to_int32_def sint_uint unsigned_ucast_eq signed_take_bit_take_bit)
  also have "\<dots> = uint x"
    using assms u by (intro signed_take_bit_int_eq_self) auto
  finally show ?thesis using u by simp
qed

subsection \<open>Decimal text\<close>

fun nat_digits :: "nat \<Rightarrow> string" where
  "nat_digits n = (if n < 10 then [char_of (48 + n)] else nat_digits (n div 10) @ [char_of (48 + n mod 10)])"

declare nat_digits.simps [simp del]

text \<open>\<open>strconv.Itoa\<close>, \<open>strconv.FormatInt(x, 10)\<close> and the verb \<open>%d\<close>.\<close>

definition int_text :: "int \<Rightarrow> string" where
  "int_text i = (if i < 0 then CHR ''-'' # nat_digits (nat (- i)) else nat_digits (nat i))"

definition itoa :: "go_int \<Rightarrow> string" where
  "itoa x = int_text (sint x)"

definition is_digit :: "char \<Rightarrow> bool" where
  "is_digit c = (48 \<le> (of_char c :: nat) \<and> (of_char c :: nat) \<le> 57)"

definition digits_value :: "string \<Rightarrow> nat" where
  "digits_value = foldl (\<lambda>n c. 10 * n + (of_char c - 48)) 0"

text \<open>
  \<open>strconv.ParseInt(s, 10, 64)\<close>, which \<open>strconv.Atoi\<close> is: an optional sign, at least one
  digit, nothing else, and a value in the range; anything else is an error.
\<close>

definition parse_int :: "string \<Rightarrow> int option" where
  "parse_int s =
     (let (neg, ds) = (case s of [] \<Rightarrow> (False, []) | c # cs \<Rightarrow>
            if c = CHR ''-'' then (True, cs) else if c = CHR ''+'' then (False, cs) else (False, s))
      in if ds = [] \<or> \<not> list_all is_digit ds then None
         else let v = (if neg then - int (digits_value ds) else int (digits_value ds))
              in if - (2 ^ 63) \<le> v \<and> v < 2 ^ 63 then Some v else None)"

definition atoi :: "string \<Rightarrow> go_int option" where
  "atoi s = map_option word_of_int (parse_int s)"

lemma digits_value_snoc: "digits_value (xs @ [c]) = 10 * digits_value xs + (of_char c - 48)"
  by (simp add: digits_value_def)

lemma digits_value_nat_digits: "digits_value (nat_digits n) = n"
proof (induction n rule: nat_digits.induct)
  case (1 n)
  show ?case
  proof (cases "n < 10")
    case True
    then show ?thesis by (subst nat_digits.simps) (simp add: digits_value_def)
  next
    case False
    with 1 show ?thesis
      by (subst nat_digits.simps) (simp add: digits_value_snoc)
  qed
qed

lemma digit_char: "(n :: nat) < 10 \<Longrightarrow> is_digit (char_of (48 + n))"
  by (simp add: is_digit_def)

lemma nat_digits_all: "list_all is_digit (nat_digits n)"
proof (induction n rule: nat_digits.induct)
  case (1 n)
  show ?case
  proof (cases "n < 10")
    case True
    then show ?thesis by (subst nat_digits.simps) (simp add: digit_char)
  next
    case False
    with False 1 show ?thesis
      by (subst nat_digits.simps) (simp add: digit_char)
  qed
qed

lemma digit_literals [simp]:
  "char_of (48 :: nat) = CHR ''0''" "char_of (49 :: nat) = CHR ''1''" "char_of (50 :: nat) = CHR ''2''"
  "char_of (51 :: nat) = CHR ''3''" "char_of (52 :: nat) = CHR ''4''" "char_of (53 :: nat) = CHR ''5''"
  "char_of (54 :: nat) = CHR ''6''" "char_of (55 :: nat) = CHR ''7''" "char_of (56 :: nat) = CHR ''8''"
  "char_of (57 :: nat) = CHR ''9''"
  by (simp_all add: char_of_eq_iff take_bit_eq_mod)

lemma nat_digits_not_Nil: "nat_digits n \<noteq> []"
  by (subst nat_digits.simps) simp

lemma nat_digits_head: "nat_digits n = c # cs \<Longrightarrow> c \<noteq> CHR ''-'' \<and> c \<noteq> CHR ''+''"
  using nat_digits_all [of n] by (auto simp: is_digit_def)

lemma parse_int_text: "- (2 ^ 63) \<le> i \<Longrightarrow> i < 2 ^ 63 \<Longrightarrow> parse_int (int_text i) = Some i"
proof (cases "i < 0")
  case True
  assume "- (2 ^ 63) \<le> i"
  with True show ?thesis
    by (simp add: parse_int_def int_text_def nat_digits_not_Nil nat_digits_all digits_value_nat_digits)
next
  case False
  assume b: "i < 2 ^ 63"
  obtain c cs where c: "nat_digits (nat i) = c # cs" by (cases "nat_digits (nat i)") (auto simp: nat_digits_not_Nil)
  from nat_digits_head [OF c] nat_digits_all [of "nat i"] digits_value_nat_digits [of "nat i"] False b c show ?thesis
    by (simp add: parse_int_def int_text_def)
qed

lemma atoi_itoa: "atoi (itoa x) = Some x"
proof -
  have "- (2 ^ 63) \<le> sint x" "sint x < 2 ^ 63"
    using sint_greater_eq [of x] sint_less [of x] by simp_all
  then show ?thesis by (simp add: atoi_def itoa_def parse_int_text)
qed

text \<open>\<open>strconv.ParseBool\<close>.\<close>

definition parse_bool :: "string \<Rightarrow> bool option" where
  "parse_bool s =
     (if s \<in> {''1'', ''t'', ''T'', ''TRUE'', ''true'', ''True''} then Some True
      else if s \<in> {''0'', ''f'', ''F'', ''FALSE'', ''false'', ''False''} then Some False
      else None)"


subsection \<open>Package strings\<close>

definition is_ascii :: "char \<Rightarrow> bool" where
  "is_ascii c = ((of_char c :: nat) < 128)"

definition ascii_lower :: "char \<Rightarrow> char" where
  "ascii_lower c = (if 65 \<le> (of_char c :: nat) \<and> (of_char c :: nat) \<le> 90 then char_of ((of_char c :: nat) + 32) else c)"

text \<open>
  \<open>strings.ToLower\<close> lowers bytes when the string is ASCII and otherwise maps Unicode's
  case tables over the decoded runes; those tables are the argument \<open>uni\<close>.
\<close>

definition strings_ToLower :: "(string \<Rightarrow> string) \<Rightarrow> string \<Rightarrow> string" where
  "strings_ToLower uni s = (if list_all is_ascii s then map ascii_lower s else uni s)"

function replace_all :: "'a list \<Rightarrow> 'a list \<Rightarrow> 'a list \<Rightarrow> 'a list" where
  "replace_all old new s =
     (case s of [] \<Rightarrow> []
      | c # cs \<Rightarrow> if old \<noteq> [] \<and> take (length old) s = old
                  then new @ replace_all old new (drop (length old) s)
                  else c # replace_all old new cs)"
  by pat_completeness auto
termination
  by (relation "measure (\<lambda>(old, new, s). length s)") auto

declare replace_all.simps [simp del]

fun contains :: "'a list \<Rightarrow> 'a list \<Rightarrow> bool" where
  "contains [] sub = (sub = [])"
| "contains (c # cs) sub = (take (length sub) (c # cs) = sub \<or> contains cs sub)"

definition strings_Trim :: "string \<Rightarrow> char \<Rightarrow> string" where
  "strings_Trim s c = rev (dropWhile (\<lambda>x. x = c) (rev (dropWhile (\<lambda>x. x = c) s)))"

text \<open>\<open>regexp.MustCompile("[...]+").ReplaceAllString(s, r)\<close> for a class of bytes \<open>p\<close>.\<close>

function replace_runs :: "('a \<Rightarrow> bool) \<Rightarrow> 'a list \<Rightarrow> 'a list \<Rightarrow> 'a list" where
  "replace_runs p r [] = []"
| "replace_runs p r (c # cs) =
     (if p c then r @ replace_runs p r (dropWhile p cs) else c # replace_runs p r cs)"
  by pat_completeness auto
termination
  by (relation "measure (\<lambda>(p, r, s). length s)") (auto simp: le_imp_less_Suc length_dropWhile_le)

lemma replace_runs_set: "set (replace_runs p r s) \<subseteq> set r \<union> {c \<in> set s. \<not> p c}"
  by (induction p r s rule: replace_runs.induct) (auto dest: set_dropWhileD)

lemma replace_runs_id: "list_all (\<lambda>c. \<not> p c) s \<Longrightarrow> replace_runs p r s = s"
  by (induction s) auto

lemma replace_all_Nil [simp]: "replace_all old new [] = []"
  by (simp add: replace_all.simps)

lemma replace_all_match:
  "old \<noteq> [] \<Longrightarrow> take (length old) s = old \<Longrightarrow>
   replace_all old new s = new @ replace_all old new (drop (length old) s)"
  by (subst replace_all.simps) (cases s; simp)

lemma replace_all_skip:
  "\<not> (old \<noteq> [] \<and> take (length old) (c # cs) = old) \<Longrightarrow>
   replace_all old new (c # cs) = c # replace_all old new cs"
  by (subst replace_all.simps) (simp only: list.case if_False)

lemma replace_all_cases:
  obtains (Nil) "s = []"
    | (match) c cs where "s = c # cs" "old \<noteq> []" "take (length old) s = old" "length old \<le> length s"
    | (skip) c cs where "s = c # cs" "\<not> (old \<noteq> [] \<and> take (length old) s = old)"
  by (metis length_take min.absorb_iff2 neq_Nil_conv nle_le)

lemma replace_all_set: "set (replace_all old new s) \<subseteq> set new \<union> set s"
proof (induction old new s rule: replace_all.induct)
  case (1 old new s)
  show ?case
  proof (cases rule: replace_all_cases [where s = s and old = old])
    case (match c cs)
    have "set (drop (length old) s) \<subseteq> set s" by (rule set_drop_subset)
    moreover have "set (replace_all old new (drop (length old) s)) \<subseteq> set new \<union> set (drop (length old) s)"
      using 1(1) [OF match(1)] match(2,3) by blast
    ultimately show ?thesis
      unfolding replace_all_match [OF match(2,3)] by (simp only: set_append) blast
  next
    case (skip c cs)
    then show ?thesis
      using 1(2) [OF skip(1)] replace_all_skip [OF skip(2) [unfolded skip(1)], of new] by auto
  qed simp
qed

lemma replace_all_single:
  "replace_all [a] [b] s = map (\<lambda>c. if c = a then b else c) s"
proof (induction s)
  case Nil
  then show ?case by (simp add: replace_all.simps)
next
  case (Cons c cs)
  then show ?case by (subst replace_all.simps) simp
qed

lemma replace_all_length: "length new \<le> length old \<Longrightarrow> length (replace_all old new s) \<le> length s"
proof (induction old new s rule: replace_all.induct)
  case (1 old new s)
  show ?case
  proof (cases rule: replace_all_cases [where s = s and old = old])
    case (match c cs)
    have "length (replace_all old new (drop (length old) s)) \<le> length (drop (length old) s)"
      using 1(1) [OF match(1)] match 1(3) by blast
    then show ?thesis
      unfolding replace_all_match [OF match(2,3)] using match(4) 1(3) by simp
  next
    case (skip c cs)
    then show ?thesis
      using 1(2) [OF skip(1)] 1(3) replace_all_skip [OF skip(2) [unfolded skip(1)], of new] by auto
  qed simp
qed

lemma replace_all_shorter:
  "length new < length old \<Longrightarrow> contains s old \<Longrightarrow> length (replace_all old new s) < length s"
proof (induction s)
  case (Cons c cs)
  let ?s = "c # cs"
  show ?case
  proof (cases rule: replace_all_cases [where s = ?s and old = old])
    case (match d ds)
    have "length (replace_all old new (drop (length old) ?s)) \<le> length (drop (length old) ?s)"
      using Cons.prems by (intro replace_all_length) simp
    then show ?thesis
      unfolding replace_all_match [OF match(2,3)] using match(4) Cons.prems by (simp del: drop_Suc_Cons)
  next
    case (skip d ds)
    with Cons show ?thesis by (auto simp: replace_all_skip)
  qed simp
qed simp

lemma replace_all_absent: "\<not> contains s old \<Longrightarrow> replace_all old new s = s"
  by (induction s) (auto simp: replace_all_skip)

lemma Trim_set: "set (strings_Trim s c) \<subseteq> set s"
proof
  fix x assume "x \<in> set (strings_Trim s c)"
  then have "x \<in> set (dropWhile (\<lambda>x. x = c) s)"
    by (simp add: strings_Trim_def) (metis set_dropWhileD set_rev)
  then show "x \<in> set s" by (rule set_dropWhileD)
qed

lemma Trim_head: "strings_Trim s c \<noteq> [] \<Longrightarrow> hd (strings_Trim s c) \<noteq> c"
proof -
  let ?t = "dropWhile (\<lambda>x. x = c) s"
  assume ne: "strings_Trim s c \<noteq> []"
  have "suffix (dropWhile (\<lambda>x. x = c) (rev ?t)) (rev ?t)" by (rule suffix_dropWhile)
  then have pre: "prefix (strings_Trim s c) ?t" by (simp add: strings_Trim_def suffix_to_prefix)
  with ne have "hd (strings_Trim s c) = hd ?t" "?t \<noteq> []"
    by (metis hd_append2 prefix_def) (use ne pre in \<open>metis prefix_Nil\<close>)
  then show ?thesis using hd_dropWhile [of "\<lambda>x. x = c" s] by simp
qed

lemma Trim_last: "strings_Trim s c \<noteq> [] \<Longrightarrow> last (strings_Trim s c) \<noteq> c"
  using hd_dropWhile [of "\<lambda>x. x = c" "rev (dropWhile (\<lambda>x. x = c) s)"]
  by (simp add: strings_Trim_def last_rev)

lemma Trim_id:
  assumes "s \<noteq> [] \<Longrightarrow> hd s \<noteq> c" "s \<noteq> [] \<Longrightarrow> last s \<noteq> c"
  shows "strings_Trim s c = s"
proof (cases s)
  case Nil
  then show ?thesis by (simp add: strings_Trim_def)
next
  case (Cons x xs)
  with assms have "dropWhile (\<lambda>x. x = c) s = s" by simp
  moreover have "dropWhile (\<lambda>x. x = c) (rev s) = rev s"
    using assms Cons by (cases "rev s") (auto simp: last_rev hd_rev simp flip: hd_rev)
  ultimately show ?thesis by (simp add: strings_Trim_def)
qed

lemma Trim_length: "length (strings_Trim s c) \<le> length s"
  by (simp add: strings_Trim_def) (metis length_dropWhile_le length_rev order_trans)

end
