(* ===== verification/GoNum.thy ===== *)
theory GoNum
  imports GoStd
begin

section \<open>float32 values and durations\<close>

text \<open>
  The numbers a job carries (\<open>timeout_seconds\<close>, \<open>idle_timeout_seconds\<close>, \<open>max_attempts\<close>) are
  \<open>float32\<close>. What the services do with them is copy them and convert them to integers.
\<close>

type_synonym float32 = "32 word"
type_synonym duration = "64 word" \<comment> \<open>nanoseconds, \<open>time.Duration\<close> is an \<open>int64\<close>\<close>

definition f32_negative :: "float32 \<Rightarrow> bool" where
  "f32_negative x = bit x 31"

definition f32_exponent :: "float32 \<Rightarrow> nat" where
  "f32_exponent x = unat (drop_bit 23 x) mod 256"

definition f32_mantissa :: "float32 \<Rightarrow> nat" where
  "f32_mantissa x = unat x mod 2 ^ 23"

definition f32_finite :: "float32 \<Rightarrow> bool" where
  "f32_finite x = (f32_exponent x \<noteq> 255)"

text \<open>The integral part of a finite value: \<open>m * 2 ^ (e - 150)\<close> with the fraction dropped.\<close>

definition f32_trunc :: "float32 \<Rightarrow> int" where
  "f32_trunc x =
     (let e = f32_exponent x; m = 2 ^ 23 + f32_mantissa x;
          n = (if e = 0 then 0 else if 150 \<le> e then m * 2 ^ (e - 150) else m div 2 ^ (150 - e))
      in if f32_negative x then - int n else int n)"

text \<open>
  Go's conversion \<open>int64(f)\<close> (and \<open>int(f)\<close>, \<open>time.Duration(f)\<close>) truncates towards zero;
  outside the range of the target the language leaves the result to the implementation, which
  is the argument \<open>oor\<close>.
\<close>

definition f32_to_int64 :: "(float32 \<Rightarrow> int64) \<Rightarrow> float32 \<Rightarrow> int64" where
  "f32_to_int64 oor x =
     (if f32_finite x \<and> - (2 ^ 63) \<le> f32_trunc x \<and> f32_trunc x < 2 ^ 63
      then word_of_int (f32_trunc x) else oor x)"

definition second :: duration where
  "second = 1000000000"

definition zero_f32 :: float32 where
  "zero_f32 = 0"

lemma f32_trunc_zero [simp]: "f32_trunc 0 = 0"
  by (simp add: f32_trunc_def f32_exponent_def)

lemma f32_finite_zero [simp]: "f32_finite 0"
  by (simp add: f32_finite_def f32_exponent_def)

lemma f32_to_int64_zero [simp]: "f32_to_int64 oor 0 = 0"
  by (simp add: f32_to_int64_def)

lemma sint_word_of_int_64: "- (2 ^ 63) \<le> i \<Longrightarrow> i < 2 ^ 63 \<Longrightarrow> sint (word_of_int i :: int64) = i"
  by (simp add: signed_of_int signed_take_bit_int_eq_self)

lemma sint_times_second:
  assumes "0 \<le> i" "i * 1000000000 < 2 ^ 63"
  shows "sint (word_of_int i * second) = i * 1000000000"
proof -
  have "word_of_int i * second = word_of_int (i * 1000000000)"
    by (simp add: second_def)
  moreover have "sint (word_of_int (i * 1000000000) :: int64) = i * 1000000000"
    using assms by (intro sint_word_of_int_64) auto
  ultimately show ?thesis by (simp only:)
qed

lemma sint_word_of_int_wrap:
  assumes "2 ^ 63 \<le> k" "k < 2 ^ 64"
  shows "sint (word_of_int k :: int64) = k - 2 ^ 64"
proof -
  have "(word_of_int (k - 2 ^ 64) :: int64) = word_of_int k"
    by (rule word_of_int_eq_iff [THEN iffD2]) (simp add: take_bit_eq_mod mod_diff_right_eq [symmetric])
  moreover have "sint (word_of_int (k - 2 ^ 64) :: int64) = k - 2 ^ 64"
    using assms by (intro sint_word_of_int_64) auto
  ultimately show ?thesis by (simp only:)
qed

text \<open>The product of a timeout that overflows a duration is negative.\<close>

lemma sint_times_second_wrap:
  assumes "2 ^ 63 \<le> i * 1000000000" "i * 1000000000 < 2 ^ 64"
  shows "sint (word_of_int i * second) = i * 1000000000 - 2 ^ 64"
proof -
  have "word_of_int i * second = word_of_int (i * 1000000000)"
    by (simp add: second_def)
  moreover have "sint (word_of_int (i * 1000000000) :: int64) = i * 1000000000 - 2 ^ 64"
    using assms by (rule sint_word_of_int_wrap)
  ultimately show ?thesis by (simp only:)
qed

text \<open>A value strictly between 0 and 1 truncates to 0.\<close>

lemma f32_trunc_below_one:
  assumes "f32_exponent x < 127"
  shows "f32_trunc x = 0"
proof -
  have "2 ^ 23 + f32_mantissa x < 2 ^ 24" by (simp add: f32_mantissa_def)
  also have "(2 :: nat) ^ 24 \<le> 2 ^ (150 - f32_exponent x)" using assms by (intro power_increasing) auto
  finally have "(2 ^ 23 + f32_mantissa x) div 2 ^ (150 - f32_exponent x) = 0" by (rule div_less)
  with assms show ?thesis by (simp add: f32_trunc_def Let_def)
qed

end
