(* ===== verification/GoText.thy ===== *)
theory GoText
  imports GoStd
begin

section \<open>Network addresses and base64\<close>

subsection \<open>Package net\<close>

fun index_of :: "'a \<Rightarrow> 'a list \<Rightarrow> nat option" where
  "index_of c [] = None"
| "index_of c (x # xs) = (if x = c then Some 0 else map_option Suc (index_of c xs))"

definition last_index_of :: "'a \<Rightarrow> 'a list \<Rightarrow> nat option" where
  "last_index_of c xs = map_option (\<lambda>i. length xs - Suc i) (index_of c (rev xs))"

definition JoinHostPort :: "string \<Rightarrow> string \<Rightarrow> string" where
  "JoinHostPort host port =
     (if CHR '':'' \<in> set host then ''['' @ host @ '']:'' @ port else host @ '':'' @ port)"

datatype addr_error = MissingPort | TooManyColons | MissingBracket | UnexpectedBracket

definition SplitHostPort :: "string \<Rightarrow> addr_error + string \<times> string" where
  "SplitHostPort hp =
     (case last_index_of (CHR '':'') hp of
        None \<Rightarrow> Inl MissingPort
      | Some i \<Rightarrow>
          (if take 1 hp = ''['' then
             (case index_of (CHR '']'') hp of
                None \<Rightarrow> Inl MissingBracket
              | Some e \<Rightarrow>
                  if e + 1 = length hp then Inl MissingPort
                  else if e + 1 \<noteq> i then
                    Inl (if hp ! (e + 1) = CHR '':'' then TooManyColons else MissingPort)
                  else if CHR ''['' \<in> set (drop 1 hp) \<or> CHR '']'' \<in> set (drop (e + 1) hp)
                    then Inl UnexpectedBracket
                  else Inr (take (e - 1) (drop 1 hp), drop (i + 1) hp))
           else if CHR '':'' \<in> set (take i hp) then Inl TooManyColons
           else if CHR ''['' \<in> set hp \<or> CHR '']'' \<in> set hp then Inl UnexpectedBracket
           else Inr (take i hp, drop (i + 1) hp)))"

lemma index_of_None: "c \<notin> set xs \<Longrightarrow> index_of c xs = None"
  by (induction xs) auto

lemma index_of_append: "c \<notin> set xs \<Longrightarrow> index_of c (xs @ c # ys) = Some (length xs)"
  by (induction xs) auto

lemma last_index_of_append: "c \<notin> set ys \<Longrightarrow> last_index_of c (xs @ c # ys) = Some (length xs)"
  using index_of_append [of c "rev ys" "rev xs"] by (simp add: last_index_of_def)

lemma last_index_of_None: "c \<notin> set xs \<Longrightarrow> last_index_of c xs = None"
  by (simp add: last_index_of_def index_of_None)

text \<open>An IPv4 address or host name and a numeric port go through and come back.\<close>

lemma SplitHostPort_Join:
  assumes "set host \<inter> {CHR '':'', CHR ''['', CHR '']''} = {}"
    and "set port \<inter> {CHR '':'', CHR ''['', CHR '']''} = {}"
  shows "SplitHostPort (JoinHostPort host port) = Inr (host, port)"
proof -
  have "last_index_of (CHR '':'') (host @ CHR '':'' # port) = Some (length host)"
    using assms by (intro last_index_of_append) auto
  moreover have "take 1 (host @ CHR '':'' # port) \<noteq> ''[''"
    using assms by (cases host) auto
  ultimately show ?thesis using assms by (auto simp: SplitHostPort_def JoinHostPort_def)
qed

text \<open>A second colon outside brackets is refused.\<close>

lemma SplitHostPort_two_colons:
  assumes "CHR '':'' \<notin> set port" "CHR '':'' \<in> set host" "take 1 host \<noteq> ''[''"
  shows "SplitHostPort (host @ CHR '':'' # port) = Inl TooManyColons"
proof -
  have "last_index_of (CHR '':'') (host @ CHR '':'' # port) = Some (length host)"
    using assms by (intro last_index_of_append)
  moreover have "take 1 (host @ CHR '':'' # port) \<noteq> ''[''"
    using assms by (cases host) auto
  ultimately show ?thesis using assms by (simp add: SplitHostPort_def)
qed

subsection \<open>Package encoding/base64\<close>

definition b64_alphabet :: string where
  "b64_alphabet = ''ABCDEFGHIJKLMNOPQRSTUVWXYZabcdefghijklmnopqrstuvwxyz0123456789+/''"

definition b64_char :: "nat \<Rightarrow> char" where
  "b64_char n = b64_alphabet ! n"

definition b64_index :: "char \<Rightarrow> nat option" where
  "b64_index c = index_of c b64_alphabet"

text \<open>\<open>base64.StdEncoding.EncodeToString\<close>\<close>

fun b64_encode :: "byte list \<Rightarrow> string" where
  "b64_encode [] = []"
| "b64_encode [a] = [b64_char (unat a div 4), b64_char (unat a mod 4 * 16), CHR ''='', CHR ''='']"
| "b64_encode [a, b] =
     [b64_char (unat a div 4), b64_char (unat a mod 4 * 16 + unat b div 16),
      b64_char (unat b mod 16 * 4), CHR ''='']"
| "b64_encode (a # b # c # rest) =
     [b64_char (unat a div 4), b64_char (unat a mod 4 * 16 + unat b div 16),
      b64_char (unat b mod 16 * 4 + unat c div 64), b64_char (unat c mod 64)] @ b64_encode rest"

text \<open>
  \<open>base64.StdEncoding.DecodeString\<close> on text without line breaks: groups of four characters,
  padding only at the end.
\<close>

definition b64_byte1 :: "nat \<Rightarrow> nat \<Rightarrow> byte" where
  "b64_byte1 w x = of_nat (w * 4 + x div 16)"

definition b64_byte2 :: "nat \<Rightarrow> nat \<Rightarrow> byte" where
  "b64_byte2 x y = of_nat (x mod 16 * 16 + y div 4)"

definition b64_byte3 :: "nat \<Rightarrow> nat \<Rightarrow> byte" where
  "b64_byte3 y z = of_nat (y mod 4 * 64 + z)"

fun b64_decode :: "string \<Rightarrow> byte list option" where
  "b64_decode [] = Some []"
| "b64_decode (p # q # r # s # rest) =
     (case (b64_index p, b64_index q) of
        (Some w, Some x) \<Rightarrow>
          (let b1 = b64_byte1 w x in
           if r = CHR ''='' \<and> s = CHR ''='' \<and> rest = [] then Some [b1]
           else (case b64_index r of
              None \<Rightarrow> None
            | Some y \<Rightarrow>
                (let b2 = b64_byte2 x y in
                 if s = CHR ''='' \<and> rest = [] then Some [b1, b2]
                 else (case b64_index s of
                    None \<Rightarrow> None
                  | Some z \<Rightarrow> map_option (\<lambda>bs. b1 # b2 # b64_byte3 y z # bs) (b64_decode rest)))))
      | _ \<Rightarrow> None)"
| "b64_decode _ = None"

lemma b64_index_char_all: "list_all (\<lambda>n. b64_index (b64_char n) = Some n \<and> b64_char n \<noteq> CHR ''='') [0..<64]"
  by code_simp

lemma b64_index_char [simp]: "n < 64 \<Longrightarrow> b64_index (b64_char n) = Some n"
  using b64_index_char_all by (simp add: list_all_iff)

lemma b64_char_pad [simp]: "n < 64 \<Longrightarrow> b64_char n \<noteq> CHR ''=''"
  using b64_index_char_all by (simp add: list_all_iff)

lemma unat_byte: "unat (a :: byte) < 256"
  by (rule order.strict_trans2, rule unsigned_less) simp

lemma b64_bounds [simp]:
  "unat (a :: byte) div 4 < 64"
  "unat (a :: byte) mod 4 * 16 < 64"
  "unat (b :: byte) mod 16 * 4 < 64"
  "unat (a :: byte) mod 4 * 16 + unat (b :: byte) div 16 < 64"
  "unat (b :: byte) mod 16 * 4 + unat (c :: byte) div 64 < 64"
  using unat_byte [of a] unat_byte [of b] unat_byte [of c] by (simp_all; linarith)+

lemma b64_small [simp]: "unat (b :: byte) div 16 < 16" "unat (b :: byte) div 64 < 4"
  using unat_byte [of b] by simp_all

lemma b64_join [simp]:
  "b64_byte1 (unat a div 4) (unat a mod 4 * 16 + unat (b :: byte) div 16) = a"
  "b64_byte1 (unat a div 4) (unat a mod 4 * 16) = a"
  "b64_byte2 (unat (a :: byte) mod 4 * 16 + unat b div 16) (unat b mod 16 * 4 + unat (c :: byte) div 64) = b"
  "b64_byte2 (unat (a :: byte) mod 4 * 16 + unat b div 16) (unat b mod 16 * 4) = b"
  "b64_byte3 (unat (b :: byte) mod 16 * 4 + unat c div 64) (unat c mod 64) = c"
proof -
  have "unat a div 4 * 4 + (unat a mod 4 * 16 + unat b div 16) div 16 = unat a" by simp
  then show "b64_byte1 (unat a div 4) (unat a mod 4 * 16 + unat b div 16) = a"
    by (simp only: b64_byte1_def of_nat_unat ucast_id)
  have "unat a div 4 * 4 + (unat a mod 4 * 16) div 16 = unat a" by simp
  then show "b64_byte1 (unat a div 4) (unat a mod 4 * 16) = a"
    by (simp only: b64_byte1_def of_nat_unat ucast_id)
  have "(unat a mod 4 * 16 + unat b div 16) mod 16 * 16 + (unat b mod 16 * 4 + unat c div 64) div 4 = unat b"
    by simp
  then show "b64_byte2 (unat a mod 4 * 16 + unat b div 16) (unat b mod 16 * 4 + unat c div 64) = b"
    by (simp only: b64_byte2_def of_nat_unat ucast_id)
  have "(unat a mod 4 * 16 + unat b div 16) mod 16 * 16 + (unat b mod 16 * 4) div 4 = unat b"
    by simp
  then show "b64_byte2 (unat a mod 4 * 16 + unat b div 16) (unat b mod 16 * 4) = b"
    by (simp only: b64_byte2_def of_nat_unat ucast_id)
  have "(unat b mod 16 * 4 + unat c div 64) mod 4 * 64 + unat c mod 64 = unat c"
    by simp
  then show "b64_byte3 (unat b mod 16 * 4 + unat c div 64) (unat c mod 64) = c"
    by (simp only: b64_byte3_def of_nat_unat ucast_id)
qed

lemma b64_decode_encode: "b64_decode (b64_encode bs) = Some bs"
  by (induction bs rule: b64_encode.induct) (simp_all add: Let_def)

end
