(* ===== verification/Env.thy ===== *)
theory Env
  imports GoStd
begin

section \<open>Environment variables (shared/env)\<close>

text \<open>
  The process environment is a partial map (\<open>os.LookupEnv\<close>). The three getters of the package
  differ in how they parse a set value; what they promise is one contract, the locale
  \<open>env_getter\<close>, and its clients only use that contract.
\<close>

type_synonym environ = "string \<rightharpoonup> string"

definition GetString :: "environ \<Rightarrow> string \<Rightarrow> string \<Rightarrow> string" where
  "GetString env key fallback =
     (case env key of
        None \<Rightarrow> fallback
      | Some val \<Rightarrow> val)"

definition GetInt :: "environ \<Rightarrow> string \<Rightarrow> go_int \<Rightarrow> go_int" where
  "GetInt env key fallback =
     (case env key of
        None \<Rightarrow> fallback
      | Some val \<Rightarrow>
          (case atoi val of
             None \<Rightarrow> fallback
           | Some valAsInt \<Rightarrow> valAsInt))"

definition GetBool :: "environ \<Rightarrow> string \<Rightarrow> bool \<Rightarrow> bool" where
  "GetBool env key fallback =
     (case env key of
        None \<Rightarrow> fallback
      | Some val \<Rightarrow>
          (case parse_bool val of
             None \<Rightarrow> fallback
           | Some boolVal \<Rightarrow> boolVal))"

locale env_getter =
  fixes getter :: "environ \<Rightarrow> string \<Rightarrow> 'a \<Rightarrow> 'a"
    and parse :: "string \<Rightarrow> 'a option"
  assumes unset: "env key = None \<Longrightarrow> getter env key d = d"
    and parsed: "env key = Some v \<Longrightarrow> parse v = Some x \<Longrightarrow> getter env key d = x"
    and malformed: "env key = Some v \<Longrightarrow> parse v = None \<Longrightarrow> getter env key d = d"
begin

lemma getter_eq: "getter env key d = (case Option.bind (env key) parse of None \<Rightarrow> d | Some x \<Rightarrow> x)"
  by (cases "env key"; cases "parse (the (env key))") (simp_all add: unset parsed malformed)

text \<open>Only the variable asked for is read.\<close>

lemma getter_local: "env key = env' key \<Longrightarrow> getter env key d = getter env' key d"
  by (simp add: getter_eq)

text \<open>The result is the fallback or the parsed value, nothing else.\<close>

lemma getter_range: "getter env key d = d \<or> (\<exists>v. env key = Some v \<and> parse v = Some (getter env key d))"
  by (cases "env key"; cases "parse (the (env key))") (simp_all add: unset parsed malformed)

text \<open>Any predicate of the fallback and of every parsed value holds of the result.\<close>

lemma getter_pred: "P d \<Longrightarrow> (\<And>v x. parse v = Some x \<Longrightarrow> P x) \<Longrightarrow> P (getter env key d)"
  using getter_range [of env key d] by metis

end

interpretation env_str: env_getter GetString Some
  by unfold_locales (simp_all add: GetString_def)

interpretation env_int: env_getter GetInt atoi
  by unfold_locales (simp_all add: GetInt_def)

interpretation env_bool: env_getter GetBool parse_bool
  by unfold_locales (simp_all add: GetBool_def)

text \<open>A variable set to the decimal text of a number gives that number back.\<close>

lemma GetInt_itoa: "env key = Some (itoa n) \<Longrightarrow> GetInt env key d = n"
  by (erule env_int.parsed) (rule atoi_itoa)

end
