(* ===== verification/Models.thy ===== *)
theory Models
  imports GoNum GoText Env
begin

section \<open>Data: database models, protocol messages, queue messages\<close>

text \<open>
  One record per struct of \<open>shared/models\<close>, \<open>shared/rabbitmq\<close>, \<open>shared/proto\<close> and
  \<open>services/api-gateway/types\<close>, field for field. A pointer to a scalar is an \<open>option\<close>, a
  nil or empty slice is \<open>[]\<close> (the code only ever asks for its length).
\<close>

subsection \<open>shared/models\<close>

datatype attempt_status =
    AttemptStatusRunning | AttemptStatusSucceeded | AttemptStatusFailed
  | AttemptStatusDead | AttemptStatusCancelled

record JobAttempt =
  att_ID :: string
  att_JobID :: string
  att_Attempt :: go_int
  att_Status :: attempt_status
  att_WorkerPod :: string
  att_Result :: "byte list"
  att_Error :: string
  att_StartedAt :: time
  att_FinishedAt :: time

record Namespace =
  ns_ID :: string
  ns_Name :: string
  ns_DNS :: string
  ns_MaxWorkers :: go_int
  ns_MaxConcurrentJobs :: go_int
  ns_MaxPods :: go_int
  ns_CPURequestMilli :: go_int
  ns_CPULimitMilli :: go_int
  ns_MemoryRequestMB :: go_int
  ns_MemoryLimitMB :: go_int

record Worker =
  w_ID :: string
  w_Image :: string
  w_NamespaceID :: string
  w_Namespace :: Namespace
  w_K8sDeploymentName :: string
  w_MaxReplicas :: go_int
  w_IdleTimeoutSeconds :: go_int

record Job =
  job_ID :: string
  job_WorkerID :: string
  job_Worker :: Worker
  job_Namespace :: string
  job_Autorun :: bool
  job_Entrypoint :: "string list"
  job_Payload :: "byte list"
  job_IdleTimeoutSeconds :: float32
  job_MaxAttempts :: float32
  job_TimeoutSeconds :: float32

text \<open>The zero values of the structs (\<open>var job models.Job\<close>).\<close>

definition zero_Namespace :: Namespace where
  "zero_Namespace = \<lparr>ns_ID = [], ns_Name = [], ns_DNS = [], ns_MaxWorkers = 0, ns_MaxConcurrentJobs = 0,
     ns_MaxPods = 0, ns_CPURequestMilli = 0, ns_CPULimitMilli = 0, ns_MemoryRequestMB = 0, ns_MemoryLimitMB = 0\<rparr>"

definition zero_Worker :: Worker where
  "zero_Worker = \<lparr>w_ID = [], w_Image = [], w_NamespaceID = [], w_Namespace = zero_Namespace,
     w_K8sDeploymentName = [], w_MaxReplicas = 0, w_IdleTimeoutSeconds = 0\<rparr>"

definition zero_Job :: Job where
  "zero_Job = \<lparr>job_ID = [], job_WorkerID = [], job_Worker = zero_Worker, job_Namespace = [],
     job_Autorun = False, job_Entrypoint = [], job_Payload = [], job_IdleTimeoutSeconds = 0,
     job_MaxAttempts = 0, job_TimeoutSeconds = 0\<rparr>"

subsection \<open>Requests and messages\<close>

datatype execution_status =
    EXECUTION_STATUS_UNSPECIFIED | EXECUTION_STATUS_PENDING | EXECUTION_STATUS_RUNNING
  | EXECUTION_STATUS_SUCCEEDED | EXECUTION_STATUS_FAILED | EXECUTION_STATUS_CANCELLED

text \<open>\<open>types.SubmitJobRequest\<close>; the payload is the decoded JSON object.\<close>

record 'p SubmitJobRequest =
  sj_Autorun :: "bool option"
  sj_Entrypoint :: "string list option"
  sj_IdleTimeoutSeconds :: "float32 option"
  sj_Image :: string
  sj_MaxAttempts :: "float32 option"
  sj_Namespace :: "string option"
  sj_Payload :: 'p
  sj_Priority :: "float32 option"
  sj_TimeoutSeconds :: "float32 option"

record CreateJobRequest =
  cj_Image :: string
  cj_Payload :: "byte list"
  cj_Priority :: int64
  cj_Autorun :: bool
  cj_Entrypoint :: "string list"
  cj_IdleTimeoutSeconds :: float32
  cj_MaxAttempts :: float32
  cj_Namespace :: string
  cj_TimeoutSeconds :: float32

record RunJobRequest =
  rj_JobId :: string
  rj_Payload :: "byte list"
  rj_Priority :: "int64 option"
  rj_Entrypoint :: "string list"
  rj_IdleTimeoutSeconds :: "float32 option"
  rj_MaxAttempts :: "float32 option"
  rj_TimeoutSeconds :: "float32 option"

record RunRequest =
  rr_JobId :: string
  rr_AttemptId :: string
  rr_Entrypoint :: "string list"
  rr_Payload :: "byte list"
  rr_TimeoutSeconds :: float32

record HeartbeatRequest =
  hb_ExecutionId :: string
  hb_JobId :: string
  hb_AttemptId :: string
  hb_Status :: execution_status
  hb_Pid :: int64
  hb_UnixTime :: int64

record JobOverrides =
  ov_Payload :: "byte list"
  ov_Entrypoint :: "string list"
  ov_IdleTimeoutSeconds :: "float32 option"
  ov_MaxAttempts :: "float32 option"
  ov_TimeoutSeconds :: "float32 option"

record JobMessage =
  jm_JobID :: string
  jm_Attempt :: go_int
  jm_Priority :: int64
  jm_Overrides :: "JobOverrides option"

text \<open>The getter of an \<open>optional\<close> scalar gives its zero value when the field is unset.\<close>

definition GetPriority :: "RunJobRequest \<Rightarrow> int64" where
  "GetPriority req = (case rj_Priority req of Some p \<Rightarrow> p | None \<Rightarrow> 0)"


subsection \<open>Conversions between the layers (shared/models/job.go)\<close>

text \<open>
  \<open>marshal\<close> is \<open>json.Marshal\<close> of the payload object, \<open>oor\<close> the implementation's choice for a
  float outside the range of \<open>int64\<close>.
\<close>

definition BuildJobProto ::
  "('p \<Rightarrow> byte list result) \<Rightarrow> (float32 \<Rightarrow> int64) \<Rightarrow> 'p SubmitJobRequest \<Rightarrow> CreateJobRequest result" where
  "BuildJobProto marshal oor jobReq =
     (case marshal (sj_Payload jobReq) of
        Inl err \<Rightarrow> Inl err
      | Inr payload \<Rightarrow> Inr
          \<lparr>cj_Image = sj_Image jobReq,
           cj_Payload = payload,
           cj_Priority = (case sj_Priority jobReq of Some p \<Rightarrow> f32_to_int64 oor p | None \<Rightarrow> 1),
           cj_Autorun = (case sj_Autorun jobReq of Some b \<Rightarrow> b | None \<Rightarrow> False),
           cj_Entrypoint = (case sj_Entrypoint jobReq of Some e \<Rightarrow> e | None \<Rightarrow> []),
           cj_IdleTimeoutSeconds = (case sj_IdleTimeoutSeconds jobReq of Some t \<Rightarrow> t | None \<Rightarrow> zero_f32),
           cj_MaxAttempts = (case sj_MaxAttempts jobReq of Some m \<Rightarrow> m | None \<Rightarrow> zero_f32),
           cj_Namespace = (case sj_Namespace jobReq of Some n \<Rightarrow> n | None \<Rightarrow> ''wardu''),
           cj_TimeoutSeconds = (case sj_TimeoutSeconds jobReq of Some t \<Rightarrow> t | None \<Rightarrow> zero_f32)\<rparr>)"

definition BuildJobFromProto :: "CreateJobRequest \<Rightarrow> Job" where
  "BuildJobFromProto proto = zero_Job
     \<lparr>job_Payload := cj_Payload proto,
      job_Autorun := cj_Autorun proto,
      job_Entrypoint := cj_Entrypoint proto,
      job_IdleTimeoutSeconds := cj_IdleTimeoutSeconds proto,
      job_MaxAttempts := cj_MaxAttempts proto,
      job_Namespace := cj_Namespace proto,
      job_TimeoutSeconds := cj_TimeoutSeconds proto\<rparr>"

definition ApplyOverrides :: "Job \<Rightarrow> JobOverrides option \<Rightarrow> Job" where
  "ApplyOverrides j0 ops0 =
     (case ops0 of None \<Rightarrow> j0 | Some ops \<Rightarrow>
       (let j1 = (if 0 < length (ov_Payload ops) then j0\<lparr>job_Payload := ov_Payload ops\<rparr> else j0);
            j2 = (if 0 < length (ov_Entrypoint ops) then j1\<lparr>job_Entrypoint := ov_Entrypoint ops\<rparr> else j1);
            j3 = (case ov_TimeoutSeconds ops of Some t \<Rightarrow> j2\<lparr>job_TimeoutSeconds := t\<rparr> | None \<Rightarrow> j2);
            j4 = (case ov_MaxAttempts ops of Some m \<Rightarrow> j3\<lparr>job_MaxAttempts := m\<rparr> | None \<Rightarrow> j3);
            j5 = (case ov_IdleTimeoutSeconds ops of Some t \<Rightarrow> j4\<lparr>job_IdleTimeoutSeconds := t\<rparr> | None \<Rightarrow> j4)
        in j5))"

text \<open>
  Overriding is a shared pattern: a value with unset parts is laid over a base, unset parts
  leave the base alone, and laying the same value twice is laying it once. The overrides of a
  queued job and the stored limits of a namespace are both such.
\<close>

locale overriding =
  fixes over :: "'base \<Rightarrow> 'delta \<Rightarrow> 'base"
    and unset :: "'delta \<Rightarrow> bool"
  assumes over_unset: "unset d \<Longrightarrow> over b d = b"
    and over_again: "over (over b d) d = over b d"
begin

lemma over_repeat: "((\<lambda>b. over b d) ^^ Suc n) b = over b d"
  by (induction n) (simp_all add: over_again)

end

definition no_overrides :: "JobOverrides option \<Rightarrow> bool" where
  "no_overrides ops0 = (case ops0 of None \<Rightarrow> True | Some ops \<Rightarrow>
     ov_Payload ops = [] \<and> ov_Entrypoint ops = [] \<and> ov_TimeoutSeconds ops = None \<and>
     ov_MaxAttempts ops = None \<and> ov_IdleTimeoutSeconds ops = None)"

lemma ApplyOverrides_None [simp]: "ApplyOverrides j None = j"
  by (simp add: ApplyOverrides_def)

lemma ApplyOverrides_fields:
  fixes ops :: JobOverrides and j :: Job
  defines "j' \<equiv> ApplyOverrides j (Some ops)"
  shows "job_Payload j' = (if ov_Payload ops = [] then job_Payload j else ov_Payload ops)"
    and "job_Entrypoint j' = (if ov_Entrypoint ops = [] then job_Entrypoint j else ov_Entrypoint ops)"
    and "job_TimeoutSeconds j' = case_option (job_TimeoutSeconds j) id (ov_TimeoutSeconds ops)"
    and "job_MaxAttempts j' = case_option (job_MaxAttempts j) id (ov_MaxAttempts ops)"
    and "job_IdleTimeoutSeconds j' = case_option (job_IdleTimeoutSeconds j) id (ov_IdleTimeoutSeconds ops)"
    and "job_ID j' = job_ID j" "job_WorkerID j' = job_WorkerID j" "job_Worker j' = job_Worker j"
    and "job_Namespace j' = job_Namespace j" "job_Autorun j' = job_Autorun j"
  by (simp_all add: j'_def ApplyOverrides_def Let_def split: option.split)

lemma Job_eqI:
  assumes "job_ID a = job_ID b" "job_WorkerID a = job_WorkerID b" "job_Worker a = job_Worker b"
    "job_Namespace a = job_Namespace b" "job_Autorun a = job_Autorun b"
    "job_Entrypoint a = job_Entrypoint b" "job_Payload a = job_Payload b"
    "job_IdleTimeoutSeconds a = job_IdleTimeoutSeconds b" "job_MaxAttempts a = job_MaxAttempts b"
    "job_TimeoutSeconds a = job_TimeoutSeconds b"
  shows "a = (b :: Job)"
  using assms by (cases a; cases b) simp

lemma ApplyOverrides_same:
  "ApplyOverrides (ApplyOverrides j (Some ops)) (Some ops) = ApplyOverrides j (Some ops)"
  by (rule Job_eqI) (simp_all add: ApplyOverrides_fields split: option.split)

interpretation job_ov: overriding ApplyOverrides no_overrides
proof
  show "no_overrides d \<Longrightarrow> ApplyOverrides b d = b" for b d
    by (cases d) (simp_all add: no_overrides_def ApplyOverrides_def)
  show "ApplyOverrides (ApplyOverrides b d) d = ApplyOverrides b d" for b d
    by (cases d) (simp_all add: ApplyOverrides_same)
qed

subsection \<open>Order on execution statuses\<close>

text \<open>The enum's number, through which both generated packages convert.\<close>

primrec status_number :: "execution_status \<Rightarrow> int" where
  "status_number EXECUTION_STATUS_UNSPECIFIED = 0"
| "status_number EXECUTION_STATUS_PENDING = 1"
| "status_number EXECUTION_STATUS_RUNNING = 2"
| "status_number EXECUTION_STATUS_SUCCEEDED = 3"
| "status_number EXECUTION_STATUS_FAILED = 4"
| "status_number EXECUTION_STATUS_CANCELLED = 5"

lemma status_number_inj: "status_number a = status_number b \<Longrightarrow> a = b"
  by (cases a; cases b) simp_all

instantiation execution_status :: linorder
begin

definition less_eq_execution_status :: "execution_status \<Rightarrow> execution_status \<Rightarrow> bool" where
  "a \<le> b \<longleftrightarrow> status_number a \<le> status_number b"

definition less_execution_status :: "execution_status \<Rightarrow> execution_status \<Rightarrow> bool" where
  "a < b \<longleftrightarrow> status_number a < status_number b"

instance
  by standard (auto simp: less_eq_execution_status_def less_execution_status_def dest: status_number_inj)

end

lemmas status_order = less_eq_execution_status_def less_execution_status_def

end
