(* ===== verification/World.thy ===== *)
theory World
  imports Models
begin

section \<open>The outside world: Kubernetes, Postgres, RabbitMQ, gRPC, processes\<close>

text \<open>
  The services call code that is not part of this repository: the Kubernetes API, gorm over
  Postgres, the AMQP client, gRPC and the id generators. That code is a parameter, the record
  \<open>ext\<close> of functions over an unconstrained state \<open>'w\<close> of the outside: any answer, any failure and any
  dependence on earlier calls is an instance. A property that needs more of the outside states
  it as a hypothesis.

  Every call that changes or asks the outside is also recorded, with its answer, in \<open>trace\<close>,
  which nothing reads: it is what the properties about the order and the number of calls speak
  of.
\<close>

subsection \<open>Objects of the Kubernetes API the code builds or reads\<close>

type_synonym labels = "(string \<times> string) list"

record k8s_Namespace =
  kns_Name :: string
  kns_Labels :: labels

record ResourceQuota =
  rq_Name :: string
  rq_Namespace :: string
  rq_Labels :: labels
  rq_Hard :: "(string \<times> string) list" \<comment> \<open>resource name, quantity text\<close>

record LimitRange =
  lr_Name :: string
  lr_Namespace :: string
  lr_Labels :: labels
  lr_DefaultRequest :: "(string \<times> string) list"
  lr_Default :: "(string \<times> string) list"

record Container =
  ct_Name :: string
  ct_Image :: string
  ct_Ports :: "int32 list"

record Deployment =
  dp_Name :: string
  dp_Namespace :: string
  dp_Labels :: labels
  dp_Replicas :: int32
  dp_Selector :: labels
  dp_TemplateLabels :: labels
  dp_Containers :: "Container list"

record Scale =
  sc_SpecReplicas :: int32
  sc_StatusReplicas :: int32

record Pod =
  pod_Name :: string
  pod_IP :: string
  pod_Phase :: string
  pod_Conditions :: "(string \<times> string) list" \<comment> \<open>type, status\<close>

text \<open>What the watch channel delivers: a closed channel, an object that is no deployment, or a
  deployment with its number of ready replicas.\<close>

datatype watch_item = WatchClosed | WatchOther | WatchDeployment int32

subsection \<open>AMQP\<close>

datatype json =
    JNull | JBool bool | JNum string | JStr string | JArr "json list" | JObj "(string \<times> json) list"

record Publishing =
  pub_Exchange :: string
  pub_Key :: string
  pub_ContentType :: string
  pub_Persistent :: bool
  pub_Priority :: "8 word"
  pub_Body :: json

datatype amqp_cmd =
    AmqpDial string | AmqpChannel | AmqpClose
  | Qos go_int
  | ExchangeDeclare string string bool \<comment> \<open>name, kind, durable\<close>
  | QueueDeclare string bool "(string \<times> string) list" \<comment> \<open>name, durable, arguments\<close>
  | QueueBind string string string \<comment> \<open>queue, key, exchange\<close>
  | AmqpConsume string \<comment> \<open>queue\<close>
  | Ack nat \<comment> \<open>delivery tag\<close>
  | Nack nat bool \<comment> \<open>delivery tag, requeue\<close>

subsection \<open>Start-up\<close>

text \<open>
  What the mains ask for before they serve: the listening socket, the pool of the database and the
  statements of its migration, the cluster's configuration and client, and the registration of the service.
\<close>

datatype boot_cmd =
    NetListen string \<comment> \<open>address\<close>
  | ListenerClose
  | GormOpen string \<comment> \<open>data source name\<close>
  | SqlExec string
  | AutoMigrate "string list" \<comment> \<open>models\<close>
  | InClusterConfig | NewForConfig
  | RegisterServer string

subsection \<open>Processes\<close>

text \<open>What \<open>exec.Command\<close> is built from, with the environment it is given.\<close>

record command =
  cmd_Name :: string
  cmd_Args :: "string list"
  cmd_Env :: "string list"

subsection \<open>Queries\<close>

text \<open>\<open>Where("column = ?", value)\<close>\<close>

datatype query = Where string string

subsection \<open>The functions of the outside\<close>

record 'w ext =
  x_now :: "'w \<Rightarrow> time \<times> 'w"
  x_ulid :: "time \<Rightarrow> 'w \<Rightarrow> string result \<times> 'w"
  x_uuid :: "'w \<Rightarrow> string \<times> 'w"
  x_rand :: "'w \<Rightarrow> nat \<times> 'w"
  x_ns_create :: "Namespace \<Rightarrow> 'w \<Rightarrow> unit result \<times> 'w"
  x_ns_delete :: "query \<Rightarrow> 'w \<Rightarrow> unit result \<times> 'w"
  x_ns_find :: "'w \<Rightarrow> Namespace list result \<times> 'w"
  x_ns_first :: "query \<Rightarrow> 'w \<Rightarrow> Namespace result \<times> 'w"
  x_ns_updates :: "query \<Rightarrow> Namespace \<Rightarrow> 'w \<Rightarrow> Namespace result \<times> 'w"
  x_worker_first :: "query \<Rightarrow> 'w \<Rightarrow> Worker result \<times> 'w"
  x_worker_create :: "Worker \<Rightarrow> 'w \<Rightarrow> unit result \<times> 'w"
  x_worker_updates :: "query \<Rightarrow> Worker \<Rightarrow> 'w \<Rightarrow> unit result \<times> 'w"
  x_job_create :: "Job \<Rightarrow> 'w \<Rightarrow> unit result \<times> 'w"
  x_job_first :: "string list \<Rightarrow> query \<Rightarrow> 'w \<Rightarrow> Job result \<times> 'w" \<comment> \<open>preloaded associations\<close>
  x_attempt_create :: "JobAttempt \<Rightarrow> 'w \<Rightarrow> unit result \<times> 'w"
  x_attempt_updates :: "query \<Rightarrow> JobAttempt \<Rightarrow> 'w \<Rightarrow> JobAttempt result \<times> 'w"
  x_k8s_ns_get :: "string \<Rightarrow> 'w \<Rightarrow> unit result \<times> 'w"
  x_k8s_ns_create :: "k8s_Namespace \<Rightarrow> 'w \<Rightarrow> unit result \<times> 'w"
  x_k8s_quota_create :: "string \<Rightarrow> ResourceQuota \<Rightarrow> 'w \<Rightarrow> unit result \<times> 'w"
  x_k8s_limits_create :: "string \<Rightarrow> LimitRange \<Rightarrow> 'w \<Rightarrow> unit result \<times> 'w"
  x_k8s_dep_get :: "string \<Rightarrow> string \<Rightarrow> 'w \<Rightarrow> unit result \<times> 'w"
  x_k8s_dep_create :: "string \<Rightarrow> Deployment \<Rightarrow> 'w \<Rightarrow> unit result \<times> 'w"
  x_k8s_scale_get :: "string \<Rightarrow> string \<Rightarrow> 'w \<Rightarrow> Scale result \<times> 'w"
  x_k8s_scale_update :: "string \<Rightarrow> string \<Rightarrow> Scale \<Rightarrow> 'w \<Rightarrow> unit result \<times> 'w"
  x_k8s_dep_watch :: "string \<Rightarrow> string \<Rightarrow> 'w \<Rightarrow> (watch_item list \<times> error) result \<times> 'w"
  x_k8s_pods :: "string \<Rightarrow> string \<Rightarrow> 'w \<Rightarrow> Pod list result \<times> 'w" \<comment> \<open>namespace, label selector\<close>
  x_amqp :: "amqp_cmd \<Rightarrow> 'w \<Rightarrow> unit result \<times> 'w"
  x_publish :: "Publishing \<Rightarrow> 'w \<Rightarrow> unit result \<times> 'w"
  x_grpc_dial :: "string \<Rightarrow> 'w \<Rightarrow> unit result \<times> 'w"
  x_grpc_close :: "string \<Rightarrow> 'w \<Rightarrow> unit result \<times> 'w"
  x_runtime_run :: "string \<Rightarrow> RunRequest \<Rightarrow> 'w \<Rightarrow> string result \<times> 'w"
  x_start :: "command \<Rightarrow> 'w \<Rightarrow> int64 result \<times> 'w" \<comment> \<open>the process id\<close>
  x_signal :: "int64 \<Rightarrow> string \<Rightarrow> 'w \<Rightarrow> unit result \<times> 'w"
  x_hb_open :: "'w \<Rightarrow> unit result \<times> 'w"
  x_hb_send :: "HeartbeatRequest \<Rightarrow> 'w \<Rightarrow> unit result \<times> 'w"
  x_boot :: "boot_cmd \<Rightarrow> 'w \<Rightarrow> unit result \<times> 'w"

subsection \<open>The state of a service and its calls to the outside\<close>

datatype event =
    EvNsCreate Namespace "unit result" | EvNsDelete query "unit result"
  | EvNsFind "Namespace list result" | EvNsFirst query "Namespace result"
  | EvNsUpdates query Namespace "Namespace result"
  | EvWorkerFirst query "Worker result" | EvWorkerCreate Worker "unit result"
  | EvWorkerUpdates query Worker "unit result"
  | EvJobCreate Job "unit result" | EvJobFirst "string list" query "Job result"
  | EvAttemptCreate JobAttempt "unit result" | EvAttemptUpdates query JobAttempt "JobAttempt result"
  | EvK8sNsGet string "unit result" | EvK8sNsCreate k8s_Namespace "unit result"
  | EvK8sQuotaCreate string ResourceQuota "unit result" | EvK8sLimitsCreate string LimitRange "unit result"
  | EvK8sDepGet string string "unit result" | EvK8sDepCreate string Deployment "unit result"
  | EvK8sScaleGet string string "Scale result" | EvK8sScaleUpdate string string Scale "unit result"
  | EvK8sDepWatch string string "(watch_item list \<times> error) result"
  | EvK8sPods string string "Pod list result"
  | EvAmqp amqp_cmd "unit result" | EvPublish Publishing "unit result"
  | EvDial string "unit result" | EvClose string "unit result"
  | EvRun string RunRequest "string result"
  | EvStart command "int64 result" | EvSignal int64 string "unit result"
  | EvHbOpen "unit result" | EvHbSend HeartbeatRequest "unit result"
  | EvBoot boot_cmd "unit result"
  | EvFatal string "error option" \<comment> \<open>the message and the error of a fatal log line\<close>

record 'w sys =
  world :: 'w
  trace :: "event list"

text \<open>A call that is recorded, and a question to the clock or an id generator, which is not.\<close>

definition ext_call :: "('w \<Rightarrow> 'r \<times> 'w) \<Rightarrow> ('r \<Rightarrow> event) \<Rightarrow> (('w, 'z) sys_scheme, 'r) state" where
  "ext_call f ev = State (\<lambda>s. case f (world s) of (r, w) \<Rightarrow> (r, s\<lparr>world := w, trace := trace s @ [ev r]\<rparr>))"

definition ext_ask :: "('w \<Rightarrow> 'r \<times> 'w) \<Rightarrow> (('w, 'z) sys_scheme, 'r) state" where
  "ext_ask f = State (\<lambda>s. case f (world s) of (r, w) \<Rightarrow> (r, s\<lparr>world := w\<rparr>))"

lemma wp_ext_call [wp_simps]:
  "wp (ext_call f ev) Q s =
     (case f (world s) of (r, w) \<Rightarrow> Q r (s\<lparr>world := w, trace := trace s @ [ev r]\<rparr>))"
  by (simp add: wp_def ext_call_def split: prod.splits)

lemma wp_ext_ask [wp_simps]:
  "wp (ext_ask f) Q s = (case f (world s) of (r, w) \<Rightarrow> Q r (s\<lparr>world := w\<rparr>))"
  by (simp add: wp_def ext_ask_def split: prod.splits)

lemma run_ext_call [simp]:
  "run_state (ext_call f ev) s =
     (case f (world s) of (r, w) \<Rightarrow> (r, s\<lparr>world := w, trace := trace s @ [ev r]\<rparr>))"
  by (simp add: ext_call_def)

lemma run_ext_ask [simp]:
  "run_state (ext_ask f) s = (case f (world s) of (r, w) \<Rightarrow> (r, s\<lparr>world := w\<rparr>))"
  by (simp add: ext_ask_def)

text \<open>
  A fatal log line ends the process (\<open>os.Exit(1)\<close>, no deferred call runs): it is the last event, and
  the error of kind \<open>EkExit\<close>.
\<close>

definition log_Fatal :: "string \<Rightarrow> error option \<Rightarrow> (('w, 'z) sys_scheme, 'a result) state" where
  "log_Fatal msg err = State (\<lambda>s. (Inl (Error EkExit msg), s\<lparr>trace := trace s @ [EvFatal msg err]\<rparr>))"

lemma run_log_Fatal [simp]:
  "run_state (log_Fatal msg err) s = (Inl (Error EkExit msg), s\<lparr>trace := trace s @ [EvFatal msg err]\<rparr>)"
  by (simp add: log_Fatal_def)

subsection \<open>Traces only grow\<close>

text \<open>
  The contract of the shared operations: they append calls of a certain kind to the trace and
  leave the tables that a service adds to its state as they are.
\<close>

definition extends :: "(event \<Rightarrow> bool) \<Rightarrow> ('w, 'z) sys_scheme \<Rightarrow> ('w, 'z) sys_scheme \<Rightarrow> bool" where
  "extends P s t = (\<exists>es. trace t = trace s @ es \<and> list_all P es)"

definition grows :: "(event \<Rightarrow> bool) \<Rightarrow> ('w, 'z) sys_scheme \<Rightarrow> ('w, 'z) sys_scheme \<Rightarrow> bool" where
  "grows P s t = (extends P s t \<and> sys.more t = sys.more s)"

lemma extendsI: "trace t = trace s @ es \<Longrightarrow> list_all P es \<Longrightarrow> extends P s t"
  by (auto simp: extends_def)

lemma growsI: "trace t = trace s @ es \<Longrightarrow> list_all P es \<Longrightarrow> sys.more t = sys.more s \<Longrightarrow> grows P s t"
  by (simp add: grows_def extendsI)

lemma grows_trace: "grows P s t \<Longrightarrow> \<exists>es. trace t = trace s @ es \<and> list_all P es"
  by (simp add: grows_def extends_def)

lemma grows_more: "grows P s t \<Longrightarrow> sys.more t = sys.more s"
  by (simp add: grows_def)

interpretation extend: step_contract "extends P" for P
proof
  show "extends P s s" for s by (rule extendsI [where es = "[]"]) simp_all
  show "extends P s t \<Longrightarrow> extends P t u \<Longrightarrow> extends P s u" for s t u
    by (auto simp: extends_def)
qed

interpretation grow: step_contract "grows P" for P
proof
  show "grows P s s" for s by (simp add: grows_def extend.R_refl)
  show "grows P s t \<Longrightarrow> grows P t u \<Longrightarrow> grows P s u" for s t u
    by (auto simp: grows_def intro: extend.R_trans)
qed

lemma grow_ext_call: "(\<And>r. P (ev r)) \<Longrightarrow> state_io_rel (grows P) (ext_call f ev)"
  by (auto simp: state_io_rel_def ext_call_def grows_def extends_def split: prod.splits)

lemma grow_ext_ask: "state_io_rel (grows P) (ext_ask f)"
  by (auto simp: state_io_rel_def ext_ask_def grows_def extends_def split: prod.splits)

lemma extends_mono: "extends P s t \<Longrightarrow> (\<And>e. P e \<Longrightarrow> Q e) \<Longrightarrow> extends Q s t"
  by (auto simp: extends_def list_all_iff)

lemma grows_mono: "grows P s t \<Longrightarrow> (\<And>e. P e \<Longrightarrow> Q e) \<Longrightarrow> grows Q s t"
  by (auto simp: grows_def intro: extends_mono)

lemma grow_mono: "state_io_rel (grows P) m \<Longrightarrow> (\<And>e. P e \<Longrightarrow> Q e) \<Longrightarrow> state_io_rel (grows Q) m"
  by (auto simp: state_io_rel_def intro: grows_mono)

lemma grow_extend: "state_io_rel (grows P) m \<Longrightarrow> state_io_rel (extends P) m"
  by (auto simp: state_io_rel_def grows_def)

lemmas grow_intros = grow.keeps grow_ext_call grow_ext_ask

subsection \<open>Ids (shared/ids)\<close>

text \<open>
  \<open>ulid.MustNew(ulid.Timestamp(time.Now()), entropy).String()\<close>: it panics when the entropy
  source fails, which is an error of kind \<open>EkPanic\<close> here. All three ids come from it.
\<close>

definition time_Now :: "'w ext \<Rightarrow> (('w, 'z) sys_scheme, time) state" where
  "time_Now x = ext_ask (x_now x)"

definition ids_New :: "'w ext \<Rightarrow> (('w, 'z) sys_scheme, string result) state" where
  "ids_New x = do {
     now \<leftarrow> time_Now x;
     r \<leftarrow> ext_ask (x_ulid x now);
     (case r of Inl e \<Rightarrow> fail (Error EkPanic (error_text e)) | Inr i \<Rightarrow> ok i)
   }"

definition NewJobID :: "'w ext \<Rightarrow> (('w, 'z) sys_scheme, string result) state" where
  "NewJobID x = ids_New x"

definition NewAttemptID :: "'w ext \<Rightarrow> (('w, 'z) sys_scheme, string result) state" where
  "NewAttemptID x = ids_New x"

definition NewExecutionID :: "'w ext \<Rightarrow> (('w, 'z) sys_scheme, string result) state" where
  "NewExecutionID x = ids_New x"

text \<open>\<open>rand.Intn(n)\<close> for a positive \<open>n\<close>: some number below \<open>n\<close>.\<close>

definition rand_Intn :: "'w ext \<Rightarrow> nat \<Rightarrow> (('w, 'z) sys_scheme, nat) state" where
  "rand_Intn x n = do { k \<leftarrow> ext_ask (x_rand x); ret (k mod n) }"

lemma grow_ids [intro]:
  "state_io_rel (grows P) (time_Now x)" "state_io_rel (grows P) (ids_New x)"
  "state_io_rel (grows P) (NewJobID x)" "state_io_rel (grows P) (NewAttemptID x)"
  "state_io_rel (grows P) (NewExecutionID x)" "state_io_rel (grows P) (rand_Intn x n)"
  by (auto simp: time_Now_def ids_New_def NewJobID_def NewAttemptID_def NewExecutionID_def rand_Intn_def
      intro!: grow_intros split: sum.splits)

end
