(* ===== verification/Samples.thy ===== *)
theory Samples
  imports World
begin

section \<open>Sample outsides for the witnesses\<close>

text \<open>
  Concrete instances of the outside, on which the witnesses of the properties evaluate. In
  \<open>calm_ext\<close> every call succeeds and every read returns a given value; other samples are updates
  of it. Nothing in the model refers to these definitions.
\<close>

definition sample_ns :: Namespace where
  "sample_ns = zero_Namespace\<lparr>ns_ID := ''n1'', ns_Name := ''wardu'', ns_DNS := ''wardu'', ns_MaxWorkers := 10\<rparr>"

definition sample_worker :: Worker where
  "sample_worker = zero_Worker\<lparr>w_ID := ''w1'', w_Image := ''app'', w_NamespaceID := ''n1'',
     w_Namespace := sample_ns, w_K8sDeploymentName := ''worker-wardu-app'', w_MaxReplicas := 10\<rparr>"

definition sample_job :: Job where
  "sample_job = zero_Job\<lparr>job_ID := ''j1'', job_WorkerID := ''w1'', job_Worker := sample_worker,
     job_Namespace := ''wardu'', job_Autorun := True, job_Entrypoint := [''run'']\<rparr>"

definition sample_pod :: Pod where
  "sample_pod = \<lparr>pod_Name = ''p1'', pod_IP = ''10.0.0.1'', pod_Phase = ''Running'', pod_Conditions = [(''Ready'', ''True'')]\<rparr>"

definition calm_ext :: "unit ext" where
  "calm_ext =
     \<lparr>x_now = (\<lambda>w. (0, w)), x_ulid = (\<lambda>t w. (Inr ''id1'', w)), x_uuid = (\<lambda>w. (''u1'', w)), x_rand = (\<lambda>w. (0, w)),
      x_ns_create = (\<lambda>_ w. (Inr (), w)), x_ns_delete = (\<lambda>_ w. (Inr (), w)),
      x_ns_find = (\<lambda>w. (Inr [sample_ns], w)), x_ns_first = (\<lambda>_ w. (Inr sample_ns, w)),
      x_ns_updates = (\<lambda>_ n w. (Inr n, w)),
      x_worker_first = (\<lambda>_ w. (Inr sample_worker, w)), x_worker_create = (\<lambda>_ w. (Inr (), w)),
      x_worker_updates = (\<lambda>_ _ w. (Inr (), w)),
      x_job_create = (\<lambda>_ w. (Inr (), w)), x_job_first = (\<lambda>_ _ w. (Inr sample_job, w)),
      x_attempt_create = (\<lambda>_ w. (Inr (), w)), x_attempt_updates = (\<lambda>_ a w. (Inr a, w)),
      x_k8s_ns_get = (\<lambda>_ w. (Inr (), w)), x_k8s_ns_create = (\<lambda>_ w. (Inr (), w)),
      x_k8s_quota_create = (\<lambda>_ _ w. (Inr (), w)), x_k8s_limits_create = (\<lambda>_ _ w. (Inr (), w)),
      x_k8s_dep_get = (\<lambda>_ _ w. (Inr (), w)), x_k8s_dep_create = (\<lambda>_ _ w. (Inr (), w)),
      x_k8s_scale_get = (\<lambda>_ _ w. (Inr \<lparr>sc_SpecReplicas = 1, sc_StatusReplicas = 1\<rparr>, w)),
      x_k8s_scale_update = (\<lambda>_ _ _ w. (Inr (), w)),
      x_k8s_dep_watch = (\<lambda>_ _ w. (Inr ([WatchDeployment 1], Error EkDeadlineExceeded ''deadline''), w)),
      x_k8s_pods = (\<lambda>_ _ w. (Inr [sample_pod], w)),
      x_amqp = (\<lambda>_ w. (Inr (), w)), x_publish = (\<lambda>_ w. (Inr (), w)),
      x_grpc_dial = (\<lambda>_ w. (Inr (), w)), x_grpc_close = (\<lambda>_ w. (Inr (), w)),
      x_runtime_run = (\<lambda>_ _ w. (Inr ''e1'', w)),
      x_start = (\<lambda>_ w. (Inr 42, w)), x_signal = (\<lambda>_ _ w. (Inr (), w)),
      x_hb_open = (\<lambda>w. (Inr (), w)), x_hb_send = (\<lambda>_ w. (Inr (), w)),
      x_boot = (\<lambda>_ w. (Inr (), w))\<rparr>"

definition calm_sys :: "unit sys" where
  "calm_sys = \<lparr>world = (), trace = []\<rparr>"

lemmas sample_defs = sample_ns_def sample_worker_def sample_job_def sample_pod_def
  zero_Namespace_def zero_Worker_def zero_Job_def

lemmas calm_defs = calm_ext_def calm_sys_def

end
