(* ===== verification/K8sNames.thy ===== *)
theory K8sNames
  imports GoStd
begin

section \<open>Kubernetes names (shared/k8s: generateDNSName, generateDeploymentName)\<close>

text \<open>
  Names of namespaces and deployments are computed from user text. The definitions follow the
  code step by step; what both results promise is a locale, and the DNS name's stronger
  promise a locale that extends it.
\<close>

subsection \<open>The functions\<close>

definition dns_char :: "char \<Rightarrow> bool" where
  "dns_char c = (let n = (of_char c :: nat) in (97 \<le> n \<and> n \<le> 122) \<or> (48 \<le> n \<and> n \<le> 57) \<or> n = 45)"

text \<open>\<open>for strings.Contains(name, "--") { name = strings.ReplaceAll(name, "--", "-") }\<close>\<close>

function squeeze :: "string \<Rightarrow> string" where
  "squeeze name = (if contains name ''--'' then squeeze (replace_all ''--'' ''-'' name) else name)"
  by pat_completeness auto
termination
  by (relation "measure length") (auto intro: replace_all_shorter)

declare squeeze.simps [simp del]

definition generateDNSName :: "(string \<Rightarrow> string) \<Rightarrow> string \<Rightarrow> string" where
  "generateDNSName uni name0 =
     (let name1 = strings_ToLower uni name0;
          name2 = replace_runs (\<lambda>c. \<not> dns_char c) ''-'' name1;
          name3 = strings_Trim name2 (CHR ''-'');
          name4 = squeeze name3
      in if 63 < length name4 then take 63 name4 else name4)"

definition sanitizeImageName :: "(string \<Rightarrow> string) \<Rightarrow> string \<Rightarrow> string" where
  "sanitizeImageName uni img0 =
     (let img1 = strings_ToLower uni img0;
          img2 = replace_all ''/'' ''-'' img1;
          img3 = replace_all '':'' ''-'' img2;
          img4 = replace_all ''_'' ''-'' img3
      in img4)"

definition generateDeploymentName :: "(string \<Rightarrow> string) \<Rightarrow> string \<Rightarrow> string \<Rightarrow> string" where
  "generateDeploymentName uni img namespace =
     (let imageName = sanitizeImageName uni img;
          name = ''worker-'' @ namespace @ ''-'' @ imageName;
          name' = (if 63 < length name then take 63 name else name)
      in strings_Trim name' (CHR ''-''))"

subsection \<open>Facts about the steps\<close>

lemma contains_sublist: "contains s sub = sublist sub s"
proof (induction s)
  case Nil
  then show ?case by simp
next
  case (Cons c cs)
  have "take (length sub) (c # cs) = sub \<longleftrightarrow> prefix sub (c # cs)"
    by (metis append_eq_conv_conj append_take_drop_id prefix_def)
  with Cons show ?case by (simp add: sublist_Cons_right)
qed

lemma squeeze_single: "\<not> contains (squeeze s) ''--''"
proof (induction s rule: squeeze.induct)
  case (1 s)
  then show ?case by (subst squeeze.simps) (cases "contains s ''--''"; simp add: squeeze.simps [of s])
qed

lemma squeeze_id: "\<not> contains s ''--'' \<Longrightarrow> squeeze s = s"
  by (subst squeeze.simps) simp

lemma squeeze_invariant:
  assumes "\<And>s. P s \<Longrightarrow> contains s ''--'' \<Longrightarrow> P (replace_all ''--'' ''-'' s)" and "P s"
  shows "P (squeeze s)"
  using assms(2)
proof (induction s rule: squeeze.induct)
  case (1 s)
  show ?case
  proof (cases "contains s ''--''")
    case True
    with 1 assms(1) show ?thesis by (subst squeeze.simps) simp
  next
    case False
    with 1(2) show ?thesis by (simp add: squeeze_id)
  qed
qed

lemma hyphens_pair: "replace_all ''--'' ''-'' (CHR ''-'' # CHR ''-'' # cs) = CHR ''-'' # replace_all ''--'' ''-'' cs"
  using replace_all_match [of "''--''" "CHR ''-'' # CHR ''-'' # cs" "''-''"] by simp

lemma hyphens_other:
  "\<not> (c = CHR ''-'' \<and> d = CHR ''-'') \<Longrightarrow>
   replace_all ''--'' ''-'' (c # d # cs) = c # replace_all ''--'' ''-'' (d # cs)"
  using replace_all_skip [of "''--''" c "d # cs" "''-''"] by simp

lemma hyphens_one: "replace_all ''--'' ''-'' [c] = [c]"
  using replace_all_skip [of "''--''" c "[]" "''-''"] by simp

lemmas hyphens_simps = hyphens_pair hyphens_other hyphens_one

lemma hyphens_hd: "s \<noteq> [] \<Longrightarrow> replace_all ''--'' ''-'' s \<noteq> [] \<and> hd (replace_all ''--'' ''-'' s) = hd s"
proof (cases s rule: remdups_adj.cases)
  case (3 c d cs)
  then show ?thesis by (cases "c = CHR ''-'' \<and> d = CHR ''-''") (auto simp: hyphens_pair hyphens_other)
qed (simp_all add: hyphens_one)

lemma hyphens_last:
  "s \<noteq> [] \<Longrightarrow> last s \<noteq> CHR ''-'' \<Longrightarrow> last (replace_all ''--'' ''-'' s) = last s"
proof (induction s rule: induct_list012)
  case (3 c d cs)
  show ?case
  proof (cases "c = CHR ''-'' \<and> d = CHR ''-''")
    case True
    with 3 have "cs \<noteq> []" by auto
    with 3 True hyphens_hd [of cs] show ?thesis by (simp add: hyphens_pair)
  next
    case False
    with 3 hyphens_hd [of "d # cs"] show ?thesis by (simp add: hyphens_other)
  qed
qed (simp_all add: hyphens_one)

definition no_end_hyphen :: "string \<Rightarrow> bool" where
  "no_end_hyphen s = (s \<noteq> [] \<longrightarrow> hd s \<noteq> CHR ''-'' \<and> last s \<noteq> CHR ''-'')"

text \<open>After the loop a trimmed name still has no hyphen at its ends.\<close>

lemma squeeze_ends: "no_end_hyphen s \<Longrightarrow> no_end_hyphen (squeeze s)"
proof (rule squeeze_invariant [where P = no_end_hyphen])
  fix t assume "no_end_hyphen t" "contains t ''--''"
  then show "no_end_hyphen (replace_all ''--'' ''-'' t)"
    by (cases "t = []") (simp_all add: no_end_hyphen_def hyphens_hd hyphens_last)
qed

lemma squeeze_set: "set s \<subseteq> {c. dns_char c} \<Longrightarrow> set (squeeze s) \<subseteq> {c. dns_char c}"
proof (rule squeeze_invariant [where P = "\<lambda>s. set s \<subseteq> {c. dns_char c}"])
  fix t :: string assume t: "set t \<subseteq> {c. dns_char c}"
  have "dns_char (CHR ''-'')" by (simp add: dns_char_def)
  with t replace_all_set [of "''--''" "''-''" t] show "set (replace_all ''--'' ''-'' t) \<subseteq> {c. dns_char c}"
    by auto
qed

lemma ascii_lower_dns: "dns_char c \<Longrightarrow> ascii_lower c = c"
  by (auto simp: dns_char_def ascii_lower_def Let_def)

lemma dns_char_ascii: "dns_char c \<Longrightarrow> is_ascii c"
  by (auto simp: dns_char_def is_ascii_def Let_def)

lemma ascii_lower_idem: "ascii_lower (ascii_lower c) = ascii_lower c"
  by (auto simp: ascii_lower_def)

lemma ascii_lower_ascii: "is_ascii c \<Longrightarrow> is_ascii (ascii_lower c)"
  by (auto simp: ascii_lower_def is_ascii_def)

lemma ToLower_dns: "set s \<subseteq> {c. dns_char c} \<Longrightarrow> strings_ToLower uni s = s"
  by (auto simp: strings_ToLower_def list_all_iff dns_char_ascii ascii_lower_dns subset_iff intro!: map_idI)

lemma ToLower_map_lower:
  "list_all is_ascii s \<Longrightarrow> strings_ToLower uni (map ascii_lower s) = strings_ToLower uni s"
  by (auto simp: strings_ToLower_def list_all_iff ascii_lower_ascii ascii_lower_idem)


subsection \<open>What the two kinds of names promise\<close>

text \<open>
  \<open>label_source\<close> is what Kubernetes needs of either name: it fits in 63 bytes and does not
  begin with a hyphen. \<open>dns_source\<close> adds the alphabet and the absence of double hyphens.
\<close>

locale label_source =
  fixes make :: "'i \<Rightarrow> string"
  assumes short: "length (make i) \<le> 63"
    and no_lead: "take 1 (make i) \<noteq> ''-''"
begin

lemma hd_not_hyphen: "make i \<noteq> [] \<Longrightarrow> hd (make i) \<noteq> CHR ''-''"
  using no_lead [of i] by (cases "make i") auto

lemma take_make: "63 \<le> n \<Longrightarrow> take n (make i) = make i"
  using short [of i] by simp

end

locale dns_source = label_source +
  assumes alphabet: "set (make i) \<subseteq> {c. dns_char c}"
    and single: "\<not> contains (make i) ''--''"
begin

lemma ToLower_make: "strings_ToLower uni (make i) = make i"
  using alphabet by (rule ToLower_dns)

lemma ascii_make: "list_all is_ascii (make i)"
  using alphabet [of i] by (auto simp: list_all_iff dns_char_ascii)

lemma runs_make: "replace_runs (\<lambda>c. \<not> dns_char c) r (make i) = make i"
  using alphabet [of i] by (intro replace_runs_id) (auto simp: list_all_iff)

end

text \<open>The name before it is cut.\<close>

definition dns_body :: "(string \<Rightarrow> string) \<Rightarrow> string \<Rightarrow> string" where
  "dns_body uni name = squeeze (strings_Trim (replace_runs (\<lambda>c. \<not> dns_char c) ''-'' (strings_ToLower uni name)) (CHR ''-''))"

lemma generateDNSName_body: "generateDNSName uni name = take 63 (dns_body uni name)"
  by (simp add: generateDNSName_def dns_body_def Let_def)

lemma dns_body_alphabet: "set (dns_body uni name) \<subseteq> {c. dns_char c}"
proof -
  let ?r = "replace_runs (\<lambda>c. \<not> dns_char c) ''-'' (strings_ToLower uni name)"
  have "set ?r \<subseteq> {c. dns_char c}"
    using replace_runs_set [of "\<lambda>c. \<not> dns_char c" "''-''" "strings_ToLower uni name"]
    by (auto simp: dns_char_def)
  then show ?thesis unfolding dns_body_def using Trim_set by (intro squeeze_set) (rule order_trans)
qed

lemma dns_body_single: "\<not> contains (dns_body uni name) ''--''"
  unfolding dns_body_def by (rule squeeze_single)

lemma dns_body_ends: "no_end_hyphen (dns_body uni name)"
  unfolding dns_body_def by (rule squeeze_ends) (simp add: no_end_hyphen_def Trim_head Trim_last)

lemma sublist_take: "sublist sub (take n s) \<Longrightarrow> sublist sub s"
  using sublist_order.order_trans sublist_take by blast

interpretation dns: dns_source "generateDNSName uni" for uni
proof
  fix i
  show "length (generateDNSName uni i) \<le> 63" by (simp add: generateDNSName_body)
  show "take 1 (generateDNSName uni i) \<noteq> ''-''"
    using dns_body_ends [of uni i]
    by (cases "dns_body uni i") (auto simp: generateDNSName_body no_end_hyphen_def)
  show "set (generateDNSName uni i) \<subseteq> {c. dns_char c}"
    using dns_body_alphabet [of uni i] by (auto simp: generateDNSName_body dest: in_set_takeD)
  show "\<not> contains (generateDNSName uni i) ''--''"
    using dns_body_single [of uni i] by (auto simp: generateDNSName_body contains_sublist dest: sublist_take)
qed

lemma deployment_name_eq:
  "generateDeploymentName uni img ns =
   strings_Trim (take 63 (''worker-'' @ ns @ ''-'' @ sanitizeImageName uni img)) (CHR ''-'')"
  by (simp add: generateDeploymentName_def Let_def)

lemma deployment_name_head: "\<exists>t. generateDeploymentName uni img ns = CHR ''w'' # t"
proof -
  let ?f = "take 63 (''worker-'' @ ns @ ''-'' @ sanitizeImageName uni img)"
  obtain t where t: "dropWhile (\<lambda>x. x = CHR ''-'') ?f = CHR ''w'' # t" by simp
  let ?r = "rev (dropWhile (\<lambda>x. x = CHR ''-'') (rev (CHR ''w'' # t)))"
  have "prefix ?r (CHR ''w'' # t)"
    by (metis rev_rev_ident suffix_dropWhile suffix_to_prefix)
  moreover have "?r \<noteq> []" by simp
  ultimately have "\<exists>u. ?r = CHR ''w'' # u" by (cases ?r) auto
  then show ?thesis unfolding deployment_name_eq strings_Trim_def t .
qed

interpretation dep: label_source "\<lambda>(img, ns). generateDeploymentName uni img ns" for uni
proof
  fix i :: "string \<times> string"
  obtain img ns where i: "i = (img, ns)" by fastforce
  show "length (case i of (img, ns) \<Rightarrow> generateDeploymentName uni img ns) \<le> 63"
    unfolding i prod.case deployment_name_eq by (rule order_trans [OF Trim_length]) simp
  show "take 1 (case i of (img, ns) \<Rightarrow> generateDeploymentName uni img ns) \<noteq> ''-''"
    using deployment_name_head [of uni img ns] by (auto simp: i)
qed


subsection \<open>Properties\<close>


definition dns_label :: "string \<Rightarrow> bool" where
  "dns_label s = (s \<noteq> [] \<and> set s \<subseteq> {c. dns_char c} \<and> length s \<le> 63 \<and> hd s \<noteq> CHR ''-'' \<and> last s \<noteq> CHR ''-'')"

lemma dns_body_id:
  assumes "set s \<subseteq> {c. dns_char c}" "\<not> contains s ''--''" "no_end_hyphen s"
  shows "dns_body uni s = s"
proof -
  have "replace_runs (\<lambda>c. \<not> dns_char c) ''-'' s = s"
    using assms(1) by (intro replace_runs_id) (auto simp: list_all_iff)
  moreover have "strings_Trim s (CHR ''-'') = s"
    using assms(3) by (intro Trim_id) (auto simp: no_end_hyphen_def)
  ultimately show ?thesis
    using assms by (simp add: dns_body_def ToLower_dns squeeze_id)
qed

text \<open>
  A name that already is a DNS label without double hyphens is its own DNS name, so stored
  DNS names go through the function unchanged.
\<close>

theorem dns_name_fixed:
  assumes "dns_label name" and "\<not> contains name ''--''"
  shows "generateDNSName uni name = name"
  using assms dns_body_id [of name uni]
  by (simp add: generateDNSName_body dns_label_def no_end_hyphen_def)

theorem dns_name_fixed_witness:
  "dns_label ''team-7'' \<and> generateDNSName id ''team-7'' = ''team-7''"
proof -
  have "dns_label ''team-7''" "\<not> contains ''team-7'' ''--''"
    by (simp_all add: dns_label_def dns_char_def)
  then show ?thesis using dns_name_fixed by blast
qed

text \<open>
  Cutting to 63 bytes comes last, after the hyphens were trimmed: a longer name whose 63rd
  byte is a hyphen gives a DNS name that ends with one, which Kubernetes refuses.
\<close>

theorem dns_name_cut_hyphen:
  assumes "set name \<subseteq> {c. dns_char c}" and "\<not> contains name ''--''" and "no_end_hyphen name"
    and "63 < length name" and "name ! 62 = CHR ''-''"
  shows "last (generateDNSName uni name) = CHR ''-'' \<and> \<not> dns_label (generateDNSName uni name)"
proof -
  have e: "generateDNSName uni name = take 63 name"
    using assms dns_body_id by (simp add: generateDNSName_body)
  have "last (take 63 name) = name ! 62" using assms(4) by (subst last_conv_nth) auto
  with e assms(5) show ?thesis by (simp add: dns_label_def)
qed

theorem dns_name_cut_hyphen_witness:
  "last (generateDNSName id (replicate 62 (CHR ''a'') @ ''-b'')) = CHR ''-''"
proof -
  let ?n = "replicate 62 (CHR ''a'') @ ''-b''"
  have "set ?n \<subseteq> {c. dns_char c}" by (simp add: dns_char_def)
  moreover have "\<not> contains ?n ''--''" by (simp add: numeral_eq_Suc)
  moreover have "no_end_hyphen ?n" by (simp add: no_end_hyphen_def hd_append)
  moreover have "63 < length ?n" by simp
  moreover have "?n ! 62 = CHR ''-''" by (simp add: nth_append)
  ultimately show ?thesis using dns_name_cut_hyphen [of ?n id] by blast
qed

text \<open>
  The DNS name does not depend on the case of an ASCII name, so two namespaces whose names
  differ only in case map to one Kubernetes namespace.
\<close>

theorem dns_name_case_insensitive:
  assumes "list_all is_ascii name"
  shows "generateDNSName uni (map ascii_lower name) = generateDNSName uni name"
  using assms by (simp add: generateDNSName_body dns_body_def ToLower_map_lower)

theorem dns_name_case_insensitive_witness:
  "generateDNSName id ''team a'' = generateDNSName id ''Team A''"
proof -
  have "list_all is_ascii ''Team A''" by (simp add: is_ascii_def)
  moreover have "map ascii_lower ''Team A'' = ''team a''" by code_simp
  ultimately show ?thesis using dns_name_case_insensitive [of "''Team A''" id] by simp
qed

text \<open>
  A deployment name begins with the letter w, has at most 63 bytes and does not end with a
  hyphen, for every image and namespace.
\<close>

theorem deployment_name_wellformed:
  "take 1 (generateDeploymentName uni img ns) = ''w''
   \<and> length (generateDeploymentName uni img ns) \<le> 63
   \<and> last (generateDeploymentName uni img ns) \<noteq> CHR ''-''"
proof -
  obtain t where t: "generateDeploymentName uni img ns = CHR ''w'' # t"
    using deployment_name_head by blast
  have "last (generateDeploymentName uni img ns) \<noteq> CHR ''-''"
    using t Trim_last unfolding deployment_name_eq by (metis list.distinct(1))
  with t dep.short [of uni "(img, ns)"] show ?thesis by simp
qed

text \<open>
  Only the first 55 bytes less the namespace's of the sanitised image reach the deployment
  name: two images that agree there (two tags of a long reference) get the same deployment.
\<close>

theorem deployment_name_collision:
  assumes "take (55 - length ns) (sanitizeImageName uni a) = take (55 - length ns) (sanitizeImageName uni b)"
  shows "generateDeploymentName uni a ns = generateDeploymentName uni b ns"
proof -
  let ?p = "''worker-'' @ ns @ ''-''"
  have "take 63 (''worker-'' @ ns @ ''-'' @ i) = take 63 ?p @ take (55 - length ns) i" for i
    using take_append [of 63 ?p i] by (simp add: diff_diff_eq2)
  with assms show ?thesis by (simp only: deployment_name_eq)
qed

theorem deployment_name_collision_witness:
  "generateDeploymentName id (''ghcr.io/acme/platform/data-pipeline-transformer-worker:v1'') ''wardu''
   = generateDeploymentName id (''ghcr.io/acme/platform/data-pipeline-transformer-worker:v2'') ''wardu''"
  by (rule deployment_name_collision)
    (simp add: sanitizeImageName_def Let_def strings_ToLower_def is_ascii_def ascii_lower_def replace_all_single)

end
