(* ===== verification/K8sClient.thy ===== *)
theory K8sClient
  imports Samples K8sNames
begin

section \<open>The Kubernetes client (shared/k8s: namespace.go, worker.go, pod.go)\<close>

text \<open>
  Operations of \<open>k8s.Client\<close> over the outside world. \<open>platform\<close> is what the code reads of its
  process and platform: the environment, Unicode lower-casing and the float conversion.
\<close>

record platform =
  pl_env :: environ
  pl_lower :: "string \<Rightarrow> string"
  pl_oor :: "float32 \<Rightarrow> int64"

text \<open>For the witnesses.\<close>

definition sample_platform :: platform where
  "sample_platform = \<lparr>pl_env = Map.empty, pl_lower = id, pl_oor = (\<lambda>_. 0)\<rparr>"

definition managed_by :: labels where
  "managed_by = [(''managed-by'', ''wardu'')]"

subsection \<open>Namespaces\<close>

definition buildDefaultNamespace :: "(string \<Rightarrow> string) \<Rightarrow> string \<Rightarrow> Namespace" where
  "buildDefaultNamespace lower name =
     \<lparr>ns_ID = [], ns_Name = name, ns_DNS = generateDNSName lower name,
      ns_MaxWorkers = 10, ns_MaxConcurrentJobs = 50, ns_MaxPods = 20,
      ns_CPURequestMilli = 100, ns_CPULimitMilli = 500,
      ns_MemoryRequestMB = 256, ns_MemoryLimitMB = 512\<rparr>"

text \<open>The limits of \<open>ops\<close> that are positive replace the defaults.\<close>

definition merge_limits :: "Namespace \<Rightarrow> Namespace option \<Rightarrow> Namespace" where
  "merge_limits ns0 ops0 =
     (case ops0 of None \<Rightarrow> ns0 | Some ops \<Rightarrow>
       (let pick = (\<lambda>f g. if positive (f ops) then f ops else g) in
        ns0\<lparr>ns_MaxWorkers := pick ns_MaxWorkers (ns_MaxWorkers ns0),
            ns_MaxConcurrentJobs := pick ns_MaxConcurrentJobs (ns_MaxConcurrentJobs ns0),
            ns_MaxPods := pick ns_MaxPods (ns_MaxPods ns0),
            ns_CPURequestMilli := pick ns_CPURequestMilli (ns_CPURequestMilli ns0),
            ns_CPULimitMilli := pick ns_CPULimitMilli (ns_CPULimitMilli ns0),
            ns_MemoryRequestMB := pick ns_MemoryRequestMB (ns_MemoryRequestMB ns0),
            ns_MemoryLimitMB := pick ns_MemoryLimitMB (ns_MemoryLimitMB ns0)\<rparr>))"

definition milli :: "go_int \<Rightarrow> string" where
  "milli n = itoa n @ ''m''"

definition mebi :: "go_int \<Rightarrow> string" where
  "mebi n = itoa n @ ''Mi''"

definition k8s_namespace_of :: "string \<Rightarrow> k8s_Namespace" where
  "k8s_namespace_of name = \<lparr>kns_Name = name, kns_Labels = managed_by\<rparr>"

definition createNamespace :: "'w ext \<Rightarrow> string \<Rightarrow> (('w, 'z) sys_scheme, unit result) state" where
  "createNamespace x name = ext_call (x_k8s_ns_create x (k8s_namespace_of name)) (EvK8sNsCreate (k8s_namespace_of name))"

definition resource_quota_of :: "Namespace \<Rightarrow> ResourceQuota" where
  "resource_quota_of ns =
     \<lparr>rq_Name = ns_DNS ns @ ''-qouta'', rq_Namespace = ns_DNS ns, rq_Labels = managed_by,
      rq_Hard = [(''pods'', itoa (ns_MaxPods ns)),
                 (''requests.cpu'', milli (ns_CPURequestMilli ns)),
                 (''limits.cpu'', milli (ns_CPULimitMilli ns)),
                 (''requests.memory'', mebi (ns_MemoryRequestMB ns)),
                 (''limits.memory'', mebi (ns_MemoryLimitMB ns))]\<rparr>"

definition createResourceQuota :: "'w ext \<Rightarrow> Namespace \<Rightarrow> (('w, 'z) sys_scheme, unit result) state" where
  "createResourceQuota x ns =
     ext_call (x_k8s_quota_create x (ns_DNS ns) (resource_quota_of ns)) (EvK8sQuotaCreate (ns_DNS ns) (resource_quota_of ns))"

definition limit_range_of :: "Namespace \<Rightarrow> LimitRange" where
  "limit_range_of ns =
     \<lparr>lr_Name = ns_DNS ns @ ''-limits'', lr_Namespace = ns_DNS ns, lr_Labels = managed_by,
      lr_DefaultRequest = [(''cpu'', milli (ns_CPURequestMilli ns)), (''memory'', mebi (ns_MemoryRequestMB ns))],
      lr_Default = [(''cpu'', milli (ns_CPULimitMilli ns)), (''memory'', mebi (ns_MemoryLimitMB ns))]\<rparr>"

definition createLimitRange :: "'w ext \<Rightarrow> Namespace \<Rightarrow> (('w, 'z) sys_scheme, unit result) state" where
  "createLimitRange x ns =
     ext_call (x_k8s_limits_create x (ns_DNS ns) (limit_range_of ns)) (EvK8sLimitsCreate (ns_DNS ns) (limit_range_of ns))"

text \<open>\<open>if err := m; err != nil && !apierrors.IsAlreadyExists(err) { return nil, err }\<close>\<close>

definition unless_exists ::
  "('s, 'a result) state \<Rightarrow> ('s, 'b result) state \<Rightarrow> ('s, 'b result) state" where
  "unless_exists m k = catch m (\<lambda>e. if is_already_exists e then k else fail e) (\<lambda>_. k)"

definition CreateNamespace ::
  "'w ext \<Rightarrow> platform \<Rightarrow> string \<Rightarrow> Namespace option \<Rightarrow> (('w, 'z) sys_scheme, Namespace result) state" where
  "CreateNamespace x p name ops =
     (let ns = merge_limits (buildDefaultNamespace (pl_lower p) name) ops in
      unless_exists (createNamespace x (ns_DNS ns))
     (unless_exists (createResourceQuota x ns)
     (unless_exists (createLimitRange x ns)
     (ok ns))))"

text \<open>A \<open>Get\<close> whose not-found answer means \<open>false\<close>.\<close>

definition found :: "('s, unit result) state \<Rightarrow> ('s, bool result) state" where
  "found m = catch m (\<lambda>err. if is_not_found err then ok False else fail err) (\<lambda>_. ok True)"

definition CheckNamespaceByDNS :: "'w ext \<Rightarrow> string \<Rightarrow> (('w, 'z) sys_scheme, bool result) state" where
  "CheckNamespaceByDNS x dns = found (ext_call (x_k8s_ns_get x dns) (EvK8sNsGet dns))"

subsection \<open>Workers\<close>

definition deployment_of :: "platform \<Rightarrow> Namespace \<Rightarrow> string \<Rightarrow> Deployment" where
  "deployment_of p ns img =
     (let deploymentName = generateDeploymentName (pl_lower p) img (ns_DNS ns) in
      \<lparr>dp_Name = deploymentName, dp_Namespace = ns_DNS ns, dp_Labels = managed_by,
       dp_Replicas = 0,
       dp_Selector = managed_by @ [(''worker'', deploymentName)],
       dp_TemplateLabels = managed_by @ [(''worker'', deploymentName)],
       dp_Containers =
         [\<lparr>ct_Name = ''runtime'', ct_Image = ''wardu/runtime:v1'',
           ct_Ports = [to_int32 (GetInt (pl_env p) ''RUNTIME_GRPC_PORT'' 8083)]\<rparr>,
          \<lparr>ct_Name = ''worker'', ct_Image = img, ct_Ports = []\<rparr>]\<rparr>)"

definition CreateWorker ::
  "'w ext \<Rightarrow> platform \<Rightarrow> Namespace \<Rightarrow> Job \<Rightarrow> string \<Rightarrow> (('w, 'z) sys_scheme, Worker result) state" where
  "CreateWorker x p ns job img =
     (let deployment = deployment_of p ns img in
      must (ext_call (x_k8s_dep_create x (ns_DNS ns) deployment) (EvK8sDepCreate (ns_DNS ns) deployment)) (\<lambda>_. do {
        i \<leftarrow> ext_ask (x_uuid x);
        ok (zero_Worker
          \<lparr>w_ID := i,
           w_Image := img,
           w_NamespaceID := ns_ID ns,
           w_K8sDeploymentName := dp_Name deployment,
           w_IdleTimeoutSeconds := f32_to_int64 (pl_oor p) (job_IdleTimeoutSeconds job),
           w_MaxReplicas := ns_MaxWorkers ns\<rparr>)
      }))"

definition CheckWorker :: "'w ext \<Rightarrow> string \<Rightarrow> string \<Rightarrow> (('w, 'z) sys_scheme, bool result) state" where
  "CheckWorker x namespace k8sDeploymentName =
     found (ext_call (x_k8s_dep_get x namespace k8sDeploymentName) (EvK8sDepGet namespace k8sDeploymentName))"

definition getWorker :: "'w ext \<Rightarrow> string \<Rightarrow> string \<Rightarrow> (('w, 'z) sys_scheme, Scale result) state" where
  "getWorker x namespace name =
     ext_call (x_k8s_scale_get x namespace name) (EvK8sScaleGet namespace name)"

definition recoverWorker :: "'w ext \<Rightarrow> platform \<Rightarrow> Job \<Rightarrow> (('w, 'z) sys_scheme, unit result) state" where
  "recoverWorker x p job =
     (let ns = w_Namespace (job_Worker job) in
      unless_exists (CreateNamespace x p (ns_Name ns) (Some ns))
     (unless_exists (CreateWorker x p ns job (w_Image (job_Worker job)))
     (ok ())))"

text \<open>
  The loop of \<open>WaitWorkerReady\<close> over what its \<open>select\<close> receives; when the items run out the
  context of one minute ends the wait with its error.
\<close>

fun wait_items :: "watch_item list \<Rightarrow> error \<Rightarrow> unit result" where
  "wait_items [] ctx_err = Inl ctx_err"
| "wait_items (WatchClosed # items) ctx_err = Inl (Error EkOther ''deployment watch closed'')"
| "wait_items (WatchOther # items) ctx_err = wait_items items ctx_err"
| "wait_items (WatchDeployment ready # items) ctx_err =
     (if positive ready then Inr () else wait_items items ctx_err)"

definition WaitWorkerReady :: "'w ext \<Rightarrow> Job \<Rightarrow> (('w, 'z) sys_scheme, unit result) state" where
  "WaitWorkerReady x job =
     (let dns = ns_DNS (w_Namespace (job_Worker job)); name = w_K8sDeploymentName (job_Worker job) in
      must (getWorker x dns name) (\<lambda>deployment.
      if positive (sc_StatusReplicas deployment) then ok ()
      else must (ext_call (x_k8s_dep_watch x dns name) (EvK8sDepWatch dns name)) (\<lambda>(items, ctx_err).
        ret (wait_items items ctx_err))))"

text \<open>The scale object, recovering a missing deployment first.\<close>

definition fetch_scale :: "'w ext \<Rightarrow> platform \<Rightarrow> Job \<Rightarrow> (('w, 'z) sys_scheme, Scale result) state" where
  "fetch_scale x p job =
     (let dns = ns_DNS (w_Namespace (job_Worker job)); name = w_K8sDeploymentName (job_Worker job) in
      catch (getWorker x dns name)
        (\<lambda>err. if is_not_found err
               then must (recoverWorker x p job) (\<lambda>_. getWorker x dns name)
               else fail err)
        ok)"

definition exceeds_error :: "int32 \<Rightarrow> go_int \<Rightarrow> error" where
  "exceeds_error replicas maxr = Error EkOther
     (''requested replicas '' @ int_text (sint replicas) @ '' exceeds max replicas '' @ itoa maxr)"

definition set_scale :: "'w ext \<Rightarrow> Job \<Rightarrow> int32 \<Rightarrow> bool \<Rightarrow> Scale \<Rightarrow> (('w, 'z) sys_scheme, unit result) state" where
  "set_scale x job replicas isWakeUpCall scaleObj =
     (let dns = ns_DNS (w_Namespace (job_Worker job)); name = w_K8sDeploymentName (job_Worker job);
          current = sc_SpecReplicas scaleObj; scaleObj' = scaleObj\<lparr>sc_SpecReplicas := replicas\<rparr> in
      if isWakeUpCall \<and> current \<noteq> 0 then ok ()
      else if current = replicas then ok ()
      else must (ext_call (x_k8s_scale_update x dns name scaleObj') (EvK8sScaleUpdate dns name scaleObj')) (\<lambda>_.
        if current = 0 \<and> positive replicas then WaitWorkerReady x job else ok ()))"

definition ScaleWorker ::
  "'w ext \<Rightarrow> platform \<Rightarrow> Job \<Rightarrow> int32 \<Rightarrow> bool \<Rightarrow> (('w, 'z) sys_scheme, unit result) state" where
  "ScaleWorker x p job replicas isWakeUpCall =
     (let maxReplicas = w_MaxReplicas (job_Worker job) in
      if sint (to_int32 maxReplicas) < sint replicas
      then fail (exceeds_error replicas maxReplicas)
      else must (fetch_scale x p job) (set_scale x job replicas isWakeUpCall))"

subsection \<open>Pods\<close>

definition pod_ready :: "Pod \<Rightarrow> bool" where
  "pod_ready pod = (pod_Phase pod = ''Running'' \<and> list_ex (\<lambda>c. c = (''Ready'', ''True'')) (pod_Conditions pod))"

definition SelectPod :: "'w ext \<Rightarrow> Job \<Rightarrow> (('w, 'z) sys_scheme, Pod result) state" where
  "SelectPod x job =
     (let dns = ns_DNS (w_Namespace (job_Worker job)); sel = ''worker='' @ w_K8sDeploymentName (job_Worker job) in
      must (ext_call (x_k8s_pods x dns sel) (EvK8sPods dns sel)) (\<lambda>items.
        let ready = filter pod_ready items in
        if ready = [] then fail (Error EkOther ''no ready worker pods'')
        else do { i \<leftarrow> rand_Intn x (length ready); ok (ready ! i) }))"


subsection \<open>Which calls the operations make\<close>

lemma wp_unless_exists [wp_simps]:
  "wp (unless_exists m k) Q s =
     wp m (\<lambda>r. case r of Inl e \<Rightarrow> (if is_already_exists e then wp k Q else Q (Inl e)) | Inr _ \<Rightarrow> wp k Q) s"
  by (simp add: unless_exists_def wp_def split: prod.splits sum.splits)

lemma run_unless_exists [simp]:
  "run_state (unless_exists m k) s =
     (case run_state m s of
        (Inl e, t) \<Rightarrow> if is_already_exists e then run_state k t else (Inl e, t)
      | (Inr _, t) \<Rightarrow> run_state k t)"
  by (simp add: unless_exists_def split: prod.splits sum.splits)

lemma run_found [simp]:
  "run_state (found m) s =
     (case run_state m s of
        (Inl e, t) \<Rightarrow> (if is_not_found e then Inr False else Inl e, t)
      | (Inr _, t) \<Rightarrow> (Inr True, t))"
  by (simp add: found_def split: prod.splits sum.splits)

text \<open>Calls that build Kubernetes objects, and calls that only read them.\<close>

definition is_k8s_create :: "event \<Rightarrow> bool" where
  "is_k8s_create ev = (case ev of
     EvK8sNsCreate _ _ \<Rightarrow> True | EvK8sQuotaCreate _ _ _ \<Rightarrow> True | EvK8sLimitsCreate _ _ _ \<Rightarrow> True
   | EvK8sDepCreate _ _ _ \<Rightarrow> True | _ \<Rightarrow> False)"

definition is_k8s_read :: "event \<Rightarrow> bool" where
  "is_k8s_read ev = (case ev of
     EvK8sNsGet _ _ \<Rightarrow> True | EvK8sDepGet _ _ _ \<Rightarrow> True | EvK8sScaleGet _ _ _ \<Rightarrow> True
   | EvK8sDepWatch _ _ _ \<Rightarrow> True | EvK8sPods _ _ _ \<Rightarrow> True | _ \<Rightarrow> False)"

definition is_scale_update :: "event \<Rightarrow> bool" where
  "is_scale_update ev = (case ev of EvK8sScaleUpdate _ _ _ _ \<Rightarrow> True | _ \<Rightarrow> False)"

definition is_k8s_event :: "event \<Rightarrow> bool" where
  "is_k8s_event ev = (is_k8s_create ev \<or> is_k8s_read ev \<or> is_scale_update ev)"

lemmas k8s_event_defs = is_k8s_create_def is_k8s_read_def is_scale_update_def is_k8s_event_def

lemma grow_unless_exists:
  "state_io_rel (grows P) m \<Longrightarrow> state_io_rel (grows P) k \<Longrightarrow> state_io_rel (grows P) (unless_exists m k)"
  unfolding unless_exists_def by (intro grow.keep_catch grow.keep_if grow.keep_ret)

lemma grow_found: "state_io_rel (grows P) m \<Longrightarrow> state_io_rel (grows P) (found m)"
  unfolding found_def by (intro grow.keep_catch grow.keep_if grow.keep_ret)

lemma grow_CreateNamespace: "state_io_rel (grows is_k8s_create) (CreateNamespace x p name ops)"
  by (auto simp: CreateNamespace_def Let_def createNamespace_def createResourceQuota_def createLimitRange_def
      is_k8s_create_def intro!: grow_unless_exists grow_intros)

lemma grow_CreateWorker: "state_io_rel (grows is_k8s_create) (CreateWorker x p ns job img)"
  by (auto simp: CreateWorker_def Let_def is_k8s_create_def intro!: grow_intros)

lemma grow_CheckNamespaceByDNS: "state_io_rel (grows is_k8s_read) (CheckNamespaceByDNS x dns)"
  by (auto simp: CheckNamespaceByDNS_def is_k8s_read_def intro!: grow_found grow_intros)

lemma grow_CheckWorker: "state_io_rel (grows is_k8s_read) (CheckWorker x ns name)"
  by (auto simp: CheckWorker_def is_k8s_read_def intro!: grow_found grow_intros)

lemma grow_recoverWorker: "state_io_rel (grows is_k8s_create) (recoverWorker x p job)"
  unfolding recoverWorker_def Let_def
  by (intro grow_unless_exists grow_CreateNamespace grow_CreateWorker grow.keep_ret)

lemma grow_WaitWorkerReady: "state_io_rel (grows is_k8s_read) (WaitWorkerReady x job)"
  by (auto simp: WaitWorkerReady_def Let_def getWorker_def is_k8s_read_def intro!: grow_intros split: prod.splits)

lemma grow_fetch_scale:
  "state_io_rel (grows (\<lambda>ev. is_k8s_create ev \<or> is_k8s_read ev)) (fetch_scale x p job)"
proof -
  have "state_io_rel (grows (\<lambda>ev. is_k8s_create ev \<or> is_k8s_read ev)) (recoverWorker x p job)"
    using grow_recoverWorker by (rule grow_mono) simp
  then show ?thesis
    by (auto simp: fetch_scale_def Let_def getWorker_def is_k8s_read_def intro!: grow_intros)
qed

lemma grow_SelectPod: "state_io_rel (grows is_k8s_read) (SelectPod x job)"
  by (auto simp: SelectPod_def Let_def is_k8s_read_def intro!: grow_intros grow_ids)


subsection \<open>Namespaces: properties\<close>

definition all_unset :: "Namespace option \<Rightarrow> bool" where
  "all_unset ops0 = (case ops0 of None \<Rightarrow> True | Some ops \<Rightarrow>
     \<not> positive (ns_MaxWorkers ops) \<and> \<not> positive (ns_MaxConcurrentJobs ops) \<and> \<not> positive (ns_MaxPods ops) \<and>
     \<not> positive (ns_CPURequestMilli ops) \<and> \<not> positive (ns_CPULimitMilli ops) \<and>
     \<not> positive (ns_MemoryRequestMB ops) \<and> \<not> positive (ns_MemoryLimitMB ops))"

interpretation ns_ov: overriding merge_limits all_unset
proof
  show "all_unset d \<Longrightarrow> merge_limits b d = b" for b d
    by (cases d) (simp_all add: all_unset_def merge_limits_def Let_def)
  show "merge_limits (merge_limits b d) d = merge_limits b d" for b d
    by (cases d) (simp_all add: merge_limits_def Let_def)
qed

definition limits_positive :: "Namespace \<Rightarrow> bool" where
  "limits_positive ns =
     (positive (ns_MaxWorkers ns) \<and> positive (ns_MaxConcurrentJobs ns) \<and> positive (ns_MaxPods ns) \<and>
      positive (ns_CPURequestMilli ns) \<and> positive (ns_CPULimitMilli ns) \<and>
      positive (ns_MemoryRequestMB ns) \<and> positive (ns_MemoryLimitMB ns))"

lemma merge_limits_keeps:
  "ns_Name (merge_limits b d) = ns_Name b" "ns_DNS (merge_limits b d) = ns_DNS b" "ns_ID (merge_limits b d) = ns_ID b"
  by (cases d; simp add: merge_limits_def Let_def)+

lemma default_names:
  "ns_Name (buildDefaultNamespace lower name) = name"
  "ns_DNS (buildDefaultNamespace lower name) = generateDNSName lower name"
  by (simp_all add: buildDefaultNamespace_def)

lemma merge_default_positive: "limits_positive (merge_limits (buildDefaultNamespace lower name) d)"
  by (cases d) (simp_all add: limits_positive_def merge_limits_def buildDefaultNamespace_def positive_def Let_def)

text \<open>The answers \<open>CreateNamespace\<close> goes on after.\<close>

definition tolerated :: "unit result \<Rightarrow> bool" where
  "tolerated r = (case r of Inl e \<Rightarrow> is_already_exists e | Inr _ \<Rightarrow> True)"

lemma tolerated_simps [simp]: "tolerated (Inl e) = is_already_exists e" "tolerated (Inr u)"
  by (simp_all add: tolerated_def)

text \<open>The three objects of a namespace, created in this order with tolerated answers.\<close>

definition namespace_events :: "Namespace \<Rightarrow> event list \<Rightarrow> bool" where
  "namespace_events ns es = (\<exists>r1 r2 r3. tolerated r1 \<and> tolerated r2 \<and> tolerated r3 \<and>
     es = [EvK8sNsCreate (k8s_namespace_of (ns_DNS ns)) r1,
           EvK8sQuotaCreate (ns_DNS ns) (resource_quota_of ns) r2,
           EvK8sLimitsCreate (ns_DNS ns) (limit_range_of ns) r3])"

lemma CreateNamespace_run:
  assumes "run_state (CreateNamespace x p name ops) s = (Inr ns, t)"
  shows "ns = merge_limits (buildDefaultNamespace (pl_lower p) name) ops
    \<and> (\<exists>es. trace t = trace s @ es \<and> namespace_events ns es)"
  using assms by (auto simp: namespace_events_def CreateNamespace_def Let_def createNamespace_def
      createResourceQuota_def createLimitRange_def split: prod.splits sum.splits if_splits)

lemma CreateNamespace_error:
  "run_state (CreateNamespace x p name ops) s = (Inl e, t) \<Longrightarrow> \<not> is_already_exists e"
  by (auto simp: CreateNamespace_def Let_def createNamespace_def
      createResourceQuota_def createLimitRange_def split: prod.splits sum.splits if_splits)

text \<open>
  C22: When the client reports a namespace created, it asked the API exactly three times, for the
  namespace, its quota and its limit range in this order, each answer was success or
  already-exists, and the namespace returned has the DNS name of the requested name and only
  positive limits.
\<close>

theorem CreateNamespace_ok:
  assumes "run_state (CreateNamespace x p name ops) s = (Inr ns, t)"
  shows "ns = merge_limits (buildDefaultNamespace (pl_lower p) name) ops
    \<and> ns_DNS ns = generateDNSName (pl_lower p) name \<and> limits_positive ns
    \<and> (\<exists>es. trace t = trace s @ es \<and> namespace_events ns es)"
  using CreateNamespace_run [OF assms] merge_default_positive
  by (auto simp: merge_limits_keeps default_names)

theorem CreateNamespace_ok_witness:
  "limits_positive (merge_limits (buildDefaultNamespace id ''wardu'') (Some sample_ns))"
proof -
  let ?p = "\<lparr>pl_env = Map.empty, pl_lower = id, pl_oor = (\<lambda>_. 0)\<rparr>"
  let ?r = "run_state (CreateNamespace calm_ext ?p ''wardu'' (Some sample_ns)) calm_sys"
  have "?r = (Inr (merge_limits (buildDefaultNamespace (pl_lower ?p) ''wardu'') (Some sample_ns)), snd ?r)"
    by (simp add: CreateNamespace_def Let_def createNamespace_def createResourceQuota_def createLimitRange_def calm_defs)
  from CreateNamespace_ok [OF this] show ?thesis by simp
qed

subsection \<open>Workers: properties\<close>

text \<open>
  A worker's deployment selects exactly the pods it stamps out: the selector and the pod
  labels are the same and carry the name under the key by which \<open>SelectPod\<close> looks pods up; it
  starts with no replica and runs the runtime beside the requested image.
\<close>

theorem deployment_selects_its_pods:
  "dp_Selector (deployment_of p ns img) = dp_TemplateLabels (deployment_of p ns img)
   \<and> map_of (dp_TemplateLabels (deployment_of p ns img)) ''worker'' = Some (dp_Name (deployment_of p ns img))
   \<and> dp_Replicas (deployment_of p ns img) = 0
   \<and> map ct_Image (dp_Containers (deployment_of p ns img)) = [''wardu/runtime:v1'', img]
   \<and> length (dp_Name (deployment_of p ns img)) \<le> 63"
  using deployment_name_wellformed [of "pl_lower p" img "ns_DNS ns"]
  by (simp add: deployment_of_def Let_def managed_by_def)

text \<open>The calls a scaling may make for a job.\<close>

definition scale_event_ok :: "Job \<Rightarrow> int32 \<Rightarrow> event \<Rightarrow> bool" where
  "scale_event_ok job replicas ev =
     (case ev of
        EvK8sScaleUpdate dns name sc r \<Rightarrow>
          dns = ns_DNS (w_Namespace (job_Worker job)) \<and> name = w_K8sDeploymentName (job_Worker job) \<and>
          sc_SpecReplicas sc = replicas \<and> sint replicas \<le> sint (to_int32 (w_MaxReplicas (job_Worker job)))
      | _ \<Rightarrow> is_k8s_create ev \<or> is_k8s_read ev)"

lemma not_update_ok: "is_k8s_create ev \<or> is_k8s_read ev \<Longrightarrow> scale_event_ok job n ev \<and> \<not> is_scale_update ev"
  by (cases ev) (simp_all add: scale_event_ok_def k8s_event_defs)

definition one_update :: "Job \<Rightarrow> int32 \<Rightarrow> ('w, 'z) sys_scheme \<Rightarrow> ('w, 'z) sys_scheme \<Rightarrow> bool" where
  "one_update job n s t = (\<exists>es. trace t = trace s @ es \<and> list_all (scale_event_ok job n) es
     \<and> length (filter is_scale_update es) \<le> 1)"

lemma one_update_none:
  assumes "grows (\<lambda>ev. is_k8s_create ev \<or> is_k8s_read ev) s t"
  shows "\<exists>es. trace t = trace s @ es \<and> list_all (scale_event_ok job n) es \<and> filter is_scale_update es = []"
proof -
  from assms obtain es where es: "trace t = trace s @ es" "\<forall>ev\<in>set es. is_k8s_create ev \<or> is_k8s_read ev"
    by (auto simp: grows_def extends_def list_all_iff)
  then have "list_all (scale_event_ok job n) es" "filter is_scale_update es = []"
    using not_update_ok by (auto simp: list_all_iff filter_empty_conv)
  with es show ?thesis by blast
qed

definition pre_update :: "Job \<Rightarrow> int32 \<Rightarrow> ('w, 'z) sys_scheme \<Rightarrow> ('w, 'z) sys_scheme \<Rightarrow> bool" where
  "pre_update job n s t = (\<exists>es. trace t = trace s @ es \<and> list_all (scale_event_ok job n) es
     \<and> filter is_scale_update es = [])"

lemma one_update_stop: "pre_update job n s t \<Longrightarrow> trace u = trace t \<Longrightarrow> one_update job n s u"
  by (auto simp: pre_update_def one_update_def)

lemma one_update_call:
  assumes "pre_update job n s t" "trace u = trace t @ [ev]" "scale_event_ok job n ev"
  shows "one_update job n s u"
proof -
  from assms(1) obtain es where "trace t = trace s @ es" "list_all (scale_event_ok job n) es"
    "filter is_scale_update es = []"
    by (auto simp: pre_update_def)
  with assms(2,3) show ?thesis
    unfolding one_update_def by (intro exI [where x = "es @ [ev]"]) simp
qed

lemma one_update_wait:
  assumes "pre_update job n s t" "trace u = trace t @ [ev]" "scale_event_ok job n ev"
  shows "wp (WaitWorkerReady x job) (\<lambda>r. one_update job n s) u"
proof (rule wp_via [OF grow_WaitWorkerReady])
  fix v :: "('a, 'b) sys_scheme"
  assume "grows is_k8s_read u v"
  then have "grows (\<lambda>ev. is_k8s_create ev \<or> is_k8s_read ev) u v" by (rule grows_mono) simp
  then have "pre_update job n u v" unfolding pre_update_def by (rule one_update_none)
  then obtain fs where fs: "trace v = trace u @ fs" "list_all (scale_event_ok job n) fs"
    "filter is_scale_update fs = []"
    by (auto simp: pre_update_def)
  from assms(1) obtain es where "trace t = trace s @ es" "list_all (scale_event_ok job n) es"
    "filter is_scale_update es = []"
    by (auto simp: pre_update_def)
  with assms(2,3) fs show "one_update job n s v"
    unfolding one_update_def by (intro exI [where x = "es @ ev # fs"]) simp
qed

lemma one_update_set_scale:
  assumes pre: "pre_update job n s t" and lim: "sint n \<le> sint (to_int32 (w_MaxReplicas (job_Worker job)))"
  shows "wp (set_scale x job n wake sc) (\<lambda>r. one_update job n s) t"
proof -
  let ?dns = "ns_DNS (w_Namespace (job_Worker job))" and ?name = "w_K8sDeploymentName (job_Worker job)"
  let ?sc = "sc\<lparr>sc_SpecReplicas := n\<rparr>"
  have stop: "one_update job n s t" by (rule one_update_stop [OF pre refl])
  show ?thesis
  proof (cases "wake \<and> sc_SpecReplicas sc \<noteq> 0 \<or> sc_SpecReplicas sc = n")
    case True
    with stop show ?thesis by (auto simp: set_scale_def Let_def wp_simps)
  next
    case False
    obtain r w where call: "x_k8s_scale_update x ?dns ?name ?sc (world t) = (r, w)" by fastforce
    let ?u = "t\<lparr>world := w, trace := trace t @ [EvK8sScaleUpdate ?dns ?name ?sc r]\<rparr>"
    have ev: "scale_event_ok job n (EvK8sScaleUpdate ?dns ?name ?sc r)"
      using lim by (simp add: scale_event_ok_def)
    have "one_update job n s ?u" by (rule one_update_call [OF pre _ ev]) simp
    moreover have "wp (WaitWorkerReady x job) (\<lambda>r. one_update job n s) ?u"
      by (rule one_update_wait [OF pre _ ev]) simp
    ultimately show ?thesis
      using False call by (auto simp: set_scale_def Let_def wp_simps split: sum.split)
  qed
qed

text \<open>
  C16: Scaling a worker changes the deployment at most once, only this worker's deployment in its
  namespace, only to the requested number and never above the worker's limit; all its other
  calls read or create Kubernetes objects.
\<close>

theorem ScaleWorker_within_limit:
  "one_update job n s (snd (run_state (ScaleWorker x p job n wake) s))"
proof -
  have "wp (ScaleWorker x p job n wake) (\<lambda>r. one_update job n s) s"
  proof (cases "sint (to_int32 (w_MaxReplicas (job_Worker job))) < sint n")
    case True
    then show ?thesis by (simp add: ScaleWorker_def Let_def wp_simps one_update_def)
  next
    case False
    then have lim: "sint n \<le> sint (to_int32 (w_MaxReplicas (job_Worker job)))" by simp
    show ?thesis
      unfolding ScaleWorker_def Let_def if_not_P [OF False] wp_must
    proof (rule wp_via [OF grow_fetch_scale])
      fix r :: "Scale result" and t :: "('a, 'b) sys_scheme"
      assume "grows (\<lambda>ev. is_k8s_create ev \<or> is_k8s_read ev) s t"
      then have "pre_update job n s t" unfolding pre_update_def by (rule one_update_none)
      then show "(case r of Inl e \<Rightarrow> one_update job n s
          | Inr sc \<Rightarrow> wp (set_scale x job n wake sc) (\<lambda>r. one_update job n s)) t"
        using one_update_stop [OF _ refl] one_update_set_scale [OF _ lim] by (cases r) auto
    qed
  qed
  then show ?thesis by (simp add: wp_run_rel)
qed

text \<open>
  A request above the worker's limit is refused before any call, and the limit is compared
  at 32 bits: a worker allowed a multiple of 2^32 replicas cannot be woken at all.
\<close>

theorem ScaleWorker_refuses:
  assumes "sint (to_int32 (w_MaxReplicas (job_Worker job))) < sint n"
  shows "run_state (ScaleWorker x p job n wake) s = (Inl (exceeds_error n (w_MaxReplicas (job_Worker job))), s)"
  using assms by (simp add: ScaleWorker_def Let_def)

theorem ScaleWorker_refuses_witness:
  "run_state (ScaleWorker calm_ext sample_platform (sample_job\<lparr>job_Worker := sample_worker\<lparr>w_MaxReplicas := 4294967296\<rparr>\<rparr>) 1 True) calm_sys
   = (Inl (exceeds_error 1 4294967296), calm_sys)"
  using ScaleWorker_refuses [of "sample_job\<lparr>job_Worker := sample_worker\<lparr>w_MaxReplicas := 4294967296\<rparr>\<rparr>" 1]
  by (simp add: to_int32_def)

text \<open>
  A wake-up of a worker that the API shows to have replicas succeeds after reading the
  scale once, and changes nothing.
\<close>

theorem ScaleWorker_awake:
  assumes "sint n \<le> sint (to_int32 (w_MaxReplicas (job_Worker job)))"
    and "x_k8s_scale_get x (ns_DNS (w_Namespace (job_Worker job))) (w_K8sDeploymentName (job_Worker job)) (world s) = (Inr sc, w)"
    and "sc_SpecReplicas sc \<noteq> 0"
  shows "run_state (ScaleWorker x p job n True) s = (Inr (), s\<lparr>world := w, trace := trace s @
     [EvK8sScaleGet (ns_DNS (w_Namespace (job_Worker job))) (w_K8sDeploymentName (job_Worker job)) (Inr sc)]\<rparr>)"
  using assms by (simp add: ScaleWorker_def Let_def fetch_scale_def getWorker_def set_scale_def)

theorem ScaleWorker_awake_witness:
  "run_state (ScaleWorker calm_ext sample_platform sample_job 1 True) calm_sys = (Inr (), calm_sys\<lparr>world := (), trace := trace calm_sys @
     [EvK8sScaleGet ''wardu'' ''worker-wardu-app'' (Inr \<lparr>sc_SpecReplicas = 1, sc_StatusReplicas = 1\<rparr>)]\<rparr>)"
  using ScaleWorker_awake [of 1 sample_job calm_ext calm_sys "\<lparr>sc_SpecReplicas = 1, sc_StatusReplicas = 1\<rparr>" "()" sample_platform]
  by (simp add: calm_ext_def sample_defs to_int32_def)

text \<open>The names and items a wait or a recovery is about.\<close>

definition ready_item :: "watch_item \<Rightarrow> bool" where
  "ready_item i = (case i of WatchDeployment n \<Rightarrow> positive n | _ \<Rightarrow> False)"

text \<open>
  The wait for a worker succeeds exactly when the watch delivers a deployment with a ready
  replica before it closes; otherwise it ends with an error, so it always returns.
\<close>

theorem wait_items_iff:
  "wait_items items e = Inr () \<longleftrightarrow> list_ex ready_item (takeWhile (\<lambda>i. i \<noteq> WatchClosed) items)"
  by (induction items e rule: wait_items.induct) (simp_all add: ready_item_def)

lemma CreateWorker_run:
  assumes "run_state (CreateWorker x p ns job img) s = (r, t)"
  shows "\<exists>rd. trace t = trace s @ [EvK8sDepCreate (ns_DNS ns) (deployment_of p ns img) rd]
    \<and> (case r of Inl e \<Rightarrow> rd = Inl e
         | Inr w \<Rightarrow> rd = Inr () \<and> w_Image w = img \<and> w_NamespaceID w = ns_ID ns \<and> w_MaxReplicas w = ns_MaxWorkers ns
             \<and> w_K8sDeploymentName w = dp_Name (deployment_of p ns img))"
  using assms by (auto simp: CreateWorker_def Let_def zero_Worker_def split: prod.splits sum.splits)

text \<open>The namespace a recovery builds again, from the name of the stored one and its limits.\<close>

definition recovered_ns :: "platform \<Rightarrow> Namespace \<Rightarrow> Namespace" where
  "recovered_ns p ns = merge_limits (buildDefaultNamespace (pl_lower p) (ns_Name ns)) (Some ns)"

lemma recoverWorker_run:
  assumes "run_state (recoverWorker x p job) s = (Inr u, t)"
  shows "\<exists>es r. trace t = trace s @ es @ [EvK8sDepCreate (ns_DNS (w_Namespace (job_Worker job)))
       (deployment_of p (w_Namespace (job_Worker job)) (w_Image (job_Worker job))) r]
    \<and> namespace_events (recovered_ns p (w_Namespace (job_Worker job))) es \<and> tolerated r"
proof -
  let ?ns = "w_Namespace (job_Worker job)"
  obtain r1 s1 where 1: "run_state (CreateNamespace x p (ns_Name ?ns) (Some ?ns)) s = (r1, s1)" by fastforce
  obtain r2 s2 where 2: "run_state (CreateWorker x p ?ns job (w_Image (job_Worker job))) s1 = (r2, s2)" by fastforce
  have "\<not> is_already_exists e" if "r1 = Inl e" for e
    using CreateNamespace_error 1 that by blast
  with assms 1 obtain ns where r1: "r1 = Inr ns"
    by (cases r1) (auto simp: recoverWorker_def Let_def)
  from assms 1 2 r1 have r2: "case r2 of Inl e \<Rightarrow> is_already_exists e | Inr _ \<Rightarrow> True" and t: "t = s2"
    by (cases r2; simp add: recoverWorker_def Let_def split: if_splits)+
  from CreateNamespace_run [OF 1 [unfolded r1]] obtain es where
    "trace s1 = trace s @ es" "namespace_events (recovered_ns p ?ns) es"
    by (auto simp: recovered_ns_def)
  moreover from CreateWorker_run [OF 2] r2 obtain rd where
    "trace s2 = trace s1 @ [EvK8sDepCreate (ns_DNS ?ns) (deployment_of p ?ns (w_Image (job_Worker job))) rd]" "tolerated rd"
    by (auto split: sum.splits)
  ultimately show ?thesis using t by (intro exI [where x = es] exI [where x = rd]) simp
qed

text \<open>
  C21: When the deployment is missing, its scale is read a second time only after the recovery
  asked for the namespace, its quota, its limit range and the deployment, in this order, each
  created or already there. The namespace is rebuilt under the DNS name of its stored name,
  the deployment under its stored DNS name.
\<close>

theorem fetch_scale_recovers:
  assumes "run_state (fetch_scale x p job) s = (Inr sc, t)"
    and "x_k8s_scale_get x (ns_DNS (w_Namespace (job_Worker job))) (w_K8sDeploymentName (job_Worker job)) (world s) = (Inl e, w)"
  shows "is_not_found e \<and> (\<exists>es r. tolerated r \<and> namespace_events (recovered_ns p (w_Namespace (job_Worker job))) es
    \<and> trace t = trace s @ EvK8sScaleGet (ns_DNS (w_Namespace (job_Worker job))) (w_K8sDeploymentName (job_Worker job)) (Inl e) # es @
      [EvK8sDepCreate (ns_DNS (w_Namespace (job_Worker job)))
         (deployment_of p (w_Namespace (job_Worker job)) (w_Image (job_Worker job))) r,
       EvK8sScaleGet (ns_DNS (w_Namespace (job_Worker job))) (w_K8sDeploymentName (job_Worker job)) (Inr sc)])"
proof -
  let ?ns = "w_Namespace (job_Worker job)"
  let ?get = "EvK8sScaleGet (ns_DNS ?ns) (w_K8sDeploymentName (job_Worker job))"
  let ?s = "s\<lparr>world := w, trace := trace s @ [?get (Inl e)]\<rparr>"
  obtain r1 u where rec: "run_state (recoverWorker x p job) ?s = (r1, u)" by fastforce
  with assms have "is_not_found e" and r1: "r1 = Inr ()" and t: "trace t = trace u @ [?get (Inr sc)]"
    by (auto simp: fetch_scale_def Let_def getWorker_def split: if_splits sum.splits prod.splits)
  from recoverWorker_run [OF rec [unfolded r1]] obtain es r where
    "trace u = trace ?s @ es @ [EvK8sDepCreate (ns_DNS ?ns) (deployment_of p ?ns (w_Image (job_Worker job))) r]"
    "namespace_events (recovered_ns p ?ns) es" "tolerated r"
    by blast
  with \<open>is_not_found e\<close> t show ?thesis by (intro conjI exI [where x = es] exI [where x = r]) simp_all
qed

text \<open>An outside in which the deployment is missing until it is created.\<close>

definition missing_ext :: "bool ext" where
  "missing_ext = undefined\<lparr>
     x_uuid := (\<lambda>w. (''u1'', w)),
     x_k8s_ns_create := (\<lambda>_ w. (Inl (Error EkK8sAlreadyExists ''exists''), w)),
     x_k8s_quota_create := (\<lambda>_ _ w. (Inr (), w)),
     x_k8s_limits_create := (\<lambda>_ _ w. (Inr (), w)),
     x_k8s_dep_create := (\<lambda>_ _ w. (Inr (), True)),
     x_k8s_scale_get := (\<lambda>_ _ w. (if w then Inr \<lparr>sc_SpecReplicas = 0, sc_StatusReplicas = 0\<rparr>
        else Inl (Error EkK8sNotFound ''gone''), w))\<rparr>"

theorem fetch_scale_recovers_witness:
  "let p = \<lparr>pl_env = Map.empty, pl_lower = id, pl_oor = (\<lambda>_. 0)\<rparr> in
   \<exists>es r. tolerated r \<and> namespace_events (recovered_ns p sample_ns) es
    \<and> trace (snd (run_state (fetch_scale missing_ext p sample_job) \<lparr>world = False, trace = []\<rparr>)) =
      EvK8sScaleGet ''wardu'' ''worker-wardu-app'' (Inl (Error EkK8sNotFound ''gone'')) # es @
      [EvK8sDepCreate ''wardu'' (deployment_of p sample_ns ''app'') r,
       EvK8sScaleGet ''wardu'' ''worker-wardu-app'' (Inr \<lparr>sc_SpecReplicas = 0, sc_StatusReplicas = 0\<rparr>)]"
proof -
  let ?p = "\<lparr>pl_env = Map.empty, pl_lower = id, pl_oor = (\<lambda>_. 0)\<rparr>"
  let ?s = "\<lparr>world = False, trace = []\<rparr>"
  let ?r = "run_state (fetch_scale missing_ext ?p sample_job) ?s"
  have "?r = (Inr \<lparr>sc_SpecReplicas = 0, sc_StatusReplicas = 0\<rparr>, snd ?r)"
    by (simp add: fetch_scale_def Let_def recoverWorker_def CreateNamespace_def createNamespace_def CreateWorker_def
        createResourceQuota_def createLimitRange_def getWorker_def missing_ext_def error_kind_defs)
  from fetch_scale_recovers [OF this, of "Error EkK8sNotFound ''gone''" False] show ?thesis
    by (simp add: missing_ext_def sample_job_def sample_worker_def sample_ns_def Let_def)
qed



end
