(* ===== verification/Database.thy ===== *)
theory Database
  imports World
begin

section \<open>The database service (shared/database, shared/models hooks)\<close>

text \<open>
  One definition per method of \<open>database.Service\<close>, as the gorm call it makes. Reads return the
  record or an error (\<open>gorm.ErrRecordNotFound\<close> is an error like the others here); updates go
  through \<open>Where(..).Updates(..)\<close>.
\<close>

subsection \<open>Namespaces\<close>

text \<open>The hook \<open>BeforeCreate\<close> fills in a missing primary key.\<close>

definition BeforeCreate :: "'w ext \<Rightarrow> Namespace \<Rightarrow> (('w, 'z) sys_scheme, Namespace result) state" where
  "BeforeCreate x ns =
     (if ns_ID ns = [] then do { i \<leftarrow> ext_ask (x_uuid x); ok (ns\<lparr>ns_ID := i\<rparr>) }
      else ok ns)"

definition CreateNamespace_db :: "'w ext \<Rightarrow> Namespace \<Rightarrow> (('w, 'z) sys_scheme, unit result) state" where
  "CreateNamespace_db x ns = must (BeforeCreate x ns) (\<lambda>ns'. ext_call (x_ns_create x ns') (EvNsCreate ns'))"

definition DeleteNamespace :: "'w ext \<Rightarrow> string \<Rightarrow> (('w, 'z) sys_scheme, unit result) state" where
  "DeleteNamespace x name =
     ext_call (x_ns_delete x (Where ''name'' name)) (EvNsDelete (Where ''name'' name))"

definition GetAllNamespaces :: "'w ext \<Rightarrow> (('w, 'z) sys_scheme, Namespace list result) state" where
  "GetAllNamespaces x = ext_call (x_ns_find x) EvNsFind"

definition GetNamespaceByName :: "'w ext \<Rightarrow> string \<Rightarrow> (('w, 'z) sys_scheme, Namespace result) state" where
  "GetNamespaceByName x name =
     ext_call (x_ns_first x (Where ''name'' name)) (EvNsFirst (Where ''name'' name))"

definition UpdateNamespace :: "'w ext \<Rightarrow> string \<Rightarrow> Namespace \<Rightarrow> (('w, 'z) sys_scheme, Namespace result) state" where
  "UpdateNamespace x name newNS =
     ext_call (x_ns_updates x (Where ''name'' name) newNS) (EvNsUpdates (Where ''name'' name) newNS)"

subsection \<open>Workers\<close>

definition GetWorkerByImage :: "'w ext \<Rightarrow> string \<Rightarrow> (('w, 'z) sys_scheme, Worker result) state" where
  "GetWorkerByImage x img =
     ext_call (x_worker_first x (Where ''image'' img)) (EvWorkerFirst (Where ''image'' img))"

definition CreateWorker_db :: "'w ext \<Rightarrow> Worker \<Rightarrow> (('w, 'z) sys_scheme, unit result) state" where
  "CreateWorker_db x worker = ext_call (x_worker_create x worker) (EvWorkerCreate worker)"

definition UpdateWorker :: "'w ext \<Rightarrow> Worker \<Rightarrow> (('w, 'z) sys_scheme, unit result) state" where
  "UpdateWorker x worker =
     ext_call (x_worker_updates x (Where ''id'' (w_ID worker)) worker) (EvWorkerUpdates (Where ''id'' (w_ID worker)) worker)"

subsection \<open>Jobs\<close>

definition CreateJob_db :: "'w ext \<Rightarrow> Job \<Rightarrow> (('w, 'z) sys_scheme, unit result) state" where
  "CreateJob_db x job = ext_call (x_job_create x job) (EvJobCreate job)"

text \<open>The condition is built from the id of the empty local \<open>job\<close>, not from the argument.\<close>

definition GetJobByID :: "'w ext \<Rightarrow> string \<Rightarrow> (('w, 'z) sys_scheme, Job result) state" where
  "GetJobByID x jobId =
     (let job = zero_Job in
      ext_call (x_job_first x [] (Where ''id'' (job_ID job))) (EvJobFirst [] (Where ''id'' (job_ID job))))"

definition GetJobForExecution :: "'w ext \<Rightarrow> string \<Rightarrow> (('w, 'z) sys_scheme, Job result) state" where
  "GetJobForExecution x i =
     ext_call (x_job_first x [''Worker'', ''Worker.Namespace''] (Where ''id'' i))
       (EvJobFirst [''Worker'', ''Worker.Namespace''] (Where ''id'' i))"

subsection \<open>Attempts\<close>

definition CreateJobAttempt :: "'w ext \<Rightarrow> JobAttempt \<Rightarrow> (('w, 'z) sys_scheme, unit result) state" where
  "CreateJobAttempt x jt = ext_call (x_attempt_create x jt) (EvAttemptCreate jt)"

definition UpdateJobAttempt :: "'w ext \<Rightarrow> JobAttempt \<Rightarrow> (('w, 'z) sys_scheme, JobAttempt result) state" where
  "UpdateJobAttempt x jt =
     ext_call (x_attempt_updates x (Where ''id'' (att_ID jt)) jt) (EvAttemptUpdates (Where ''id'' (att_ID jt)) jt)"

lemmas db_defs = BeforeCreate_def CreateNamespace_db_def DeleteNamespace_def GetAllNamespaces_def
  GetNamespaceByName_def UpdateNamespace_def GetWorkerByImage_def CreateWorker_db_def UpdateWorker_def
  CreateJob_db_def GetJobByID_def GetJobForExecution_def CreateJobAttempt_def UpdateJobAttempt_def

subsection \<open>Every method is one call\<close>

definition is_db_event :: "event \<Rightarrow> bool" where
  "is_db_event ev = (case ev of
     EvNsCreate _ _ \<Rightarrow> True | EvNsDelete _ _ \<Rightarrow> True | EvNsFind _ \<Rightarrow> True | EvNsFirst _ _ \<Rightarrow> True
   | EvNsUpdates _ _ _ \<Rightarrow> True | EvWorkerFirst _ _ \<Rightarrow> True | EvWorkerCreate _ _ \<Rightarrow> True
   | EvWorkerUpdates _ _ _ \<Rightarrow> True | EvJobCreate _ _ \<Rightarrow> True | EvJobFirst _ _ _ \<Rightarrow> True
   | EvAttemptCreate _ _ \<Rightarrow> True | EvAttemptUpdates _ _ _ \<Rightarrow> True | _ \<Rightarrow> False)"

lemma grow_db_write:
  "(\<And>ns r. P (EvNsCreate ns r)) \<Longrightarrow> state_io_rel (grows P) (CreateNamespace_db x n)"
  "(\<And>r. P (EvNsDelete (Where ''name'' nm) r)) \<Longrightarrow> state_io_rel (grows P) (DeleteNamespace x nm)"
  "(\<And>r. P (EvWorkerCreate w r)) \<Longrightarrow> state_io_rel (grows P) (CreateWorker_db x w)"
  "(\<And>r. P (EvWorkerUpdates (Where ''id'' (w_ID w)) w r)) \<Longrightarrow> state_io_rel (grows P) (UpdateWorker x w)"
  "(\<And>r. P (EvJobCreate j r)) \<Longrightarrow> state_io_rel (grows P) (CreateJob_db x j)"
  "(\<And>r. P (EvAttemptCreate a r)) \<Longrightarrow> state_io_rel (grows P) (CreateJobAttempt x a)"
  "(\<And>r. P (EvAttemptUpdates (Where ''id'' (att_ID a)) a r)) \<Longrightarrow> state_io_rel (grows P) (UpdateJobAttempt x a)"
  by (auto simp: db_defs intro!: grow_intros)

lemma grow_db_read:
  "(\<And>r. P (EvNsFind r)) \<Longrightarrow> state_io_rel (grows P) (GetAllNamespaces x)"
  "(\<And>q r. P (EvNsFirst q r)) \<Longrightarrow> state_io_rel (grows P) (GetNamespaceByName x nm)"
  "(\<And>q r. P (EvWorkerFirst q r)) \<Longrightarrow> state_io_rel (grows P) (GetWorkerByImage x im)"
  "(\<And>p q r. P (EvJobFirst p q r)) \<Longrightarrow> state_io_rel (grows P) (GetJobByID x i)"
  "(\<And>p q r. P (EvJobFirst p q r)) \<Longrightarrow> state_io_rel (grows P) (GetJobForExecution x i)"
  by (auto simp: db_defs Let_def intro!: grow_intros)

lemmas grow_db = grow_db_write grow_db_read

subsection \<open>The pool statistics behind the health endpoint\<close>

text \<open>
  \<open>Health\<close> is a function of the outcome of \<open>DB()\<close>, of the ping and of \<open>sql.DBStats\<close>. The text
  of a wait duration (\<open>Duration.String\<close>) is the argument \<open>dur_text\<close>.
\<close>

record DBStats =
  st_OpenConnections :: go_int
  st_InUse :: go_int
  st_Idle :: go_int
  st_WaitCount :: int64
  st_WaitDuration :: duration
  st_MaxIdleClosed :: int64
  st_MaxLifetimeClosed :: int64

text \<open>Division of signed integers truncates towards zero.\<close>

definition half :: "int64 \<Rightarrow> int" where
  "half n = sgn (sint n) * (\<bar>sint n\<bar> div 2)"

definition Health ::
  "(duration \<Rightarrow> string) \<Rightarrow> error option \<Rightarrow> error option \<Rightarrow> DBStats \<Rightarrow> (string \<rightharpoonup> string)" where
  "Health dur_text db_err ping_err st =
     (case db_err of
        Some e \<Rightarrow> [''status'' \<mapsto> ''down'', ''error'' \<mapsto> ''db down: '' @ error_text e]
      | None \<Rightarrow>
     (case ping_err of
        Some e \<Rightarrow> [''status'' \<mapsto> ''down'', ''error'' \<mapsto> ''db down: '' @ error_text e]
      | None \<Rightarrow>
       (let m0 = [''status'' \<mapsto> ''up'', ''message'' \<mapsto> ''It's healthy'',
                  ''open_connections'' \<mapsto> itoa (st_OpenConnections st),
                  ''in_use'' \<mapsto> itoa (st_InUse st),
                  ''idle'' \<mapsto> itoa (st_Idle st),
                  ''wait_count'' \<mapsto> itoa (st_WaitCount st),
                  ''wait_duration'' \<mapsto> dur_text (st_WaitDuration st),
                  ''max_idle_closed'' \<mapsto> itoa (st_MaxIdleClosed st),
                  ''max_lifetime_closed'' \<mapsto> itoa (st_MaxLifetimeClosed st)];
            m1 = (if 40 < sint (st_OpenConnections st)
                  then m0(''message'' \<mapsto> ''The database is experiencing heavy load.'') else m0);
            m2 = (if 1000 < sint (st_WaitCount st)
                  then m1(''message'' \<mapsto> ''The database has a high number of wait events, indicating potential bottlenecks.'') else m1);
            m3 = (if half (st_OpenConnections st) < sint (st_MaxIdleClosed st)
                  then m2(''message'' \<mapsto> ''Many idle connections are being closed, consider revising the connection pool settings.'') else m2);
            m4 = (if half (st_OpenConnections st) < sint (st_MaxLifetimeClosed st)
                  then m3(''message'' \<mapsto> ''Many connections are being closed due to max lifetime, consider increasing max lifetime or revising the connection usage pattern.'') else m3)
        in m4)))"

end
