(* ===== verification/Scheduler.thy ===== *)
theory Scheduler
  imports K8sClient Rabbitmq Database
begin

section \<open>The scheduler service (services/scheduler/server/grpc.go)\<close>

text \<open>
  \<open>CreateJob\<close> resolves the namespace, makes sure that namespace and worker exist, persists the
  job and queues it; \<open>createDefualtNamespace\<close> runs once at start-up. Both are sequences of
  steps that stop at the first error. Log lines and the clock reads only they use are left out.
\<close>

subsection \<open>Operations\<close>

definition unknown_namespace :: "string \<Rightarrow> error" where
  "unknown_namespace name = Error EkOther
     (''namespace '' @ name @ '' not found, please create the namespace or use default wardu'')"

definition load_namespace :: "'w ext \<Rightarrow> string \<Rightarrow> (('w, 'z) sys_scheme, Namespace result) state" where
  "load_namespace x name =
     catch (GetNamespaceByName x name)
       (\<lambda>err. if is_record_not_found err then fail (unknown_namespace name) else fail err)
       ok"

definition ensure_namespace :: "'w ext \<Rightarrow> platform \<Rightarrow> Namespace \<Rightarrow> (('w, 'z) sys_scheme, unit result) state" where
  "ensure_namespace x p ns =
     must (CheckNamespaceByDNS x (ns_DNS ns)) (\<lambda>exist.
       if exist then ok ()
       else must (CreateNamespace x p (ns_Name ns) (Some ns)) (\<lambda>_. ok ()))"

definition new_worker ::
  "'w ext \<Rightarrow> platform \<Rightarrow> Namespace \<Rightarrow> Job \<Rightarrow> string \<Rightarrow> (('w, 'z) sys_scheme, Worker result) state" where
  "new_worker x p ns job img =
     must (CreateWorker x p ns job img) (\<lambda>worker.
     must (CreateWorker_db x worker) (\<lambda>_. ok worker))"

definition check_worker ::
  "'w ext \<Rightarrow> platform \<Rightarrow> Namespace \<Rightarrow> Job \<Rightarrow> string \<Rightarrow> Worker \<Rightarrow> (('w, 'z) sys_scheme, Worker result) state" where
  "check_worker x p ns job img worker =
     must (CheckWorker x (ns_DNS ns) (w_K8sDeploymentName worker)) (\<lambda>exist.
       if exist then ok worker
       else must (CreateWorker x p ns job img) (\<lambda>newWorker.
         let worker' = worker\<lparr>w_K8sDeploymentName := w_K8sDeploymentName newWorker\<rparr> in
         must (UpdateWorker x worker') (\<lambda>_. ok worker')))"

definition ensure_worker ::
  "'w ext \<Rightarrow> platform \<Rightarrow> Namespace \<Rightarrow> Job \<Rightarrow> string \<Rightarrow> (('w, 'z) sys_scheme, Worker result) state" where
  "ensure_worker x p ns job img =
     catch (GetWorkerByImage x img)
       (\<lambda>err. if \<not> is_record_not_found err then fail err else new_worker x p ns job img)
       (check_worker x p ns job img)"

definition first_message :: "Job \<Rightarrow> int64 \<Rightarrow> JobMessage" where
  "first_message job priority =
     \<lparr>jm_JobID = job_ID job, jm_Attempt = 1, jm_Priority = priority, jm_Overrides = None\<rparr>"

definition CreateJob ::
  "'w ext \<Rightarrow> platform \<Rightarrow> json_ops \<Rightarrow> CreateJobRequest \<Rightarrow> (('w, 'z) sys_scheme, string result) state" where
  "CreateJob x p jo req =
     must (NewJobID x) (\<lambda>i.
     let job = (BuildJobFromProto req)\<lparr>job_ID := i\<rparr> in
     must (load_namespace x (job_Namespace job)) (\<lambda>ns.
     must (ensure_namespace x p ns) (\<lambda>_.
     must (ensure_worker x p ns job (cj_Image req)) (\<lambda>worker.
     let job' = job\<lparr>job_WorkerID := w_ID worker\<rparr> in
     must (CreateJob_db x job') (\<lambda>_.
     if job_Autorun job'
     then must (PublishJob x jo (first_message job' (cj_Priority req))) (\<lambda>_. ok (job_ID job'))
     else ok (job_ID job'))))))"

text \<open>The loop of \<open>createDefualtNamespace\<close>; its result is \<open>hasWardu\<close>.\<close>

fun restore_namespaces ::
  "'w ext \<Rightarrow> platform \<Rightarrow> Namespace list \<Rightarrow> bool \<Rightarrow> (('w, 'z) sys_scheme, bool result) state" where
  "restore_namespaces x p [] hasWardu = ok hasWardu"
| "restore_namespaces x p (ns # nss) hasWardu =
     must (ensure_namespace x p ns) (\<lambda>_. restore_namespaces x p nss (hasWardu \<or> ns_Name ns = ''wardu''))"

definition createDefualtNamespace :: "'w ext \<Rightarrow> platform \<Rightarrow> (('w, 'z) sys_scheme, unit result) state" where
  "createDefualtNamespace x p =
     must (GetAllNamespaces x) (\<lambda>nss.
     must (restore_namespaces x p nss False) (\<lambda>hasWardu.
     if hasWardu then ok ()
     else must (CreateNamespace x p ''wardu'' None) (\<lambda>ns. CreateNamespace_db x ns)))"

subsection \<open>What the steps before persisting do not do\<close>

text \<open>Persisting and queueing a job, as calls.\<close>

definition is_job_event :: "event \<Rightarrow> bool" where
  "is_job_event ev = (case ev of EvJobCreate _ _ \<Rightarrow> True | EvPublish _ _ \<Rightarrow> True | _ \<Rightarrow> False)"

lemma k8s_not_job: "is_k8s_create ev \<or> is_k8s_read ev \<Longrightarrow> \<not> is_job_event ev"
  by (cases ev) (simp_all add: k8s_event_defs is_job_event_def)

lemma grow_load_namespace: "state_io_rel (grows (\<lambda>ev. \<not> is_job_event ev)) (load_namespace x name)"
  by (auto simp: load_namespace_def is_job_event_def intro!: grow_intros grow_db_read)

lemma grow_ensure_namespace: "state_io_rel (grows (\<lambda>ev. is_k8s_create ev \<or> is_k8s_read ev)) (ensure_namespace x p ns)"
  unfolding ensure_namespace_def
  by (intro grow_intros grow_mono [OF grow_CheckNamespaceByDNS] grow_mono [OF grow_CreateNamespace]) simp_all

lemma grow_ensure_worker: "state_io_rel (grows (\<lambda>ev. \<not> is_job_event ev)) (ensure_worker x p ns job img)"
proof -
  have w: "state_io_rel (grows (\<lambda>ev. \<not> is_job_event ev)) (CreateWorker x p ns job img)"
    using grow_CreateWorker by (rule grow_mono) (simp add: k8s_not_job)
  have c: "state_io_rel (grows (\<lambda>ev. \<not> is_job_event ev)) (CheckWorker x dns name)" for dns name
    using grow_CheckWorker by (rule grow_mono) (simp add: k8s_not_job)
  show ?thesis
    unfolding ensure_worker_def new_worker_def check_worker_def Let_def
    by (intro grow_intros grow_db w c) (simp_all add: is_job_event_def)
qed

text \<open>Everything \<open>CreateJob\<close> does before it persists the job, as one program.\<close>

definition prepare_job ::
  "'w ext \<Rightarrow> platform \<Rightarrow> CreateJobRequest \<Rightarrow> (('w, 'z) sys_scheme, Job result) state" where
  "prepare_job x p req =
     must (NewJobID x) (\<lambda>i.
     must (load_namespace x (cj_Namespace req)) (\<lambda>ns.
     must (ensure_namespace x p ns) (\<lambda>_.
     must (ensure_worker x p ns ((BuildJobFromProto req)\<lparr>job_ID := i\<rparr>) (cj_Image req)) (\<lambda>worker.
     ok ((BuildJobFromProto req)\<lparr>job_ID := i, job_WorkerID := w_ID worker\<rparr>)))))"

definition commit_job ::
  "'w ext \<Rightarrow> json_ops \<Rightarrow> CreateJobRequest \<Rightarrow> Job \<Rightarrow> (('w, 'z) sys_scheme, string result) state" where
  "commit_job x jo req job =
     must (CreateJob_db x job) (\<lambda>_.
     if job_Autorun job
     then must (PublishJob x jo (first_message job (cj_Priority req))) (\<lambda>_. ok (job_ID job))
     else ok (job_ID job))"

lemma CreateJob_split:
  "run_state (CreateJob x p jo req) s = run_state (must (prepare_job x p req) (commit_job x jo req)) s"
  by (simp add: CreateJob_def prepare_job_def commit_job_def Let_def BuildJobFromProto_def
      split: prod.split sum.split)

lemma grow_prepare_job: "state_io_rel (grows (\<lambda>ev. \<not> is_job_event ev)) (prepare_job x p req)"
proof -
  have "state_io_rel (grows (\<lambda>ev. \<not> is_job_event ev)) (ensure_namespace x p ns)" for ns
    using grow_ensure_namespace by (rule grow_mono) (simp add: k8s_not_job)
  then show ?thesis
    unfolding prepare_job_def
    by (intro grow_intros grow_ids grow_load_namespace grow_ensure_worker)
qed

lemma prepare_job_fields:
  assumes "run_state (prepare_job x p req) s = (Inr job, t)"
  shows "job_Autorun job = cj_Autorun req" "job_Payload job = cj_Payload req"
    "job_Entrypoint job = cj_Entrypoint req" "job_Namespace job = cj_Namespace req"
    "job_TimeoutSeconds job = cj_TimeoutSeconds req" "job_MaxAttempts job = cj_MaxAttempts req"
    "job_IdleTimeoutSeconds job = cj_IdleTimeoutSeconds req"
  using assms
  by (auto simp: prepare_job_def BuildJobFromProto_def split: prod.splits sum.splits)

subsection \<open>Properties\<close>

definition stored_job :: "CreateJobRequest \<Rightarrow> Job \<Rightarrow> bool" where
  "stored_job req job =
     (job_Autorun job = cj_Autorun req \<and> job_Payload job = cj_Payload req \<and> job_Entrypoint job = cj_Entrypoint req \<and>
      job_Namespace job = cj_Namespace req \<and> job_TimeoutSeconds job = cj_TimeoutSeconds req \<and>
      job_MaxAttempts job = cj_MaxAttempts req \<and> job_IdleTimeoutSeconds job = cj_IdleTimeoutSeconds req)"

definition queued :: "json_ops \<Rightarrow> CreateJobRequest \<Rightarrow> Job \<Rightarrow> Publishing \<Rightarrow> bool" where
  "queued jo req job pub =
     (\<exists>body. encode_message jo (first_message job (cj_Priority req)) = Inr body \<and>
        pub = publishing_of (first_message job (cj_Priority req)) body)"

text \<open>The calls about the job itself that an answer of \<open>CreateJob\<close> stands for.\<close>

definition job_calls :: "json_ops \<Rightarrow> CreateJobRequest \<Rightarrow> string result \<Rightarrow> event list \<Rightarrow> bool" where
  "job_calls jo req r es =
     (case r of
        Inr i \<Rightarrow> (\<exists>job pub. stored_job req job \<and> job_ID job = i \<and> queued jo req job pub \<and>
          es = EvJobCreate job (Inr ()) # (if cj_Autorun req then [EvPublish pub (Inr ())] else []))
      | Inl e \<Rightarrow> es = [] \<or>
          (\<exists>job pub. stored_job req job \<and> queued jo req job pub \<and>
             (es = [EvJobCreate job (Inl e)] \<or> cj_Autorun req \<and> es = [EvJobCreate job (Inr ()), EvPublish pub (Inl e)])))"

lemma first_message_encodes: "\<exists>body. encode_message jo (first_message job pr) = Inr body"
  by (simp add: encode_message_def first_message_def Let_def)

lemma commit_job_run:
  assumes "stored_job req job" "run_state (commit_job x jo req job) s = (r, t)"
  shows "\<exists>es. trace t = trace s @ es \<and> job_calls jo req r es"
proof -
  obtain body where body: "encode_message jo (first_message job (cj_Priority req)) = Inr body"
    using first_message_encodes by blast
  then have "queued jo req job (publishing_of (first_message job (cj_Priority req)) body)"
    by (simp add: queued_def)
  with assms body show ?thesis
    by (auto simp: commit_job_def CreateJob_db_def PublishJob_def job_calls_def stored_job_def
        split: prod.splits sum.splits if_splits)
qed

lemma prepare_job_stored: "run_state (prepare_job x p req) s = (Inr job, t) \<Longrightarrow> stored_job req job"
  using prepare_job_fields [of x p req s job t] by (simp add: stored_job_def)

lemma prepare_job_trace:
  assumes "run_state (prepare_job x p req) s = (r, t)"
  shows "\<exists>es. trace t = trace s @ es \<and> list_all (\<lambda>ev. \<not> is_job_event ev) es"
  using state_io_relD [OF grow_prepare_job assms] by (simp add: grows_def extends_def)

lemma CreateJob_outcome:
  assumes "run_state (CreateJob x p jo req) s = (r, t)"
  shows "\<exists>es fs. trace t = trace s @ es @ fs \<and> list_all (\<lambda>ev. \<not> is_job_event ev) es \<and> job_calls jo req r fs"
proof -
  obtain r1 u where prep: "run_state (prepare_job x p req) s = (r1, u)" by fastforce
  from prepare_job_trace [OF prep] obtain es where
    es: "trace u = trace s @ es" "list_all (\<lambda>ev. \<not> is_job_event ev) es" by blast
  show ?thesis
  proof (cases r1)
    case (Inl e)
    with assms prep have "t = u" "r = Inl e" by (simp_all add: CreateJob_split)
    with es show ?thesis by (intro exI [where x = es] exI [where x = "[]"]) (simp add: job_calls_def)
  next
    case (Inr job)
    with assms prep have run: "run_state (commit_job x jo req job) u = (r, t)" by (simp add: CreateJob_split)
    have "stored_job req job" using prep Inr by (auto intro: prepare_job_stored)
    from commit_job_run [OF this run] es show ?thesis by auto
  qed
qed

text \<open>
  C1: A job is persisted at most once and queued at most once, persisted before it is queued, and
  after everything else the request does. A success is one insert of the requested job under
  the returned id and, with autorun, one publication of its first attempt; a failure is no
  insert, a failed insert, or an inserted job whose publication failed.
\<close>

theorem CreateJob_calls:
  assumes "run_state (CreateJob x p jo req) s = (r, t)"
  shows "\<exists>es fs. trace t = trace s @ es @ fs \<and> list_all (\<lambda>ev. \<not> is_job_event ev) es \<and> job_calls jo req r fs"
  using assms by (rule CreateJob_outcome)

definition sample_req :: CreateJobRequest where
  "sample_req = \<lparr>cj_Image = ''app'', cj_Payload = [1], cj_Priority = 1, cj_Autorun = True, cj_Entrypoint = [''run''],
     cj_IdleTimeoutSeconds = 0, cj_MaxAttempts = 0, cj_Namespace = ''wardu'', cj_TimeoutSeconds = 0\<rparr>"

lemma sample_CreateJob: "fst (run_state (CreateJob calm_ext sample_platform sample_json sample_req) calm_sys) = Inr ''id1''"
  by (simp add: CreateJob_def Let_def load_namespace_def ensure_namespace_def ensure_worker_def check_worker_def
      CheckNamespaceByDNS_def CheckWorker_def db_defs NewJobID_def ids_New_def time_Now_def PublishJob_def
      encode_message_def first_message_def BuildJobFromProto_def sample_req_def calm_defs zero_Job_def)

theorem CreateJob_calls_witness:
  "\<exists>es fs. trace (snd (run_state (CreateJob calm_ext sample_platform sample_json sample_req) calm_sys)) = es @ fs
     \<and> list_all (\<lambda>ev. \<not> is_job_event ev) es \<and> job_calls sample_json sample_req (Inr ''id1'') fs"
proof -
  let ?r = "run_state (CreateJob calm_ext sample_platform sample_json sample_req) calm_sys"
  have "?r = (Inr ''id1'', snd ?r)" using sample_CreateJob by (metis prod.collapse)
  from CreateJob_calls [OF this] show ?thesis by (simp add: calm_sys_def)
qed

text \<open>
  A job for a namespace that is not in the database is refused with a message that names it,
  after one query and nothing else.
\<close>

theorem CreateJob_unknown_namespace:
  assumes "run_state (NewJobID x) s = (Inr i, u)"
    and "x_ns_first x (Where ''name'' (cj_Namespace req)) (world u) = (Inl e, w)" "is_record_not_found e"
  shows "run_state (CreateJob x p jo req) s = (Inl (unknown_namespace (cj_Namespace req)),
     u\<lparr>world := w, trace := trace u @ [EvNsFirst (Where ''name'' (cj_Namespace req)) (Inl e)]\<rparr>)"
  using assms by (simp add: CreateJob_def Let_def load_namespace_def GetNamespaceByName_def BuildJobFromProto_def)

theorem CreateJob_unknown_namespace_witness:
  "fst (run_state (CreateJob (calm_ext\<lparr>x_ns_first := (\<lambda>_ w. (Inl (Error EkRecordNotFound ''record not found''), w))\<rparr>)
      sample_platform sample_json sample_req) calm_sys) = Inl (unknown_namespace ''wardu'')"
proof -
  let ?x = "calm_ext\<lparr>x_ns_first := (\<lambda>_ w. (Inl (Error EkRecordNotFound ''record not found''), w))\<rparr>"
  have "run_state (NewJobID ?x) calm_sys = (Inr ''id1'', calm_sys)"
    by (simp add: NewJobID_def ids_New_def time_Now_def calm_defs)
  from CreateJob_unknown_namespace [OF this, of sample_req "Error EkRecordNotFound ''record not found''" "()"]
  show ?thesis by (simp add: error_kind_defs sample_req_def)
qed

text \<open>
  The worker a job is bound to: when the database has a worker of the image, the job gets
  that worker, whatever its namespace. The worker keeps its id, limits and namespace, and its
  deployment name is the stored one or the one built from the image and the job's namespace.
\<close>

theorem ensure_worker_found:
  assumes "x_worker_first x (Where ''image'' img) (world s) = (Inr w0, wd)"
    and "run_state (ensure_worker x p ns job img) s = (Inr w, t)"
  shows "w_ID w = w_ID w0 \<and> w_NamespaceID w = w_NamespaceID w0 \<and> w_MaxReplicas w = w_MaxReplicas w0
    \<and> w_K8sDeploymentName w \<in> {w_K8sDeploymentName w0, generateDeploymentName (pl_lower p) img (ns_DNS ns)}"
  using assms
  by (auto simp: ensure_worker_def check_worker_def GetWorkerByImage_def CheckWorker_def UpdateWorker_def
      CreateWorker_def deployment_of_def Let_def split: prod.splits sum.splits if_splits)

text \<open>A stored worker of another namespace, and a cluster without its deployment in the job's.\<close>

definition other_ns :: Namespace where
  "other_ns = sample_ns\<lparr>ns_ID := ''n2'', ns_Name := ''other'', ns_DNS := ''other''\<rparr>"

definition no_deployment_ext :: "unit ext" where
  "no_deployment_ext = calm_ext\<lparr>x_k8s_dep_get := (\<lambda>_ _ w. (Inl (Error EkK8sNotFound ''not found''), w))\<rparr>"

theorem ensure_worker_found_witness:
  "\<exists>w. fst (run_state (ensure_worker no_deployment_ext sample_platform other_ns sample_job ''app'') calm_sys) = Inr w
     \<and> w_NamespaceID w = ''n1'' \<and> ns_ID other_ns = ''n2''"
proof -
  let ?r = "run_state (ensure_worker no_deployment_ext sample_platform other_ns sample_job ''app'') calm_sys"
  have "\<exists>w. ?r = (Inr w, snd ?r)"
    by (simp add: ensure_worker_def check_worker_def GetWorkerByImage_def CheckWorker_def UpdateWorker_def
      CreateWorker_def Let_def no_deployment_ext_def calm_defs is_not_found_def)
  then obtain w where w: "?r = (Inr w, snd ?r)" by blast
  have "x_worker_first no_deployment_ext (Where ''image'' ''app'') (world calm_sys) = (Inr sample_worker, ())"
    by (simp add: no_deployment_ext_def calm_ext_def)
  from ensure_worker_found [OF this w] w show ?thesis
    by (auto simp: other_ns_def sample_worker_def zero_Worker_def intro!: exI [where x = w] dest: arg_cong [where f = fst])
qed

subsection \<open>Start-up\<close>

definition checked_dns :: "event \<Rightarrow> string list" where
  "checked_dns ev = (case ev of EvK8sNsGet dns _ \<Rightarrow> [dns] | _ \<Rightarrow> [])"

definition all_checked :: "event list \<Rightarrow> string list" where
  "all_checked es = concat (map checked_dns es)"

lemma all_checked_append: "all_checked (es @ fs) = all_checked es @ all_checked fs"
  by (simp add: all_checked_def)

lemma create_checks_nothing: "list_all is_k8s_create es \<Longrightarrow> all_checked es = []"
  by (induction es) (auto simp: all_checked_def checked_dns_def is_k8s_create_def split: event.splits)

lemma ensure_namespace_run:
  assumes "run_state (ensure_namespace x p ns) s = (Inr u, t)"
  shows "\<exists>r es. trace t = trace s @ EvK8sNsGet (ns_DNS ns) r # es \<and> list_all is_k8s_create es
    \<and> (case r of Inr _ \<Rightarrow> es = [] | Inl e \<Rightarrow> is_not_found e)"
proof -
  obtain r w where get: "x_k8s_ns_get x (ns_DNS ns) (world s) = (r, w)" by fastforce
  let ?u = "s\<lparr>world := w, trace := trace s @ [EvK8sNsGet (ns_DNS ns) r]\<rparr>"
  show ?thesis
  proof (cases r)
    case (Inr v)
    with assms get have "t = ?u" by (simp add: ensure_namespace_def CheckNamespaceByDNS_def)
    with Inr show ?thesis by (intro exI [where x = r] exI [where x = "[]"]) simp
  next
    case (Inl e)
    obtain r2 u2 where cr: "run_state (CreateNamespace x p (ns_Name ns) (Some ns)) ?u = (r2, u2)" by fastforce
    with assms get Inl have "is_not_found e" "t = u2"
      by (auto simp: ensure_namespace_def CheckNamespaceByDNS_def split: if_splits sum.splits)
    moreover obtain es where "trace u2 = trace ?u @ es" "list_all is_k8s_create es"
      using state_io_relD [OF grow_CreateNamespace cr] by (auto simp: grows_def extends_def)
    ultimately show ?thesis using Inl by (intro exI [where x = r] exI [where x = es]) simp
  qed
qed

lemma restore_namespaces_run:
  assumes "run_state (restore_namespaces x p nss has) s = (Inr b, t)"
  shows "b = (has \<or> (\<exists>ns\<in>set nss. ns_Name ns = ''wardu'')) \<and>
    (\<exists>es. trace t = trace s @ es \<and> list_all (\<lambda>ev. is_k8s_create ev \<or> is_k8s_read ev) es
       \<and> all_checked es = map ns_DNS nss)"
  using assms
proof (induction nss arbitrary: has s)
  case Nil
  then show ?case by (auto simp: all_checked_def)
next
  case (Cons ns nss)
  obtain r u where one: "run_state (ensure_namespace x p ns) s = (r, u)" by fastforce
  with Cons.prems obtain v where r: "r = Inr v" by (cases r) auto
  with Cons.prems one have rest: "run_state (restore_namespaces x p nss (has \<or> ns_Name ns = ''wardu'')) u = (Inr b, t)"
    by simp
  from ensure_namespace_run [OF one [unfolded r]] obtain rg es where
    es: "trace u = trace s @ EvK8sNsGet (ns_DNS ns) rg # es" "list_all is_k8s_create es" by blast
  from Cons.IH [OF rest] obtain fs where
    fs: "trace t = trace u @ fs" "list_all (\<lambda>ev. is_k8s_create ev \<or> is_k8s_read ev) fs" "all_checked fs = map ns_DNS nss"
    and b: "b = ((has \<or> ns_Name ns = ''wardu'') \<or> (\<exists>ns\<in>set nss. ns_Name ns = ''wardu''))" by blast
  have "all_checked (EvK8sNsGet (ns_DNS ns) rg # es @ fs) = map ns_DNS (ns # nss)"
    using create_checks_nothing [OF es(2)] fs(3) by (simp add: all_checked_def checked_dns_def)
  moreover have "list_all (\<lambda>ev. is_k8s_create ev \<or> is_k8s_read ev) (EvK8sNsGet (ns_DNS ns) rg # es @ fs)"
    using es(2) fs(2) by (auto simp: is_k8s_read_def list_all_iff)
  ultimately show ?case
    using es(1) fs(1) b by (intro conjI exI [where x = "EvK8sNsGet (ns_DNS ns) rg # es @ fs"]) auto
qed

text \<open>The default namespace with its limits, and its first row.\<close>

definition default_row :: "platform \<Rightarrow> string \<Rightarrow> Namespace" where
  "default_row p i = (buildDefaultNamespace (pl_lower p) ''wardu'')\<lparr>ns_ID := i\<rparr>"

lemma bootstrap_run:
  assumes "run_state (createDefualtNamespace x p) s = (Inr u, t)"
  shows "\<exists>nss es. list_all (\<lambda>ev. is_k8s_create ev \<or> is_k8s_read ev) es \<and> all_checked es = map ns_DNS nss
    \<and> (if \<exists>ns\<in>set nss. ns_Name ns = ''wardu''
       then trace t = trace s @ EvNsFind (Inr nss) # es
       else \<exists>i. trace t = trace s @ EvNsFind (Inr nss) # es @ [EvNsCreate (default_row p i) (Inr ())])"
proof -
  obtain r w where find: "x_ns_find x (world s) = (r, w)" by fastforce
  with assms obtain nss where r: "r = Inr nss"
    by (cases r) (auto simp: createDefualtNamespace_def GetAllNamespaces_def)
  let ?u = "s\<lparr>world := w, trace := trace s @ [EvNsFind (Inr nss)]\<rparr>"
  obtain rb v where res: "run_state (restore_namespaces x p nss False) ?u = (rb, v)" by fastforce
  with assms find r obtain b where rb: "rb = Inr b"
    by (cases rb) (auto simp: createDefualtNamespace_def GetAllNamespaces_def)
  from restore_namespaces_run [OF res [unfolded rb]] obtain es where
    b: "b = (\<exists>ns\<in>set nss. ns_Name ns = ''wardu'')" and
    es: "trace v = trace ?u @ es" "list_all (\<lambda>ev. is_k8s_create ev \<or> is_k8s_read ev) es" "all_checked es = map ns_DNS nss"
    by auto
  show ?thesis
  proof (cases b)
    case True
    with assms find r res rb have "t = v" by (simp add: createDefualtNamespace_def GetAllNamespaces_def)
    with True b es show ?thesis by (intro exI [where x = nss] exI [where x = es]) simp
  next
    case False
    obtain rn v2 where cr: "run_state (CreateNamespace x p ''wardu'' None) v = (rn, v2)" by fastforce
    with assms find r res rb False obtain ns where rn: "rn = Inr ns"
      by (cases rn) (auto simp: createDefualtNamespace_def GetAllNamespaces_def)
    from CreateNamespace_run [OF cr [unfolded rn]] have ns: "ns = buildDefaultNamespace (pl_lower p) ''wardu''"
      by (simp add: merge_limits_def)
    obtain fs where fs: "trace v2 = trace v @ fs" "list_all is_k8s_create fs"
      using state_io_relD [OF grow_CreateNamespace cr] by (auto simp: grows_def extends_def)
    from assms find r res rb False cr rn have "run_state (CreateNamespace_db x ns) v2 = (Inr u, t)"
      by (simp add: createDefualtNamespace_def GetAllNamespaces_def)
    then obtain i where "trace t = trace v2 @ [EvNsCreate (default_row p i) (Inr ())]"
      using ns by (auto simp: CreateNamespace_db_def BeforeCreate_def default_row_def buildDefaultNamespace_def
          split: prod.splits if_splits)
    with False b es fs create_checks_nothing [OF fs(2)] show ?thesis
      by (intro exI [where x = nss] exI [where x = "es @ fs"])
         (auto simp: all_checked_append list_all_iff)
  qed
qed



end
