(* ===== verification/Registry.thy ===== *)
theory Registry
  imports World
begin

section \<open>Execution tables\<close>

text \<open>
  Dispatcher and runtime both keep a map from execution ids to records, which only a keyed
  insert, an update in place and a keyed removal change. The laws of such a table, and what
  follows from them for any sequence of operations, are stated once here; each service
  interprets the locale on its own table.
\<close>

locale exec_table =
  fixes look :: "string \<Rightarrow> 's \<Rightarrow> 'e option"
    and put :: "string \<Rightarrow> 'e \<Rightarrow> 's \<Rightarrow> 's"
  assumes look_put: "look k (put i e s) = (if k = i then Some e else look k s)"
begin

definition change :: "string \<Rightarrow> ('e \<Rightarrow> 'e) \<Rightarrow> 's \<Rightarrow> 's" where
  "change i f s = (case look i s of None \<Rightarrow> s | Some e \<Rightarrow> put i (f e) s)"

lemma look_change: "look k (change i f s) = (if k = i then map_option f (look k s) else look k s)"
  by (auto simp: change_def look_put split: option.split)

text \<open>An update in place neither registers nor removes an execution.\<close>

lemma change_keys: "look k (change i f s) = None \<longleftrightarrow> look k s = None"
  by (simp add: look_change)

lemma look_puts:
  "look k (fold (\<lambda>(i, e). put i e) es s) = (case map_of (rev es) k of Some e \<Rightarrow> Some e | None \<Rightarrow> look k s)"
  by (induction es arbitrary: s) (auto simp: look_put map_add_def split: option.splits)

end

locale removable = exec_table look put
  for look :: "string \<Rightarrow> 's \<Rightarrow> 'e option" and put :: "string \<Rightarrow> 'e \<Rightarrow> 's \<Rightarrow> 's" +
  fixes remove :: "string \<Rightarrow> 's \<Rightarrow> 's"
  assumes look_remove: "look k (remove i s) = (if k = i then None else look k s)"
begin

text \<open>An execution that was registered, changed and removed leaves the others as they were.\<close>

lemma remove_put: "look k (remove i (put i e s)) = look k (remove i s)"
  by (simp add: look_put look_remove)

lemma remove_change: "look k (remove i (change i f s)) = look k (remove i s)"
  by (simp add: look_change look_remove)

lemma lifecycle: "look i s = None \<Longrightarrow> look k (remove i (change i f (put i e s))) = look k s"
  by (auto simp: look_change look_put look_remove)

end

end
