(* ===== verification/Dispatcher.thy ===== *)
theory Dispatcher
  imports K8sClient Rabbitmq Database Registry
begin

section \<open>The dispatcher service (services/dispatcher/server)\<close>

text \<open>
  The table of executions, the RPCs \<open>RunJob\<close> and \<open>Heartbeat\<close>, the execution of a queued job and
  the monitor. \<open>executeJob\<close> is one sequence of steps with the failure of an attempt recorded by
  \<open>failAttempt\<close> on the branches where the code calls it.
\<close>

record RuntimeExecution =
  re_ExecutionID :: string
  re_JobID :: string
  re_AttemptID :: string
  re_PodName :: string
  re_Status :: execution_status
  re_PID :: int64
  re_LastHeartbeat :: time

record 'w disp = "'w sys" +
  executions :: "string \<rightharpoonup> RuntimeExecution"

definition put_exec :: "string \<Rightarrow> RuntimeExecution \<Rightarrow> ('w, 'z) disp_scheme \<Rightarrow> ('w, 'z) disp_scheme" where
  "put_exec i e s = s\<lparr>executions := (executions s)(i \<mapsto> e)\<rparr>"

subsection \<open>RunJob (grpc.go)\<close>

definition buildOverridesOps :: "RunJobRequest \<Rightarrow> JobOverrides option" where
  "buildOverridesOps req =
     (let ops = \<lparr>ov_Payload = (if 0 < length (rj_Payload req) then rj_Payload req else []),
                 ov_Entrypoint = (if 0 < length (rj_Entrypoint req) then rj_Entrypoint req else []),
                 ov_IdleTimeoutSeconds = rj_IdleTimeoutSeconds req,
                 ov_MaxAttempts = rj_MaxAttempts req,
                 ov_TimeoutSeconds = rj_TimeoutSeconds req\<rparr>;
          hasOverrides = (0 < length (rj_Payload req) \<or> 0 < length (rj_Entrypoint req) \<or>
            rj_IdleTimeoutSeconds req \<noteq> None \<or> rj_MaxAttempts req \<noteq> None \<or> rj_TimeoutSeconds req \<noteq> None)
      in if \<not> hasOverrides then None else Some ops)"

definition run_message :: "RunJobRequest \<Rightarrow> JobMessage" where
  "run_message req =
     \<lparr>jm_JobID = rj_JobId req, jm_Attempt = 1, jm_Priority = GetPriority req, jm_Overrides = buildOverridesOps req\<rparr>"

definition RunJob :: "'w ext \<Rightarrow> json_ops \<Rightarrow> RunJobRequest \<Rightarrow> (('w, 'z) sys_scheme, string result) state" where
  "RunJob x jo req = must (PublishJob x jo (run_message req)) (\<lambda>_. ok (rj_JobId req))"

subsection \<open>Heartbeat (grpc.go)\<close>

definition heartbeat_one :: "'w ext \<Rightarrow> HeartbeatRequest \<Rightarrow> (('w, 'z) disp_scheme, unit) state" where
  "heartbeat_one x hb = do {
     execs \<leftarrow> gets executions;
     (case execs (hb_ExecutionId hb) of
        None \<Rightarrow> ret ()
      | Some exec \<Rightarrow> do {
          now \<leftarrow> time_Now x;
          modify (put_exec (hb_ExecutionId hb)
            (exec\<lparr>re_Status := hb_Status hb, re_PID := hb_Pid hb, re_LastHeartbeat := now\<rparr>))
        })
   }"

text \<open>What \<open>stream.Recv\<close> returns, in order; \<open>None\<close> while the handler waits for more.\<close>

datatype hb_item = HbMsg HeartbeatRequest | HbEOF | HbErr error

fun Heartbeat :: "'w ext \<Rightarrow> hb_item list \<Rightarrow> (('w, 'z) disp_scheme, unit result option) state" where
  "Heartbeat x [] = ret None"
| "Heartbeat x (HbEOF # items) = ret (Some (Inr ()))"
| "Heartbeat x (HbErr err # items) = ret (Some (Inl err))"
| "Heartbeat x (HbMsg hb # items) = do { heartbeat_one x hb; Heartbeat x items }"

subsection \<open>The runtime client (runtime_client.go)\<close>

definition NewRuntime :: "'w ext \<Rightarrow> string \<Rightarrow> (('w, 'z) sys_scheme, unit result) state" where
  "NewRuntime x addr = ext_call (x_grpc_dial x addr) (EvDial addr)"

definition runtime_Run :: "'w ext \<Rightarrow> string \<Rightarrow> RunRequest \<Rightarrow> (('w, 'z) sys_scheme, string result) state" where
  "runtime_Run x addr req = ext_call (x_runtime_run x addr req) (EvRun addr req)"

definition runtime_Close :: "'w ext \<Rightarrow> string \<Rightarrow> (('w, 'z) sys_scheme, unit) state" where
  "runtime_Close x addr = do { _ \<leftarrow> ext_call (x_grpc_close x addr) (EvClose addr); ret () }"

subsection \<open>executeJob (execute.go)\<close>

definition runtime_port :: "platform \<Rightarrow> go_int" where
  "runtime_port p = GetInt (pl_env p) ''RUNTIME_GRPC_PORT'' 8083"

definition runtime_addr :: "platform \<Rightarrow> Pod \<Rightarrow> string" where
  "runtime_addr p pod = JoinHostPort (pod_IP pod) (CHR '':'' # itoa (runtime_port p))"

definition new_attempt :: "string \<Rightarrow> Job \<Rightarrow> JobMessage \<Rightarrow> time \<Rightarrow> JobAttempt" where
  "new_attempt i job jm now =
     \<lparr>att_ID = i, att_JobID = job_ID job, att_Attempt = jm_Attempt jm, att_Status = AttemptStatusRunning,
      att_WorkerPod = [], att_Result = [], att_Error = [], att_StartedAt = now, att_FinishedAt = zero_time\<rparr>"

definition failed_attempt :: "JobAttempt \<Rightarrow> error \<Rightarrow> time \<Rightarrow> JobAttempt" where
  "failed_attempt attempt err now =
     attempt\<lparr>att_Status := AttemptStatusFailed, att_Error := error_text err, att_FinishedAt := now\<rparr>"

definition failAttempt :: "'w ext \<Rightarrow> JobAttempt \<Rightarrow> error \<Rightarrow> (('w, 'z) sys_scheme, unit) state" where
  "failAttempt x attempt err = do {
     now \<leftarrow> time_Now x;
     _ \<leftarrow> UpdateJobAttempt x (failed_attempt attempt err now);
     ret ()
   }"

text \<open>\<open>if err != nil { g.failAttempt(attempt, err); return err }\<close>\<close>

definition or_fail ::
  "'w ext \<Rightarrow> JobAttempt \<Rightarrow> (('w, 'z) sys_scheme, 'a result) state \<Rightarrow> (('w, 'z) sys_scheme, 'a result) state" where
  "or_fail x attempt m = catch m (\<lambda>err. do { failAttempt x attempt err; fail err }) ok"

definition run_request :: "Job \<Rightarrow> JobAttempt \<Rightarrow> RunRequest" where
  "run_request job attempt =
     \<lparr>rr_JobId = job_ID job, rr_AttemptId = att_ID attempt, rr_Entrypoint = job_Entrypoint job,
      rr_Payload = job_Payload job, rr_TimeoutSeconds = job_TimeoutSeconds job\<rparr>"

definition new_execution :: "string \<Rightarrow> Job \<Rightarrow> JobAttempt \<Rightarrow> Pod \<Rightarrow> RuntimeExecution" where
  "new_execution i job attempt pod =
     \<lparr>re_ExecutionID = i, re_JobID = job_ID job, re_AttemptID = att_ID attempt, re_PodName = pod_Name pod,
      re_Status = EXECUTION_STATUS_PENDING, re_PID = 0, re_LastHeartbeat = zero_time\<rparr>"

text \<open>From the connected runtime client on; \<open>defer runtime.Close()\<close> runs last on every branch.\<close>

definition start_on_runtime ::
  "'w ext \<Rightarrow> string \<Rightarrow> Job \<Rightarrow> JobAttempt \<Rightarrow> Pod \<Rightarrow> (('w, 'z) disp_scheme, unit result) state" where
  "start_on_runtime x addr job attempt pod = do {
     r \<leftarrow> must (or_fail x attempt (runtime_Run x addr (run_request job attempt))) (\<lambda>executionID. do {
            modify (put_exec executionID (new_execution executionID job attempt pod));
            ok ()
          });
     runtime_Close x addr;
     ret r
   }"

definition place_job ::
  "'w ext \<Rightarrow> platform \<Rightarrow> Job \<Rightarrow> JobAttempt \<Rightarrow> (('w, 'z) disp_scheme, unit result) state" where
  "place_job x p job attempt =
     must (or_fail x attempt (SelectPod x job)) (\<lambda>pod.
     must (NewRuntime x (runtime_addr p pod)) (\<lambda>_.
     start_on_runtime x (runtime_addr p pod) job attempt pod))"

definition attempt_job ::
  "'w ext \<Rightarrow> platform \<Rightarrow> Job \<Rightarrow> JobAttempt \<Rightarrow> (('w, 'z) disp_scheme, unit result) state" where
  "attempt_job x p job attempt =
     must (CreateJobAttempt x attempt) (\<lambda>_.
     must (or_fail x attempt (ScaleWorker x p job 1 True)) (\<lambda>_.
     place_job x p job attempt))"

definition executeJob :: "'w ext \<Rightarrow> platform \<Rightarrow> JobMessage \<Rightarrow> (('w, 'z) disp_scheme, unit result) state" where
  "executeJob x p jm =
     must (GetJobForExecution x (jm_JobID jm)) (\<lambda>job0.
     let job = ApplyOverrides job0 (jm_Overrides jm) in
     must (NewAttemptID x) (\<lambda>i. do {
       now \<leftarrow> time_Now x;
       attempt_job x p job (new_attempt i job jm now)
     }))"

subsection \<open>The monitor (grpc.go)\<close>

text \<open>
  \<open>checkExecutions\<close> over the keys in some order, which Go leaves open; the result lists the
  executions it warns about.
\<close>

definition heartbeat_expired :: "time \<Rightarrow> RuntimeExecution \<Rightarrow> bool" where
  "heartbeat_expired now exec = (\<not> time_Sub now (re_LastHeartbeat exec) < 30 * 1000000000)"

fun check_executions :: "'w ext \<Rightarrow> RuntimeExecution list \<Rightarrow> (('w, 'z) sys_scheme, RuntimeExecution list) state" where
  "check_executions x [] = ret []"
| "check_executions x (exec # execs) = do {
     now \<leftarrow> time_Now x;
     warned \<leftarrow> check_executions x execs;
     ret (if heartbeat_expired now exec then exec # warned else warned)
   }"

definition checkExecutions :: "'w ext \<Rightarrow> string list \<Rightarrow> (('w, 'z) disp_scheme, RuntimeExecution list) state" where
  "checkExecutions x order = do {
     execs \<leftarrow> gets executions;
     check_executions x (List.map_filter execs order)
   }"

text \<open>The monitor over what its \<open>select\<close> receives: ticks, with an order of the keys, until the context ends.\<close>

datatype monitor_event = MonitorTick "string list" | MonitorDone

fun startExecutionMonitor :: "'w ext \<Rightarrow> monitor_event list \<Rightarrow> (('w, 'z) disp_scheme, RuntimeExecution list list) state" where
  "startExecutionMonitor x [] = ret []"
| "startExecutionMonitor x (MonitorDone # evs) = ret []"
| "startExecutionMonitor x (MonitorTick order # evs) = do {
     warned \<leftarrow> checkExecutions x order;
     rest \<leftarrow> startExecutionMonitor x evs;
     ret (warned # rest)
   }"

subsection \<open>The table\<close>

interpretation disp_table: exec_table "\<lambda>i s. executions s i" put_exec
  by unfold_locales (simp add: put_exec_def)

lemma more_executions: "sys.more t = sys.more s \<Longrightarrow> executions t = executions s"
  by (cases s; cases t) simp

lemma grows_table:
  "grows P s t \<Longrightarrow> \<exists>es. trace t = trace s @ es \<and> list_all P es \<and> executions t = executions s"
  using grows_trace grows_more more_executions by metis

text \<open>What a heartbeat changes of an execution.\<close>

definition beat :: "HeartbeatRequest \<Rightarrow> time \<Rightarrow> RuntimeExecution \<Rightarrow> RuntimeExecution" where
  "beat hb now exec = exec\<lparr>re_Status := hb_Status hb, re_PID := hb_Pid hb, re_LastHeartbeat := now\<rparr>"

lemma heartbeat_change:
  "\<exists>now w. snd (run_state (heartbeat_one x hb) s) =
     (disp_table.change (hb_ExecutionId hb) (beat hb now) s)\<lparr>world := w\<rparr>"
proof (cases "executions s (hb_ExecutionId hb)")
  case None
  then show ?thesis
    by (intro exI [where x = 0] exI [where x = "world s"]) (simp add: heartbeat_one_def disp_table.change_def)
next
  case (Some exec)
  obtain now w where "x_now x (world s) = (now, w)" by fastforce
  with Some show ?thesis
    by (intro exI [where x = now] exI [where x = w])
       (simp add: heartbeat_one_def time_Now_def disp_table.change_def beat_def put_exec_def)
qed

text \<open>The record of an execution with what heartbeats change of it blanked out.\<close>

definition identity_of :: "RuntimeExecution \<Rightarrow> string \<times> string \<times> string \<times> string" where
  "identity_of exec = (re_ExecutionID exec, re_JobID exec, re_AttemptID exec, re_PodName exec)"

definition identities :: "('w, 'z) disp_scheme \<Rightarrow> string \<Rightarrow> (string \<times> string \<times> string \<times> string) option" where
  "identities s i = map_option identity_of (executions s i)"

lemma identity_of_beat [simp]: "identity_of (beat hb now e) = identity_of e"
  by (simp add: identity_of_def beat_def)

lemma heartbeat_one_keeps: "identities (snd (run_state (heartbeat_one x hb) s)) = identities s"
proof -
  obtain now w where "snd (run_state (heartbeat_one x hb) s) =
      (disp_table.change (hb_ExecutionId hb) (beat hb now) s)\<lparr>world := w\<rparr>"
    using heartbeat_change [of x hb s] by (elim exE)
  then show ?thesis
    by (auto simp: identities_def fun_eq_iff disp_table.look_change option.map_comp o_def)
qed

text \<open>The last heartbeat that names an execution, among those before the stream ends.\<close>

fun beats :: "hb_item list \<Rightarrow> HeartbeatRequest list" where
  "beats (HbMsg hb # items) = hb # beats items"
| "beats _ = []"

definition last_beat :: "hb_item list \<Rightarrow> string \<Rightarrow> HeartbeatRequest option" where
  "last_beat items i = List.find (\<lambda>hb. hb_ExecutionId hb = i) (rev (beats items))"

lemma find_append: "List.find P (xs @ ys) = (case List.find P xs of None \<Rightarrow> List.find P ys | Some x \<Rightarrow> Some x)"
  by (induction xs) auto

lemma Heartbeat_beats:
  "identities (snd (run_state (Heartbeat x items) s)) = identities s
   \<and> (\<forall>i e. executions (snd (run_state (Heartbeat x items) s)) i = Some e \<longrightarrow>
        (case last_beat items i of
           Some hb \<Rightarrow> re_Status e = hb_Status hb \<and> re_PID e = hb_Pid hb
         | None \<Rightarrow> executions s i = Some e))"
proof (induction x items arbitrary: s rule: Heartbeat.induct)
  case (4 x hb items)
  let ?t = "snd (run_state (heartbeat_one x hb) s)"
  obtain now w where t: "?t = (disp_table.change (hb_ExecutionId hb) (beat hb now) s)\<lparr>world := w\<rparr>"
    using heartbeat_change [of x hb s] by (elim exE)
  have run: "snd (run_state (Heartbeat x (HbMsg hb # items)) s) = snd (run_state (Heartbeat x items) ?t)"
    by (simp add: case_prod_beta)
  have find: "last_beat (HbMsg hb # items) i =
      (case last_beat items i of Some h \<Rightarrow> Some h | None \<Rightarrow> if hb_ExecutionId hb = i then Some hb else None)" for i
    by (simp add: last_beat_def find_append split: option.split)
  have one: "re_Status e = hb_Status hb \<and> re_PID e = hb_Pid hb"
    if "executions ?t (hb_ExecutionId hb) = Some e" for e
    using that t by (auto simp: disp_table.look_change beat_def)
  have other: "executions ?t i = executions s i" if "i \<noteq> hb_ExecutionId hb" for i
    using that t by (simp add: disp_table.look_change)
  show ?case
    unfolding run
  proof (intro conjI allI impI)
    show "identities (snd (run_state (Heartbeat x items) ?t)) = identities s"
      using 4 [of ?t] heartbeat_one_keeps by metis
  next
    fix i e
    assume e: "executions (snd (run_state (Heartbeat x items) ?t)) i = Some e"
    from 4 [of ?t] e have ih: "case last_beat items i of
        Some hb \<Rightarrow> re_Status e = hb_Status hb \<and> re_PID e = hb_Pid hb | None \<Rightarrow> executions ?t i = Some e"
      by blast
    show "case last_beat (HbMsg hb # items) i of
        Some hb \<Rightarrow> re_Status e = hb_Status hb \<and> re_PID e = hb_Pid hb | None \<Rightarrow> executions s i = Some e"
    proof (cases "last_beat items i")
      case None
      with ih one other [of i] show ?thesis by (cases "hb_ExecutionId hb = i") (auto simp: find)
    next
      case (Some h)
      with ih show ?thesis by (simp add: find)
    qed
  qed
qed (simp_all add: last_beat_def)

text \<open>
  C20: A heartbeat stream never registers or removes an execution and never changes which job,
  attempt and pod it belongs to; a known execution ends with the status and process id of the last
  heartbeat that names it, an unnamed one is left as it was.
\<close>

theorem Heartbeat_table:
  "identities (snd (run_state (Heartbeat x items) s)) = identities s
   \<and> (\<forall>i. case last_beat items i of
        Some hb \<Rightarrow> map_option (\<lambda>e. (re_Status e, re_PID e)) (executions (snd (run_state (Heartbeat x items) s)) i)
                   = map_option (\<lambda>_. (hb_Status hb, hb_Pid hb)) (executions s i)
      | None \<Rightarrow> executions (snd (run_state (Heartbeat x items) s)) i = executions s i)"
proof (intro conjI allI)
  let ?t = "snd (run_state (Heartbeat x items) s)"
  from Heartbeat_beats [of x items s] show ids: "identities ?t = identities s" by blast
  fix i
  have dom: "executions ?t i = None \<longleftrightarrow> executions s i = None"
    using fun_cong [OF ids, of i] by (auto simp: identities_def)
  show "case last_beat items i of
        Some hb \<Rightarrow> map_option (\<lambda>e. (re_Status e, re_PID e)) (executions ?t i)
                   = map_option (\<lambda>_. (hb_Status hb, hb_Pid hb)) (executions s i)
      | None \<Rightarrow> executions ?t i = executions s i"
  proof (cases "executions ?t i")
    case None
    with dom show ?thesis by (auto split: option.split)
  next
    case (Some e)
    with dom obtain e0 where "executions s i = Some e0" by auto
    moreover have "case last_beat items i of
        Some hb \<Rightarrow> re_Status e = hb_Status hb \<and> re_PID e = hb_Pid hb | None \<Rightarrow> executions s i = Some e"
      using Heartbeat_beats [of x items s] Some by blast
    ultimately show ?thesis using Some by (auto split: option.splits)
  qed
qed

subsection \<open>Overrides\<close>

text \<open>
  Running a job with overrides: what the dispatcher queues for a \<open>RunJob\<close> request, laid over
  the stored job, gives the requested payload and entrypoint where they are not empty and the
  requested numbers where they are set (also when set to zero), and changes nothing else.
\<close>

lemma applied_overrides:
  "let job' = ApplyOverrides job (jm_Overrides (run_message req)) in
     job_Payload job' = (if rj_Payload req = [] then job_Payload job else rj_Payload req)
   \<and> job_Entrypoint job' = (if rj_Entrypoint req = [] then job_Entrypoint job else rj_Entrypoint req)
   \<and> job_TimeoutSeconds job' = case_option (job_TimeoutSeconds job) id (rj_TimeoutSeconds req)
   \<and> job_MaxAttempts job' = case_option (job_MaxAttempts job) id (rj_MaxAttempts req)
   \<and> job_IdleTimeoutSeconds job' = case_option (job_IdleTimeoutSeconds job) id (rj_IdleTimeoutSeconds req)
   \<and> job_ID job' = job_ID job \<and> job_Worker job' = job_Worker job \<and> job_Namespace job' = job_Namespace job"
proof (cases "buildOverridesOps req")
  case None
  then show ?thesis
    by (auto simp: run_message_def buildOverridesOps_def Let_def split: if_splits option.splits)
next
  case (Some ops)
  then have ops: "ov_Payload ops = rj_Payload req" "ov_Entrypoint ops = rj_Entrypoint req"
    "ov_IdleTimeoutSeconds ops = rj_IdleTimeoutSeconds req" "ov_MaxAttempts ops = rj_MaxAttempts req"
    "ov_TimeoutSeconds ops = rj_TimeoutSeconds req"
    by (auto simp: buildOverridesOps_def Let_def split: if_splits)
  with Some show ?thesis by (simp add: run_message_def ApplyOverrides_fields Let_def)
qed

subsection \<open>Executing a job\<close>

lemma grow_ScaleWorker: "state_io_rel (grows is_k8s_event) (ScaleWorker x p job n wake)"
proof -
  have f: "state_io_rel (grows is_k8s_event) (fetch_scale x p job)"
    using grow_fetch_scale by (rule grow_mono) (auto simp: is_k8s_event_def)
  have w: "state_io_rel (grows is_k8s_event) (WaitWorkerReady x job)"
    using grow_WaitWorkerReady by (rule grow_mono) (simp add: is_k8s_event_def)
  show ?thesis
    unfolding ScaleWorker_def set_scale_def Let_def
    by (intro grow_intros f w) (simp_all add: is_k8s_event_def is_scale_update_def)
qed

lemma grow_SelectPod': "state_io_rel (grows is_k8s_event) (SelectPod x job)"
  using grow_SelectPod by (rule grow_mono) (simp add: is_k8s_event_def)

lemma or_fail_ok:
  "run_state (or_fail x a m) s = (Inr v, t) \<Longrightarrow> run_state m s = (Inr v, t)"
  by (auto simp: or_fail_def split: prod.splits sum.splits)

lemma or_fail_error:
  assumes "run_state (or_fail x a m) s = (Inl e, t)"
  shows "\<exists>u now r. run_state m s = (Inl e, u) \<and> sys.more t = sys.more u
    \<and> trace t = trace u @ [EvAttemptUpdates (Where ''id'' (att_ID a)) (failed_attempt a e now) r]"
proof -
  obtain r u where m: "run_state m s = (r, u)" by fastforce
  with assms have r: "r = Inl e" by (cases r) (auto simp: or_fail_def split: prod.splits)
  obtain now w where "x_now x (world u) = (now, w)" by fastforce
  with assms m r show ?thesis
    by (auto simp: or_fail_def failAttempt_def time_Now_def UpdateJobAttempt_def failed_attempt_def
        split: prod.splits)
qed

text \<open>The calls of an attempt that reached its runtime.\<close>

definition placed_calls :: "platform \<Rightarrow> Job \<Rightarrow> JobAttempt \<Rightarrow> Pod \<Rightarrow> string \<Rightarrow> event list \<Rightarrow> bool" where
  "placed_calls p job a pod i es =
     (\<exists>ks rc. list_all is_k8s_event ks \<and>
        es = ks @ [EvDial (runtime_addr p pod) (Inr ()), EvRun (runtime_addr p pod) (run_request job a) (Inr i),
           EvClose (runtime_addr p pod) rc])"

lemma placed_calls_more: "list_all is_k8s_event ls \<Longrightarrow> placed_calls p job a pod i es \<Longrightarrow> placed_calls p job a pod i (ls @ es)"
proof -
  assume ls: "list_all is_k8s_event ls" and "placed_calls p job a pod i es"
  then obtain ks rc where "list_all is_k8s_event ks" "es = ks @ [EvDial (runtime_addr p pod) (Inr ()),
      EvRun (runtime_addr p pod) (run_request job a) (Inr i), EvClose (runtime_addr p pod) rc]"
    by (auto simp: placed_calls_def)
  with ls show ?thesis
    unfolding placed_calls_def by (intro exI [where x = "ls @ ks"] exI [where x = rc]) simp
qed

lemma start_on_runtime_ok:
  assumes "run_state (start_on_runtime x addr job a pod) s = (Inr u, t)"
  shows "\<exists>i rc. trace t = trace s @ [EvRun addr (run_request job a) (Inr i), EvClose addr rc]
    \<and> executions t = (executions s)(i \<mapsto> new_execution i job a pod)"
  using assms
  by (auto simp: start_on_runtime_def or_fail_def runtime_Run_def runtime_Close_def put_exec_def
      split: prod.splits sum.splits)

lemma place_job_ok:
  assumes "run_state (place_job x p job a) s = (Inr u, t)"
  shows "\<exists>pod i es. trace t = trace s @ es \<and> placed_calls p job a pod i es
    \<and> executions t = (executions s)(i \<mapsto> new_execution i job a pod)"
proof -
  from assms obtain pod s3 where 3: "run_state (or_fail x a (SelectPod x job)) s = (Inr pod, s3)"
    and a3: "run_state (must (NewRuntime x (runtime_addr p pod))
      (\<lambda>_. start_on_runtime x (runtime_addr p pod) job a pod)) s3 = (Inr u, t)"
    unfolding place_job_def by (rule must_okE)
  from grows_table [OF state_io_relD [OF grow_SelectPod' or_fail_ok [OF 3]]] obtain ls where
    s3: "trace s3 = trace s @ ls" "list_all is_k8s_event ls" "executions s3 = executions s" by blast
  from a3 obtain v4 s4 where 4: "run_state (NewRuntime x (runtime_addr p pod)) s3 = (Inr v4, s4)"
    and a4: "run_state (start_on_runtime x (runtime_addr p pod) job a pod) s4 = (Inr u, t)"
    by (rule must_okE)
  from 4 have s4: "trace s4 = trace s3 @ [EvDial (runtime_addr p pod) (Inr ())]" "executions s4 = executions s3"
    by (auto simp: NewRuntime_def split: prod.splits)
  from start_on_runtime_ok [OF a4] obtain i rc where
    t: "trace t = trace s4 @ [EvRun (runtime_addr p pod) (run_request job a) (Inr i), EvClose (runtime_addr p pod) rc]"
       "executions t = (executions s4)(i \<mapsto> new_execution i job a pod)" by blast
  have "placed_calls p job a pod i (ls @ [EvDial (runtime_addr p pod) (Inr ()),
      EvRun (runtime_addr p pod) (run_request job a) (Inr i), EvClose (runtime_addr p pod) rc])"
    unfolding placed_calls_def using s3(2) by blast
  with s3 s4 t show ?thesis by (metis append.assoc append_Cons append_Nil)
qed

lemma attempt_job_ok:
  assumes "run_state (attempt_job x p job a) s = (Inr u, t)"
  shows "\<exists>pod i es. trace t = trace s @ EvAttemptCreate a (Inr ()) # es \<and> placed_calls p job a pod i es
    \<and> executions t = (executions s)(i \<mapsto> new_execution i job a pod)"
proof -
  from assms obtain v1 s1 where 1: "run_state (CreateJobAttempt x a) s = (Inr v1, s1)"
    and a1: "run_state (must (or_fail x a (ScaleWorker x p job 1 True)) (\<lambda>_. place_job x p job a)) s1 = (Inr u, t)"
    unfolding attempt_job_def by (rule must_okE)
  from 1 have s1: "trace s1 = trace s @ [EvAttemptCreate a (Inr ())]" "executions s1 = executions s"
    by (auto simp: CreateJobAttempt_def split: prod.splits)
  from a1 obtain v2 s2 where 2: "run_state (or_fail x a (ScaleWorker x p job 1 True)) s1 = (Inr v2, s2)"
    and a2: "run_state (place_job x p job a) s2 = (Inr u, t)"
    by (rule must_okE)
  from grows_table [OF state_io_relD [OF grow_ScaleWorker or_fail_ok [OF 2]]] obtain ks where
    s2: "trace s2 = trace s1 @ ks" "list_all is_k8s_event ks" "executions s2 = executions s1" by blast
  from place_job_ok [OF a2] obtain pod i es where "trace t = trace s2 @ es" "placed_calls p job a pod i es"
    "executions t = (executions s2)(i \<mapsto> new_execution i job a pod)" by blast
  with s1 s2 placed_calls_more show ?thesis
    by (intro exI [where x = pod] exI [where x = i] exI [where x = "ks @ es"]) simp
qed

text \<open>
  The calls of an attempt that failed: its failure was recorded, with the error's text, or the
  runtime could not be dialled, after which nothing more happens.
\<close>

definition failure_recorded :: "JobAttempt \<Rightarrow> error \<Rightarrow> event list \<Rightarrow> bool" where
  "failure_recorded a e es =
     (\<exists>now r. EvAttemptUpdates (Where ''id'' (att_ID a)) (failed_attempt a e now) r \<in> set es)"

definition dial_failed :: "error \<Rightarrow> event list \<Rightarrow> bool" where
  "dial_failed e es = (\<exists>ks addr. es = ks @ [EvDial addr (Inl e)] \<and> list_all is_k8s_event ks)"

lemma failure_recorded_more: "failure_recorded a e es \<Longrightarrow> failure_recorded a e (ls @ es)"
  by (auto simp: failure_recorded_def)

lemma dial_failed_more: "list_all is_k8s_event ls \<Longrightarrow> dial_failed e es \<Longrightarrow> dial_failed e (ls @ es)"
proof -
  assume ls: "list_all is_k8s_event ls" and "dial_failed e es"
  then obtain ks addr where "list_all is_k8s_event ks" "es = ks @ [EvDial addr (Inl e)]"
    by (auto simp: dial_failed_def)
  with ls show ?thesis
    unfolding dial_failed_def by (intro exI [where x = "ls @ ks"] exI [where x = addr]) simp
qed

lemma or_fail_recorded:
  assumes "run_state (or_fail x a m) s = (Inl e, t)" "state_io_rel (grows P) m"
  shows "executions t = executions s \<and> (\<exists>es. trace t = trace s @ es \<and> failure_recorded a e es)"
proof -
  obtain u now r where u: "run_state m s = (Inl e, u)" "sys.more t = sys.more u"
    "trace t = trace u @ [EvAttemptUpdates (Where ''id'' (att_ID a)) (failed_attempt a e now) r]"
    using or_fail_error [OF assms(1)] by blast
  from grows_table [OF state_io_relD [OF assms(2) u(1)]] obtain es where
    "trace u = trace s @ es" "executions u = executions s" by blast
  with u more_executions [OF u(2)] show ?thesis
    by (intro conjI exI [where x = "es @ [EvAttemptUpdates (Where ''id'' (att_ID a)) (failed_attempt a e now) r]"])
       (auto simp: failure_recorded_def)
qed

lemma start_on_runtime_error:
  assumes "run_state (start_on_runtime x addr job a pod) s = (Inl e, t)"
  shows "executions t = executions s \<and> (\<exists>es. trace t = trace s @ es \<and> failure_recorded a e es)"
proof -
  obtain r u where run: "run_state (or_fail x a (runtime_Run x addr (run_request job a))) s = (r, u)" by fastforce
  with assms have r: "r = Inl e" by (cases r) (auto simp: start_on_runtime_def split: prod.splits)
  have "state_io_rel (grows (\<lambda>_. True)) (runtime_Run x addr (run_request job a))"
    by (simp add: runtime_Run_def grow_ext_call)
  from or_fail_recorded [OF run [unfolded r] this] obtain es where
    "executions u = executions s" "trace u = trace s @ es" "failure_recorded a e es" by blast
  moreover from assms run r obtain rc w where "t = u\<lparr>world := w, trace := trace u @ [EvClose addr rc]\<rparr>"
    by (auto simp: start_on_runtime_def runtime_Close_def split: prod.splits)
  ultimately show ?thesis
    by (intro conjI exI [where x = "es @ [EvClose addr rc]"]) (auto simp: failure_recorded_def)
qed

lemma place_job_error:
  assumes "run_state (place_job x p job a) s = (Inl e, t)"
  shows "executions t = executions s \<and> (\<exists>es. trace t = trace s @ es \<and> (failure_recorded a e es \<or> dial_failed e es))"
  using assms unfolding place_job_def
proof (cases rule: must_errorE)
  case 1
  then show ?thesis using or_fail_recorded grow_SelectPod' by blast
next
  case (2 pod s3)
  from grows_table [OF state_io_relD [OF grow_SelectPod' or_fail_ok [OF 2(1)]]] obtain ls where
    s3: "trace s3 = trace s @ ls" "list_all is_k8s_event ls" "executions s3 = executions s" by blast
  from 2(2) show ?thesis
  proof (cases rule: must_errorE)
    case 1
    then have "trace t = trace s3 @ [EvDial (runtime_addr p pod) (Inl e)]" "executions t = executions s3"
      by (auto simp: NewRuntime_def split: prod.splits)
    with s3 show ?thesis
      by (intro conjI exI [where x = "ls @ [EvDial (runtime_addr p pod) (Inl e)]"]) (auto simp: dial_failed_def)
  next
    case (2 v s4)
    then have s4: "trace s4 = trace s3 @ [EvDial (runtime_addr p pod) (Inr v)]" "executions s4 = executions s3"
      by (auto simp: NewRuntime_def split: prod.splits)
    from start_on_runtime_error [OF 2(2)] obtain es where
      "executions t = executions s4" "trace t = trace s4 @ es" "failure_recorded a e es" by blast
    with s3 s4 failure_recorded_more [OF this(3), of "ls @ [EvDial (runtime_addr p pod) (Inr v)]"] show ?thesis
      by (intro conjI exI [where x = "ls @ [EvDial (runtime_addr p pod) (Inr v)] @ es"]) auto
  qed
qed

lemma attempt_job_error:
  assumes "run_state (attempt_job x p job a) s = (Inl e, t)"
  shows "executions t = executions s \<and> (trace t = trace s @ [EvAttemptCreate a (Inl e)] \<or>
    (\<exists>es. trace t = trace s @ EvAttemptCreate a (Inr ()) # es \<and> (failure_recorded a e es \<or> dial_failed e es)))"
  using assms unfolding attempt_job_def
proof (cases rule: must_errorE)
  case 1
  then show ?thesis by (auto simp: CreateJobAttempt_def split: prod.splits)
next
  case (2 v s1)
  then have s1: "trace s1 = trace s @ [EvAttemptCreate a (Inr ())]" "executions s1 = executions s"
    by (auto simp: CreateJobAttempt_def split: prod.splits)
  from 2(2) show ?thesis
  proof (cases rule: must_errorE)
    case 1
    from or_fail_recorded [OF this grow_ScaleWorker] s1 show ?thesis by auto
  next
    case (2 v2 s2)
    from grows_table [OF state_io_relD [OF grow_ScaleWorker or_fail_ok [OF 2(1)]]] obtain ks where
      s2: "trace s2 = trace s1 @ ks" "list_all is_k8s_event ks" "executions s2 = executions s1" by blast
    from place_job_error [OF 2(2)] obtain es where "executions t = executions s2" "trace t = trace s2 @ es"
      "failure_recorded a e es \<or> dial_failed e es" by blast
    moreover from this(3) s2(2) have "failure_recorded a e (ks @ es) \<or> dial_failed e (ks @ es)"
      using failure_recorded_more dial_failed_more by blast
    moreover from \<open>trace t = trace s2 @ es\<close> s1 s2 have "trace t = trace s @ EvAttemptCreate a (Inr ()) # (ks @ es)" by simp
    ultimately show ?thesis using s1(2) s2(3) by metis
  qed
qed

subsection \<open>Properties of executeJob\<close>

definition job_query :: "string \<Rightarrow> Job result \<Rightarrow> event" where
  "job_query i r = EvJobFirst [''Worker'', ''Worker.Namespace''] (Where ''id'' i) r"

lemma executeJob_run:
  assumes "run_state (executeJob x p jm) s = (r, t)"
  obtains e u where "r = Inl e" "trace t = trace s @ [job_query (jm_JobID jm) (Inl e)]" "executions t = executions s"
  | job0 e where "r = Inl e" "trace t = trace s @ [job_query (jm_JobID jm) (Inr job0)]" "executions t = executions s"
  | job0 job i now u where "job = ApplyOverrides job0 (jm_Overrides jm)"
      "trace u = trace s @ [job_query (jm_JobID jm) (Inr job0)]" "executions u = executions s"
      "run_state (attempt_job x p job (new_attempt i job jm now)) u = (r, t)"
proof -
  obtain q s1 where q: "run_state (GetJobForExecution x (jm_JobID jm)) s = (q, s1)" by fastforce
  then have s1: "trace s1 = trace s @ [job_query (jm_JobID jm) q]" "executions s1 = executions s"
    by (auto simp: GetJobForExecution_def job_query_def split: prod.splits)
  show thesis
  proof (cases q)
    case (Inl e)
    with assms q have "r = Inl e" "t = s1" by (simp_all add: executeJob_def)
    with s1 Inl show thesis by (intro that(1)) simp_all
  next
    case (Inr job0)
    obtain i s2 where i: "run_state (NewAttemptID x) s1 = (i, s2)" by fastforce
    then have s2: "trace s2 = trace s1" "executions s2 = executions s1"
      by (auto simp: NewAttemptID_def ids_New_def time_Now_def split: prod.splits sum.splits)
    show thesis
    proof (cases i)
      case (Inl e)
      with assms q i \<open>q = Inr job0\<close> have "r = Inl e" "t = s2" by (simp_all add: executeJob_def Let_def)
      with s1 s2 \<open>q = Inr job0\<close> show thesis by (intro that(2)) simp_all
    next
      case (Inr aid)
      obtain now w where now: "x_now x (world s2) = (now, w)" by fastforce
      let ?job = "ApplyOverrides job0 (jm_Overrides jm)"
      have "run_state (attempt_job x p ?job (new_attempt aid ?job jm now)) (s2\<lparr>world := w\<rparr>) = (r, t)"
        using assms q i \<open>q = Inr job0\<close> Inr now by (simp add: executeJob_def Let_def time_Now_def)
      with s1 s2 \<open>q = Inr job0\<close> show thesis by (intro that(3) [OF refl]) simp_all
    qed
  qed
qed

lemma executeJob_started:
  assumes "run_state (executeJob x p jm) s = (Inr u, t)"
  shows "\<exists>job0 job a pod i es. job = ApplyOverrides job0 (jm_Overrides jm)
    \<and> att_JobID a = job_ID job \<and> att_Attempt a = jm_Attempt jm \<and> att_Status a = AttemptStatusRunning
    \<and> trace t = trace s @ [job_query (jm_JobID jm) (Inr job0), EvAttemptCreate a (Inr ())] @ es
    \<and> placed_calls p job a pod i es
    \<and> executions t = (executions s)(i \<mapsto> new_execution i job a pod)"
  using assms
proof (cases rule: executeJob_run)
  case (3 job0 job i now u)
  from attempt_job_ok [OF 3(4)] obtain pod j es where
    "trace t = trace u @ EvAttemptCreate (new_attempt i job jm now) (Inr ()) # es"
    "placed_calls p job (new_attempt i job jm now) pod j es"
    "executions t = (executions u)(j \<mapsto> new_execution j job (new_attempt i job jm now) pod)" by blast
  with 3 show ?thesis
    by (intro exI [where x = job0] exI [where x = job] exI [where x = "new_attempt i job jm now"]
        exI [where x = pod] exI [where x = j] exI [where x = es]) (simp add: new_attempt_def)
qed simp_all

text \<open>
  C2: A job that the dispatcher starts is started exactly once, on one pod, with the stored entrypoint,
  payload and timeout as the message overrides them, after its attempt was persisted; and it is
  registered, as pending and under the id the runtime gave, in a table otherwise unchanged.
\<close>

theorem executeJob_ok:
  assumes "run_state (executeJob x p jm) s = (Inr u, t)"
  shows "\<exists>job0 job a pod i es. job = ApplyOverrides job0 (jm_Overrides jm)
    \<and> att_JobID a = job_ID job \<and> att_Attempt a = jm_Attempt jm \<and> att_Status a = AttemptStatusRunning
    \<and> trace t = trace s @ [job_query (jm_JobID jm) (Inr job0), EvAttemptCreate a (Inr ())] @ es
    \<and> placed_calls p job a pod i es
    \<and> executions t = (executions s)(i \<mapsto> new_execution i job a pod)"
  using assms by (rule executeJob_started)

definition calm_disp :: "unit disp" where
  "calm_disp = \<lparr>world = (), trace = [], executions = Map.empty\<rparr>"

definition plain_message :: JobMessage where
  "plain_message = \<lparr>jm_JobID = ''j1'', jm_Attempt = 1, jm_Priority = 1, jm_Overrides = None\<rparr>"

lemmas execute_defs = executeJob_def Let_def attempt_job_def place_job_def or_fail_def start_on_runtime_def failAttempt_def
  GetJobForExecution_def NewAttemptID_def ids_New_def time_Now_def CreateJobAttempt_def UpdateJobAttempt_def
  NewRuntime_def runtime_Run_def runtime_Close_def put_exec_def ScaleWorker_def set_scale_def fetch_scale_def getWorker_def
  SelectPod_def rand_Intn_def pod_ready_def

theorem executeJob_ok_witness:
  "\<exists>a pod i es. trace (snd (run_state (executeJob calm_ext \<lparr>pl_env = Map.empty, pl_lower = id, pl_oor = (\<lambda>_. 0)\<rparr> plain_message) calm_disp))
      = [job_query ''j1'' (Inr sample_job), EvAttemptCreate a (Inr ())] @ es
    \<and> placed_calls \<lparr>pl_env = Map.empty, pl_lower = id, pl_oor = (\<lambda>_. 0)\<rparr> sample_job a pod i es"
proof -
  let ?p = "\<lparr>pl_env = Map.empty, pl_lower = id, pl_oor = (\<lambda>_. 0)\<rparr>"
  let ?r = "run_state (executeJob calm_ext ?p plain_message) calm_disp"
  have run: "?r = (Inr (), snd ?r)" and hd: "hd (trace (snd ?r)) = job_query ''j1'' (Inr sample_job)"
    by (simp_all add: execute_defs plain_message_def calm_ext_def calm_disp_def sample_defs to_int32_def job_query_def)
  from executeJob_ok [OF run] hd show ?thesis
    by (fastforce simp: calm_disp_def plain_message_def job_query_def)
qed

text \<open>
  C10: A job that fails to start leaves the table as it was. When its attempt row was created, the
  row is set to failed with the error's text, except when the runtime client cannot be
  created: then the row stays in status running.
\<close>

theorem executeJob_error:
  assumes "run_state (executeJob x p jm) s = (Inl e, t)"
  shows "executions t = executions s \<and> (\<exists>q es. trace t = trace s @ q # es \<and>
    (es = [] \<or> (\<exists>a. es = [EvAttemptCreate a (Inl e)]) \<or>
     (\<exists>a fs. es = EvAttemptCreate a (Inr ()) # fs \<and> (failure_recorded a e fs \<or> dial_failed e fs))))"
  using assms
proof (cases rule: executeJob_run)
  case (3 job0 job i now u)
  let ?a = "new_attempt i job jm now"
  have "executions t = executions u" using attempt_job_error [OF 3(4)] by blast
  note same = this
  from attempt_job_error [OF 3(4)] consider "trace t = trace u @ [EvAttemptCreate ?a (Inl e)]"
    | fs where "trace t = trace u @ EvAttemptCreate ?a (Inr ()) # fs" "failure_recorded ?a e fs \<or> dial_failed e fs"
    by blast
  then have "\<exists>es. trace t = trace u @ es \<and> ((\<exists>a. es = [EvAttemptCreate a (Inl e)]) \<or>
     (\<exists>a fs. es = EvAttemptCreate a (Inr ()) # fs \<and> (failure_recorded a e fs \<or> dial_failed e fs)))"
    by cases blast+
  with same show ?thesis using 3(2,3) by (metis append.assoc append_Cons append_Nil)
qed auto

definition undialable_ext :: "unit ext" where
  "undialable_ext = calm_ext\<lparr>x_grpc_dial := (\<lambda>_ w. (Inl (Error EkOther ''bad address''), w))\<rparr>"

theorem executeJob_error_witness:
  "executions (snd (run_state (executeJob undialable_ext \<lparr>pl_env = Map.empty, pl_lower = id, pl_oor = (\<lambda>_. 0)\<rparr> plain_message) calm_disp))
   = executions calm_disp"
proof -
  let ?p = "\<lparr>pl_env = Map.empty, pl_lower = id, pl_oor = (\<lambda>_. 0)\<rparr>"
  let ?r = "run_state (executeJob undialable_ext ?p plain_message) calm_disp"
  have run: "?r = (Inl (Error EkOther ''bad address''), snd ?r)"
    by (simp add: execute_defs plain_message_def undialable_ext_def calm_ext_def calm_disp_def sample_defs to_int32_def)
  from executeJob_error [OF run] show ?thesis by blast
qed

text \<open>
  C25: The runtime address of a pod with an IPv4 address is malformed: its port is written with a colon of
  its own, so splitting the address fails with too many colons.
\<close>

theorem runtime_addr_malformed:
  assumes "CHR '':'' \<notin> set (pod_IP pod)" "CHR ''%'' \<notin> set (pod_IP pod)" "take 1 (pod_IP pod) \<noteq> ''[''"
  shows "SplitHostPort (runtime_addr p pod) = Inl TooManyColons"
proof -
  have "CHR '':'' \<notin> set (itoa n)" for n
  proof -
    have "CHR '':'' \<notin> set (nat_digits k)" for k
      using nat_digits_all [of k] by (auto simp: list_all_iff is_digit_def)
    then show ?thesis by (auto simp: itoa_def int_text_def)
  qed
  then have "SplitHostPort ((pod_IP pod @ '':'') @ CHR '':'' # itoa (runtime_port p)) = Inl TooManyColons"
    using assms by (intro SplitHostPort_two_colons) (cases "pod_IP pod"; auto)+
  with assms show ?thesis by (simp add: runtime_addr_def JoinHostPort_def)
qed

theorem runtime_addr_malformed_witness:
  "runtime_addr \<lparr>pl_env = Map.empty, pl_lower = id, pl_oor = (\<lambda>_. 0)\<rparr> sample_pod = ''10.0.0.1::8083''
   \<and> SplitHostPort ''10.0.0.1::8083'' = Inl TooManyColons"
proof -
  let ?p = "\<lparr>pl_env = Map.empty, pl_lower = id, pl_oor = (\<lambda>_. 0)\<rparr>"
  have "nat_digits 8083 = ''8083''" by (simp add: nat_digits.simps)
  then have addr: "runtime_addr ?p sample_pod = ''10.0.0.1::8083''"
    by (simp add: runtime_addr_def runtime_port_def GetInt_def JoinHostPort_def sample_pod_def itoa_def int_text_def)
  with runtime_addr_malformed [of sample_pod ?p] show ?thesis by (simp add: sample_pod_def)
qed

subsection \<open>Properties of the monitor\<close>

text \<open>
  On a clock that reads the same time throughout, the monitor warns about exactly the executions
  whose last heartbeat is thirty seconds old or older, and does nothing about them.
\<close>

theorem monitor_exact:
  assumes "\<And>w. x_now x w = (now, w)"
  shows "run_state (check_executions x execs) s = (filter (heartbeat_expired now) execs, s)"
  by (induction execs) (simp_all add: time_Now_def assms)

theorem monitor_exact_witness:
  "run_state (check_executions calm_ext [\<lparr>re_ExecutionID = ''e1'', re_JobID = ''j1'', re_AttemptID = ''a1'', re_PodName = ''p1'',
      re_Status = EXECUTION_STATUS_RUNNING, re_PID = 7, re_LastHeartbeat = -30000000000\<rparr>]) calm_sys
   = ([\<lparr>re_ExecutionID = ''e1'', re_JobID = ''j1'', re_AttemptID = ''a1'', re_PodName = ''p1'',
      re_Status = EXECUTION_STATUS_RUNNING, re_PID = 7, re_LastHeartbeat = -30000000000\<rparr>], calm_sys)"
  by (subst monitor_exact [where now = 0]) (simp_all add: calm_ext_def heartbeat_expired_def time_Sub_def)

text \<open>
  An execution that was just registered and has sent no heartbeat is always reported as timed out,
  at any time since 1970: the age of its zero heartbeat saturates.
\<close>

theorem fresh_execution_expired:
  assumes "0 \<le> now"
  shows "heartbeat_expired now (new_execution i job a pod)"
  using assms by (simp add: heartbeat_expired_def time_Sub_def new_execution_def zero_time_def)

theorem fresh_execution_expired_witness:
  "heartbeat_expired 0 (new_execution ''e1'' sample_job
     (new_attempt ''a1'' sample_job plain_message 0) sample_pod)"
  by (rule fresh_execution_expired) simp

end
