(* ===== verification/GoChan.thy ===== *)
theory GoChan
  imports Prelude
begin

section \<open>Buffered channels and the counting semaphore made of one\<close>

text \<open>
  A buffered channel holds at most its capacity; a send blocks (\<open>None\<close>) when the buffer is
  full, a receive blocks when it is empty. A channel of \<open>struct{}\<close> used as in the dispatcher
  (\<open>sem <- struct{}{}\<close> to enter, \<open><-sem\<close> to leave) is a counting semaphore.
\<close>

record 'a chan =
  chan_cap :: nat
  chan_buf :: "'a list"

definition make_chan :: "nat \<Rightarrow> 'a chan" where
  "make_chan n = \<lparr>chan_cap = n, chan_buf = []\<rparr>"

definition chan_send :: "'a \<Rightarrow> 'a chan \<Rightarrow> 'a chan option" where
  "chan_send x c = (if length (chan_buf c) < chan_cap c then Some (c\<lparr>chan_buf := chan_buf c @ [x]\<rparr>) else None)"

definition chan_recv :: "'a chan \<Rightarrow> ('a \<times> 'a chan) option" where
  "chan_recv c = (case chan_buf c of [] \<Rightarrow> None | x # xs \<Rightarrow> Some (x, c\<lparr>chan_buf := xs\<rparr>))"

locale semaphore =
  fixes acquire :: "'s \<Rightarrow> 's option"
    and release :: "'s \<Rightarrow> 's option"
    and held :: "'s \<Rightarrow> nat"
    and limit :: "'s \<Rightarrow> nat"
  assumes acquire_Some: "acquire s = Some t \<Longrightarrow> held t = Suc (held s) \<and> limit t = limit s \<and> held s < limit s"
    and acquire_None: "acquire s = None \<Longrightarrow> limit s \<le> held s"
    and release_Some: "release s = Some t \<Longrightarrow> held s = Suc (held t) \<and> limit t = limit s"
    and release_None: "release s = None \<Longrightarrow> held s = 0"
begin

lemma acquire_within: "acquire s = Some t \<Longrightarrow> held t \<le> limit t"
  using acquire_Some by fastforce

lemma release_within: "held s \<le> limit s \<Longrightarrow> release s = Some t \<Longrightarrow> held t \<le> limit t"
  using release_Some by fastforce

lemma acquire_blocks_iff: "held s \<le> limit s \<Longrightarrow> acquire s = None \<longleftrightarrow> held s = limit s"
  using acquire_None [of s] acquire_Some [of s] by (cases "acquire s") auto

lemma release_unblocks: "held s \<le> limit s \<Longrightarrow> release s = Some t \<Longrightarrow> acquire t \<noteq> None"
  using acquire_None release_Some by fastforce

lemma release_possible: "0 < held s \<Longrightarrow> release s \<noteq> None"
  using release_None by fastforce

lemma no_capacity_blocks: "limit s = 0 \<Longrightarrow> acquire s = None"
  using acquire_Some [of s] by (cases "acquire s") auto

end

definition sem_acquire :: "unit chan \<Rightarrow> unit chan option" where
  "sem_acquire = chan_send ()"

definition sem_release :: "unit chan \<Rightarrow> unit chan option" where
  "sem_release c = map_option snd (chan_recv c)"

definition sem_held :: "unit chan \<Rightarrow> nat" where
  "sem_held c = length (chan_buf c)"

interpretation sem: semaphore sem_acquire sem_release sem_held chan_cap
  by unfold_locales
    (auto simp: sem_acquire_def sem_release_def sem_held_def chan_send_def chan_recv_def
      split: if_splits list.splits)

end
