(* ===== verification/Consumer.thy ===== *)
theory Consumer
  imports Dispatcher GoChan "HOL-Library.Multiset"
begin

section \<open>The job consumer as a state machine (StartJobConsumer)\<close>

text \<open>
  The consuming loop of the dispatcher together with the goroutines it starts: the loop receives a
  delivery, enters the semaphore (waiting while it is full), starts a goroutine and
  acknowledges; a goroutine leaves the semaphore when \<open>executeJob\<close> returns, with or without an error.
  One step of the relation is one such action, in any interleaving. A delivery that does not parse is
  rejected. Once its context has ended the loop may return at its next \<open>select\<close>, and
  \<open>StartJobConsumer\<close> then ends the process by a fatal log line, whatever still runs.
\<close>

datatype consumer_phase = Receiving | Entering nat JobMessage | Handled nat | Exited_process

record consumer =
  cq_queue :: "(nat \<times> JobMessage option) list" \<comment> \<open>deliveries to come: tag, decoded message\<close>
  cq_phase :: consumer_phase
  cq_sem :: "unit chan"
  cq_running :: "JobMessage list"
  cq_finished :: "JobMessage list"
  cq_settled :: "amqp_cmd list"
  cq_cancelled :: bool

text \<open>\<open>make(chan struct{}, n)\<close> panics for a negative \<open>n\<close>.\<close>

definition new_sem :: "environ \<Rightarrow> unit chan result" where
  "new_sem env =
     (let n = GetInt env ''MAX_WORKERS'' 20 in
      if sint n < 0 then Inl (Error EkPanic ''makechan: size out of range'') else Inr (make_chan (nat (sint n))))"

definition consumer_start :: "(nat \<times> JobMessage option) list \<Rightarrow> unit chan \<Rightarrow> consumer" where
  "consumer_start q s =
     \<lparr>cq_queue = q, cq_phase = Receiving, cq_sem = s, cq_running = [], cq_finished = [], cq_settled = [], cq_cancelled = False\<rparr>"

inductive consumer_step :: "consumer \<Rightarrow> consumer \<Rightarrow> bool" where
  receive: "cq_phase c = Receiving \<Longrightarrow> cq_queue c = (tag, Some m) # q \<Longrightarrow>
    consumer_step c (c\<lparr>cq_queue := q, cq_phase := Entering tag m\<rparr>)"
| reject: "cq_phase c = Receiving \<Longrightarrow> cq_queue c = (tag, None) # q \<Longrightarrow>
    consumer_step c (c\<lparr>cq_queue := q, cq_settled := cq_settled c @ [Nack tag False]\<rparr>)"
| enter: "cq_phase c = Entering tag m \<Longrightarrow> sem_acquire (cq_sem c) = Some s \<Longrightarrow>
    consumer_step c (c\<lparr>cq_sem := s, cq_running := cq_running c @ [m], cq_phase := Handled tag\<rparr>)"
| acknowledge: "cq_phase c = Handled tag \<Longrightarrow>
    consumer_step c (c\<lparr>cq_settled := cq_settled c @ [Ack tag], cq_phase := Receiving\<rparr>)"
| finish: "cq_phase c \<noteq> Exited_process \<Longrightarrow> cq_running c = xs @ m # ys \<Longrightarrow> sem_release (cq_sem c) = Some s \<Longrightarrow>
    consumer_step c (c\<lparr>cq_running := xs @ ys, cq_finished := cq_finished c @ [m], cq_sem := s\<rparr>)"
| cancel: "cq_phase c \<noteq> Exited_process \<Longrightarrow> \<not> cq_cancelled c \<Longrightarrow>
    consumer_step c (c\<lparr>cq_cancelled := True\<rparr>)"
| stop: "cq_phase c = Receiving \<Longrightarrow> cq_cancelled c \<Longrightarrow>
    consumer_step c (c\<lparr>cq_phase := Exited_process\<rparr>)"

inductive_cases consumer_stepE: "consumer_step c d"

definition consumer_reachable :: "(nat \<times> JobMessage option) list \<Rightarrow> unit chan \<Rightarrow> consumer \<Rightarrow> bool" where
  "consumer_reachable q s c = consumer_step\<^sup>*\<^sup>* (consumer_start q s) c"

lemma consumer_reach_step: "consumer_reachable q s c \<Longrightarrow> consumer_step c d \<Longrightarrow> consumer_reachable q s d"
  unfolding consumer_reachable_def by (rule rtranclp.rtrancl_into_rtrancl)

subsection \<open>Invariants\<close>

text \<open>The settlements and the jobs of a list of deliveries.\<close>

definition settle :: "nat \<times> JobMessage option \<Rightarrow> amqp_cmd" where
  "settle d = (case snd d of Some _ \<Rightarrow> Ack (fst d) | None \<Rightarrow> Nack (fst d) False)"

definition jobs_of :: "(nat \<times> JobMessage option) list \<Rightarrow> JobMessage list" where
  "jobs_of q = List.map_filter snd q"

lemma jobs_of_simps [simp]:
  "jobs_of [] = []" "jobs_of ((tag, Some m) # q) = m # jobs_of q" "jobs_of ((tag, None) # q) = jobs_of q"
  "jobs_of (q @ r) = jobs_of q @ jobs_of r"
  by (simp_all add: jobs_of_def map_filter_simps map_filter_def)

lemma settle_simps [simp]: "settle (tag, Some m) = Ack tag" "settle (tag, None) = Nack tag False"
  by (simp_all add: settle_def)

text \<open>The deliveries \<open>rs\<close> have been taken: they are settled and their jobs started, but for the one at hand.\<close>

definition received :: "consumer \<Rightarrow> (nat \<times> JobMessage option) list \<Rightarrow> bool" where
  "received c rs =
     (case cq_phase c of
        Entering tag m \<Rightarrow> (\<exists>rs0. rs = rs0 @ [(tag, Some m)] \<and> map settle rs0 = cq_settled c \<and>
          mset (jobs_of rs0) = mset (cq_running c) + mset (cq_finished c))
      | Handled tag \<Rightarrow> map settle rs = cq_settled c @ [Ack tag] \<and>
          mset (jobs_of rs) = mset (cq_running c) + mset (cq_finished c)
      | _ \<Rightarrow> map settle rs = cq_settled c \<and> mset (jobs_of rs) = mset (cq_running c) + mset (cq_finished c))"

definition consumer_inv :: "(nat \<times> JobMessage option) list \<Rightarrow> nat \<Rightarrow> consumer \<Rightarrow> bool" where
  "consumer_inv q n c =
     (sem_held (cq_sem c) = length (cq_running c) \<and> chan_cap (cq_sem c) = n \<and> length (cq_running c) \<le> n \<and>
      (cq_phase c = Exited_process \<longrightarrow> cq_cancelled c) \<and>
      (\<exists>rs. q = rs @ cq_queue c \<and> received c rs))"

lemma consumer_inv_start: "consumer_inv q n (consumer_start q (make_chan n))"
  by (simp add: consumer_inv_def consumer_start_def make_chan_def sem_held_def received_def)

lemma inv_receive:
  assumes "consumer_inv q n c" "cq_phase c = Receiving" "cq_queue c = (tag, Some m) # q'"
  shows "consumer_inv q n (c\<lparr>cq_queue := q', cq_phase := Entering tag m\<rparr>)"
proof -
  from assms obtain rs where "q = rs @ (tag, Some m) # q'" "received c rs" by (auto simp: consumer_inv_def)
  then have "received (c\<lparr>cq_queue := q', cq_phase := Entering tag m\<rparr>) (rs @ [(tag, Some m)])"
    "q = (rs @ [(tag, Some m)]) @ q'"
    using assms(2) by (simp_all add: received_def)
  with assms(1) show ?thesis unfolding consumer_inv_def by (auto intro!: exI [where x = "rs @ [(tag, Some m)]"])
qed

lemma inv_reject:
  assumes "consumer_inv q n c" "cq_phase c = Receiving" "cq_queue c = (tag, None) # q'"
  shows "consumer_inv q n (c\<lparr>cq_queue := q', cq_settled := cq_settled c @ [Nack tag False]\<rparr>)"
proof -
  from assms obtain rs where "q = rs @ (tag, None) # q'" "received c rs" by (auto simp: consumer_inv_def)
  then have "received (c\<lparr>cq_queue := q', cq_settled := cq_settled c @ [Nack tag False]\<rparr>) (rs @ [(tag, None)])"
    "q = (rs @ [(tag, None)]) @ q'"
    using assms(2) by (simp_all add: received_def)
  with assms show ?thesis unfolding consumer_inv_def by (auto intro!: exI [where x = "rs @ [(tag, None)]"])
qed

lemma inv_enter:
  assumes "consumer_inv q n c" "cq_phase c = Entering tag m" "sem_acquire (cq_sem c) = Some s"
  shows "consumer_inv q n (c\<lparr>cq_sem := s, cq_running := cq_running c @ [m], cq_phase := Handled tag\<rparr>)"
proof -
  from assms obtain rs where rs: "q = rs @ cq_queue c" "received c rs" by (auto simp: consumer_inv_def)
  then have "received (c\<lparr>cq_sem := s, cq_running := cq_running c @ [m], cq_phase := Handled tag\<rparr>) rs"
    using assms(2) by (auto simp: received_def)
  moreover have "sem_held s = Suc (sem_held (cq_sem c))" "chan_cap s = chan_cap (cq_sem c)" "sem_held s \<le> chan_cap s"
    using sem.acquire_Some [OF assms(3)] sem.acquire_within [OF assms(3)] by simp_all
  ultimately show ?thesis using assms(1) rs(1) unfolding consumer_inv_def by auto
qed

lemma inv_acknowledge:
  assumes "consumer_inv q n c" "cq_phase c = Handled tag"
  shows "consumer_inv q n (c\<lparr>cq_settled := cq_settled c @ [Ack tag], cq_phase := Receiving\<rparr>)"
  using assms by (auto simp: consumer_inv_def received_def)

lemma inv_finish:
  assumes "consumer_inv q n c" "cq_running c = xs @ m # ys" "sem_release (cq_sem c) = Some s"
  shows "consumer_inv q n (c\<lparr>cq_running := xs @ ys, cq_finished := cq_finished c @ [m], cq_sem := s\<rparr>)"
proof -
  from assms obtain rs where rs: "q = rs @ cq_queue c" "received c rs" by (auto simp: consumer_inv_def)
  then have "received (c\<lparr>cq_running := xs @ ys, cq_finished := cq_finished c @ [m], cq_sem := s\<rparr>) rs"
    using assms(2) by (auto simp: received_def split: consumer_phase.splits)
  with rs(1) show ?thesis
    using assms sem.release_Some [OF assms(3)] unfolding consumer_inv_def by auto
qed

lemma inv_cancel: "consumer_inv q n c \<Longrightarrow> consumer_inv q n (c\<lparr>cq_cancelled := True\<rparr>)"
proof -
  have "received (c\<lparr>cq_cancelled := True\<rparr>) rs = received c rs" for rs by (cases "cq_phase c") (simp_all add: received_def)
  then show "consumer_inv q n c \<Longrightarrow> consumer_inv q n (c\<lparr>cq_cancelled := True\<rparr>)" by (simp add: consumer_inv_def)
qed

lemma inv_stop:
  "consumer_inv q n c \<Longrightarrow> cq_phase c = Receiving \<Longrightarrow> cq_cancelled c \<Longrightarrow> consumer_inv q n (c\<lparr>cq_phase := Exited_process\<rparr>)"
  by (auto simp: consumer_inv_def received_def)

lemmas consumer_inv_intros = inv_receive inv_reject inv_enter inv_acknowledge inv_finish inv_cancel inv_stop

lemma consumer_inv_step: "consumer_step c d \<Longrightarrow> consumer_inv q n c \<Longrightarrow> consumer_inv q n d"
  by (erule consumer_stepE) (simp_all add: consumer_inv_intros)

lemma consumer_reachable_inv:
  assumes "consumer_reachable q (make_chan n) c"
  shows "consumer_inv q n c"
proof -
  have "consumer_step\<^sup>*\<^sup>* (consumer_start q (make_chan n)) c" using assms by (simp add: consumer_reachable_def)
  then show ?thesis by induction (simp_all add: consumer_inv_start consumer_inv_step)
qed

subsection \<open>Progress\<close>

definition phase_weight :: "consumer_phase \<Rightarrow> nat" where
  "phase_weight ph = (case ph of Receiving \<Rightarrow> 1 | Entering _ _ \<Rightarrow> 4 | Handled _ \<Rightarrow> 2 | Exited_process \<Rightarrow> 0)"

definition work_left :: "consumer \<Rightarrow> nat" where
  "work_left c =
     4 * length (cq_queue c) + phase_weight (cq_phase c) + length (cq_running c) + (if cq_cancelled c then 0 else 1)"

lemma work_left_step: "consumer_step c d \<Longrightarrow> work_left d < work_left c"
  by (erule consumer_stepE) (simp_all add: work_left_def phase_weight_def)

text \<open>A step of the consumer itself, not the end of its context.\<close>

definition consumer_acts :: "consumer \<Rightarrow> consumer \<Rightarrow> bool" where
  "consumer_acts c d = (consumer_step c d \<and> cq_cancelled d = cq_cancelled c)"

lemma consumer_actsI: "consumer_step c d \<Longrightarrow> cq_cancelled d = cq_cancelled c \<Longrightarrow> consumer_acts c d"
  by (simp add: consumer_acts_def)

lemma consumer_stuck:
  assumes inv: "consumer_inv q n c" and n: "0 < n" and stuck: "\<And>d. \<not> consumer_acts c d"
  shows "cq_phase c = Exited_process \<or> cq_queue c = [] \<and> cq_phase c = Receiving \<and> cq_running c = []"
proof (cases "cq_phase c = Exited_process")
  case False
  have running: "cq_running c = []"
  proof (rule ccontr)
    assume "cq_running c \<noteq> []"
    then obtain m ys where r: "cq_running c = [] @ m # ys" by (cases "cq_running c") auto
    with inv have "0 < sem_held (cq_sem c)" by (simp add: consumer_inv_def)
    then obtain s where "sem_release (cq_sem c) = Some s" using sem.release_possible by blast
    from consumer_actsI [OF consumer_step.finish [OF False r this]] stuck show False by simp
  qed
  have phase: "cq_phase c = Receiving"
  proof (cases "cq_phase c")
    case (Entering tag m)
    have "sem_held (cq_sem c) = 0" "chan_cap (cq_sem c) = n" using inv running by (simp_all add: consumer_inv_def)
    with n obtain s where "sem_acquire (cq_sem c) = Some s"
      using sem.acquire_None [of "cq_sem c"] by (cases "sem_acquire (cq_sem c)") auto
    from consumer_actsI [OF consumer_step.enter [OF Entering this]] stuck show ?thesis by simp
  next
    case (Handled tag)
    from consumer_actsI [OF consumer_step.acknowledge [OF this]] stuck show ?thesis by simp
  qed (use False in simp_all)
  have "cq_queue c = []"
  proof (cases "cq_queue c")
    case (Cons d q')
    obtain tag mo where d: "d = (tag, mo)" by fastforce
    show ?thesis
    proof (cases mo)
      case None
      with Cons d have "cq_queue c = (tag, None) # q'" by simp
      from consumer_actsI [OF consumer_step.reject [OF phase this]] stuck show ?thesis by simp
    next
      case (Some m)
      with Cons d have "cq_queue c = (tag, Some m) # q'" by simp
      from consumer_actsI [OF consumer_step.receive [OF phase this]] stuck show ?thesis by simp
    qed
  qed
  with running phase show ?thesis by simp
qed simp

subsection \<open>The program and its runs\<close>

text \<open>
  \<open>StartJobConsumer\<close> itself: the handler it gives to \<open>ConsumeJobs\<close> always returns nil, the semaphore and the
  goroutines being the machine's part. The result is \<open>Inr\<close> while it waits for more.
\<close>

definition StartJobConsumer :: "'w ext \<Rightarrow> json_ops \<Rightarrow> mq_item list \<Rightarrow> (('w, 'z) sys_scheme, unit result) state" where
  "StartJobConsumer x jo items = do {
     r \<leftarrow> ConsumeJobs x jo (\<lambda>jm. ok ()) items;
     (case r of None \<Rightarrow> ok () | Some err \<Rightarrow> log_Fatal ''job consumer stopped'' (Some err))
   }"

text \<open>The deliveries the loop receives before its context ends, decoded, and whether it ends.\<close>

fun deliveries :: "json_ops \<Rightarrow> mq_item list \<Rightarrow> (nat \<times> JobMessage option) list" where
  "deliveries jo [] = []"
| "deliveries jo (MqDone err # items) = []"
| "deliveries jo (MqClosed # items) = deliveries jo items"
| "deliveries jo (MqDelivery tag body # items) = (tag, Option.bind body (decode_message jo)) # deliveries jo items"

text \<open>The machine between two deliveries, every job so far finished.\<close>

definition idle ::
  "(nat \<times> JobMessage option) list \<Rightarrow> nat \<Rightarrow> JobMessage list \<Rightarrow> amqp_cmd list \<Rightarrow> consumer" where
  "idle q n fin settled =
     \<lparr>cq_queue = q, cq_phase = Receiving, cq_sem = make_chan n, cq_running = [], cq_finished = fin,
      cq_settled = settled, cq_cancelled = False\<rparr>"

lemma idle_job:
  assumes "0 < n"
  shows "consumer_step\<^sup>*\<^sup>* (idle ((tag, Some m) # q) n fin settled) (idle q n (fin @ [m]) (settled @ [Ack tag]))"
proof -
  let ?c0 = "idle ((tag, Some m) # q) n fin settled"
  let ?c1 = "?c0\<lparr>cq_queue := q, cq_phase := Entering tag m\<rparr>"
  let ?s = "\<lparr>chan_cap = n, chan_buf = [()]\<rparr>"
  let ?c2 = "?c1\<lparr>cq_sem := ?s, cq_running := cq_running ?c1 @ [m], cq_phase := Handled tag\<rparr>"
  let ?c3 = "?c2\<lparr>cq_settled := cq_settled ?c2 @ [Ack tag], cq_phase := Receiving\<rparr>"
  let ?c4 = "?c3\<lparr>cq_running := [] @ [], cq_finished := cq_finished ?c3 @ [m], cq_sem := make_chan n\<rparr>"
  have "consumer_step ?c0 ?c1" by (rule consumer_step.receive) (simp_all add: idle_def)
  moreover have "consumer_step ?c1 ?c2"
    using assms by (intro consumer_step.enter) (simp_all add: idle_def sem_acquire_def chan_send_def make_chan_def)
  moreover have "consumer_step ?c2 ?c3" by (rule consumer_step.acknowledge) simp
  moreover have "consumer_step ?c3 ?c4"
    by (rule consumer_step.finish) (simp_all add: idle_def sem_release_def chan_recv_def make_chan_def)
  ultimately have "consumer_step\<^sup>*\<^sup>* ?c0 ?c4" by (meson converse_rtranclp_into_rtranclp rtranclp.rtrancl_refl)
  then show ?thesis by (simp add: idle_def)
qed

lemma idle_reject: "consumer_step (idle ((tag, None) # q) n fin settled) (idle q n fin (settled @ [Nack tag False]))"
  using consumer_step.reject [of "idle ((tag, None) # q) n fin settled" tag q] by (simp add: idle_def)

lemma idle_run:
  assumes "0 < n"
  shows "consumer_step\<^sup>*\<^sup>* (idle (ds @ q) n fin settled) (idle q n (fin @ jobs_of ds) (settled @ map settle ds))"
proof (induction ds arbitrary: fin settled)
  case (Cons d ds)
  obtain tag mo where d: "d = (tag, mo)" by fastforce
  show ?case
  proof (cases mo)
    case None
    with idle_reject Cons.IH [of fin "settled @ [Nack tag False]"] d show ?thesis
      by (metis (no_types, lifting) append_Cons append_Nil append_assoc converse_rtranclp_into_rtranclp
          jobs_of_simps(3) list.simps(9) settle_simps(2))
  next
    case (Some m)
    from Cons.IH [of "fin @ [m]" "settled @ [Ack tag]"]
    have "consumer_step\<^sup>*\<^sup>* (idle (ds @ q) n (fin @ [m]) (settled @ [Ack tag]))
      (idle q n (fin @ jobs_of (d # ds)) (settled @ map settle (d # ds)))" using d Some by simp
    with idle_job [OF assms, of tag m "ds @ q" fin settled] d Some show ?thesis
      by (metis append_Cons rtranclp_trans)
  qed
qed simp

text \<open>The settlements the loop makes, in order, whatever the broker answers.\<close>

definition made :: "amqp_cmd \<Rightarrow> event \<Rightarrow> bool" where
  "made c ev = (\<exists>r. ev = EvAmqp c r)"

lemma consume_loop_run:
  assumes "run_state (consume_loop x jo (\<lambda>jm. ok ()) items) s = (r, t)"
  shows "\<exists>es. trace t = trace s @ es \<and> list_all2 made (map settle (deliveries jo items)) es
    \<and> (r = None \<longleftrightarrow> (\<forall>err. MqDone err \<notin> set items))"
  using assms
proof (induction items arbitrary: s)
  case (Cons i items)
  show ?case
  proof (cases i)
    case (MqDelivery tag body)
    let ?mo = "Option.bind body (decode_message jo)"
    obtain a w where call: "x_amqp x (settle (tag, ?mo)) (world s) = (a, w)" by fastforce
    let ?u = "s\<lparr>world := w, trace := trace s @ [EvAmqp (settle (tag, ?mo)) a]\<rparr>"
    from Cons.prems MqDelivery call have "run_state (consume_loop x jo (\<lambda>jm. ok ()) items) ?u = (r, t)"
      by (cases ?mo) (simp_all add: settle_delivery_def)
    from Cons.IH [OF this] obtain es where "trace t = trace ?u @ es" "list_all2 made (map settle (deliveries jo items)) es"
      "r = None \<longleftrightarrow> (\<forall>err. MqDone err \<notin> set items)" by blast
    moreover have "made (settle (tag, ?mo)) (EvAmqp (settle (tag, ?mo)) a)" by (simp add: made_def)
    ultimately show ?thesis using MqDelivery
      by (intro exI [where x = "EvAmqp (settle (tag, ?mo)) a # es"]) auto
  next
    case MqClosed
    with Cons show ?thesis by fastforce
  next
    case (MqDone err)
    with Cons.prems show ?thesis by auto
  qed
qed simp



subsection \<open>Properties\<close>


text \<open>A run with one place: the message is acknowledged while its job still runs.\<close>

definition busy :: consumer where
  "busy = \<lparr>cq_queue = [], cq_phase = Receiving, cq_sem = \<lparr>chan_cap = 1, chan_buf = [()]\<rparr>,
      cq_running = [plain_message], cq_finished = [], cq_settled = [Ack 1], cq_cancelled = False\<rparr>"

lemma sample_run: "consumer_reachable [(1, Some plain_message)] (make_chan 1) busy"
proof -
  let ?c0 = "consumer_start [(1, Some plain_message)] (make_chan 1)"
  let ?c1 = "?c0\<lparr>cq_queue := [], cq_phase := Entering 1 plain_message\<rparr>"
  let ?s = "\<lparr>chan_cap = 1, chan_buf = [()]\<rparr>"
  let ?c2 = "?c1\<lparr>cq_sem := ?s, cq_running := cq_running ?c1 @ [plain_message], cq_phase := Handled 1\<rparr>"
  let ?c3 = "?c2\<lparr>cq_settled := cq_settled ?c2 @ [Ack 1], cq_phase := Receiving\<rparr>"
  have "consumer_step ?c0 ?c1" by (rule consumer_step.receive) (simp_all add: consumer_start_def)
  moreover have "consumer_step ?c1 ?c2"
    by (rule consumer_step.enter)
       (simp_all add: consumer_start_def sem_acquire_def chan_send_def make_chan_def)
  moreover have "consumer_step ?c2 ?c3" by (rule consumer_step.acknowledge) simp
  ultimately have "consumer_step\<^sup>*\<^sup>* ?c0 ?c3" by (meson converse_rtranclp_into_rtranclp rtranclp.rtrancl_refl)
  then show ?thesis by (simp add: consumer_reachable_def consumer_start_def make_chan_def busy_def)
qed




text \<open>
  C38: Stopping the dispatcher loses jobs: once its context has ended, the loop at its \<open>select\<close> may end the process
  whatever is running; from then on nothing happens, and the jobs still running, whose deliveries
  are all acknowledged already, never finish and are never delivered again.
\<close>

theorem consumer_exit_loses:
  assumes "consumer_reachable q (make_chan n) c" "cq_phase c = Receiving" "cq_cancelled c"
  shows "consumer_step c (c\<lparr>cq_phase := Exited_process\<rparr>) \<and> (\<forall>d. \<not> consumer_step (c\<lparr>cq_phase := Exited_process\<rparr>) d)
    \<and> (\<exists>rs. q = rs @ cq_queue c \<and> cq_settled c = map settle rs
        \<and> mset (jobs_of rs) = mset (cq_running c) + mset (cq_finished c))"
proof (intro conjI)
  show "consumer_step c (c\<lparr>cq_phase := Exited_process\<rparr>)" using assms(2,3) by (rule consumer_step.stop)
  show "\<forall>d. \<not> consumer_step (c\<lparr>cq_phase := Exited_process\<rparr>) d" by (auto elim!: consumer_stepE)
  show "\<exists>rs. q = rs @ cq_queue c \<and> cq_settled c = map settle rs
      \<and> mset (jobs_of rs) = mset (cq_running c) + mset (cq_finished c)"
    using consumer_reachable_inv [OF assms(1)] assms(2) by (auto simp: consumer_inv_def received_def)
qed

theorem consumer_exit_loses_witness:
  "\<exists>c. consumer_reachable [(1, Some plain_message)] (make_chan 1) c \<and> cq_running c = [plain_message]
     \<and> cq_settled c = [Ack 1] \<and> (\<forall>d. \<not> consumer_step c d)"
proof -
  let ?c = "busy\<lparr>cq_cancelled := True\<rparr>"
  have "consumer_step busy ?c" by (rule consumer_step.cancel) (simp_all add: busy_def)
  with sample_run have c: "consumer_reachable [(1, Some plain_message)] (make_chan 1) ?c" by (rule consumer_reach_step)
  from consumer_exit_loses [OF c] consumer_reach_step [OF c]
  show ?thesis by (intro exI [where x = "?c\<lparr>cq_phase := Exited_process\<rparr>"]) (auto simp: busy_def)
qed

text \<open>
  With \<open>MAX_WORKERS\<close> set to 0 the dispatcher takes one delivery that parses and then waits for
  ever: no job is started and nothing is acknowledged.
\<close>

theorem consumer_no_room:
  assumes "new_sem env = Inr s" "GetInt env ''MAX_WORKERS'' 20 = 0" "consumer_reachable q s c"
  shows "cq_running c = [] \<and> cq_finished c = [] \<and> list_all (\<lambda>a. case a of Nack _ _ \<Rightarrow> True | _ \<Rightarrow> False) (cq_settled c)
    \<and> length (jobs_of q) \<le> Suc (length (jobs_of (cq_queue c)))"
proof -
  from assms(1,2) have s: "s = make_chan 0" by (simp add: new_sem_def)
  have "consumer_step\<^sup>*\<^sup>* (consumer_start q (make_chan 0)) c" using assms(3) s by (simp add: consumer_reachable_def)
  then have "cq_running c = [] \<and> cq_finished c = [] \<and> chan_cap (cq_sem c) = 0 \<and>
    list_all (\<lambda>a. case a of Nack _ _ \<Rightarrow> True | _ \<Rightarrow> False) (cq_settled c) \<and>
    (case cq_phase c of Entering tag m \<Rightarrow> jobs_of q = m # jobs_of (cq_queue c) | Handled _ \<Rightarrow> False
     | _ \<Rightarrow> jobs_of q = jobs_of (cq_queue c))"
  proof induction
    case base
    show ?case by (simp add: consumer_start_def make_chan_def)
  next
    case (step c d)
    from step(2,3) show ?case by cases (auto simp: sem.no_capacity_blocks split: consumer_phase.splits)
  qed
  then show ?thesis by (auto split: consumer_phase.splits)
qed

theorem consumer_no_room_witness:
  "\<exists>c. consumer_step (consumer_start [(1, Some plain_message)] (make_chan 0)) c \<and> cq_settled c = [] \<and> cq_running c = []"
proof -
  let ?env = "[''MAX_WORKERS'' \<mapsto> itoa 0]"
  let ?c0 = "consumer_start [(1, Some plain_message)] (make_chan 0)"
  let ?c1 = "?c0\<lparr>cq_queue := [], cq_phase := Entering 1 plain_message\<rparr>"
  have zero: "GetInt ?env ''MAX_WORKERS'' 20 = 0" by (rule GetInt_itoa) simp
  then have sem: "new_sem ?env = Inr (make_chan 0)" by (simp add: new_sem_def)
  have step: "consumer_step ?c0 ?c1" by (rule consumer_step.receive) (simp_all add: consumer_start_def)
  then have "consumer_reachable [(1, Some plain_message)] (make_chan 0) ?c1" by (simp add: consumer_reachable_def)
  from consumer_no_room [OF sem zero this] step show ?thesis
    by (intro exI [where x = ?c1]) (simp add: consumer_start_def)
qed

end
