(* ===== verification/Runtime.thy ===== *)
theory Runtime
  imports Samples Registry
begin

section \<open>The runtime service (services/runtime/server)\<close>

text \<open>
  The agent beside a worker's container: \<open>Run\<close> registers an execution and starts a goroutine
  that runs the user's process (\<open>execute\<close>), and a loop reports the running executions to the
  dispatcher. Where the goroutine waits in a \<open>select\<close>, what it receives is an argument.
\<close>

record Execution =
  ex_ID :: string
  ex_JobID :: string
  ex_AttemptID :: string
  ex_Status :: execution_status
  ex_PID :: int64
  ex_StartedAt :: time
  ex_FinishedAt :: "time option"
  ex_Result :: "byte list"
  ex_Error :: string

record 'w rt = "'w sys" +
  rt_executions :: "string \<rightharpoonup> Execution"

definition rt_put :: "string \<Rightarrow> Execution \<Rightarrow> ('w, 'z) rt_scheme \<Rightarrow> ('w, 'z) rt_scheme" where
  "rt_put i e s = s\<lparr>rt_executions := (rt_executions s)(i \<mapsto> e)\<rparr>"

definition rt_delete :: "string \<Rightarrow> ('w, 'z) rt_scheme \<Rightarrow> ('w, 'z) rt_scheme" where
  "rt_delete i s = s\<lparr>rt_executions := (rt_executions s)(i := None)\<rparr>"

interpretation rt_table: removable "\<lambda>i s. rt_executions s i" rt_put rt_delete
  by unfold_locales (simp_all add: rt_put_def rt_delete_def)

text \<open>An assignment to a field of the execution that the goroutine holds.\<close>

definition update_exec :: "string \<Rightarrow> (Execution \<Rightarrow> Execution) \<Rightarrow> (('w, 'z) rt_scheme, unit) state" where
  "update_exec i f = modify (rt_table.change i f)"

subsection \<open>Run (grpc.go)\<close>

definition new_exec :: "string \<Rightarrow> RunRequest \<Rightarrow> time \<Rightarrow> Execution" where
  "new_exec i req now =
     \<lparr>ex_ID = i, ex_JobID = rr_JobId req, ex_AttemptID = rr_AttemptId req, ex_Status = EXECUTION_STATUS_PENDING,
      ex_PID = 0, ex_StartedAt = now, ex_FinishedAt = None, ex_Result = [], ex_Error = []\<rparr>"

definition Run :: "'w ext \<Rightarrow> RunRequest \<Rightarrow> (('w, 'z) rt_scheme, string result) state" where
  "Run x req =
     must (NewExecutionID x) (\<lambda>executionID. do {
       now \<leftarrow> time_Now x;
       modify (rt_put executionID (new_exec executionID req now));
       ok executionID
     })"

subsection \<open>The process (execution.go)\<close>

definition command_of :: "string list \<Rightarrow> RunRequest \<Rightarrow> string \<Rightarrow> string list \<Rightarrow> command" where
  "command_of environ0 req name args =
     \<lparr>cmd_Name = name, cmd_Args = args,
      cmd_Env = environ0 @ [''WARDU_JOB_ID='' @ rr_JobId req, ''WARDU_ATTEMPT_ID='' @ rr_AttemptId req,
                           ''WARDU_PAYLOAD='' @ b64_encode (rr_Payload req)]\<rparr>"

text \<open>
  Indexing an empty entrypoint panics, the outer \<open>Inl\<close>. Opening the two pipes and starting are one
  call here; each of them fails by returning its error.
\<close>

definition startProcess :: "'w ext \<Rightarrow> string list \<Rightarrow> RunRequest \<Rightarrow> (('w, 'z) sys_scheme, int64 result result) state" where
  "startProcess x environ0 req =
     (case rr_Entrypoint req of
        [] \<Rightarrow> fail (Error EkPanic ''index out of range [0] with length 0'')
      | name # args \<Rightarrow>
          (let cmd = command_of environ0 req name args in
           do { r \<leftarrow> ext_call (x_start x cmd) (EvStart cmd); ok r }))"

definition run_timeout :: "(float32 \<Rightarrow> int64) \<Rightarrow> RunRequest \<Rightarrow> duration" where
  "run_timeout oor req = f32_to_int64 oor (rr_TimeoutSeconds req) * second"

text \<open>The deadline of the wait: none when the product is not positive.\<close>

definition run_deadline :: "(float32 \<Rightarrow> int64) \<Rightarrow> RunRequest \<Rightarrow> duration option" where
  "run_deadline oor req = (if positive (run_timeout oor req) then Some (run_timeout oor req) else None)"

text \<open>
  What ends the wait: the process (with the error of \<open>cmd.Wait\<close>), or the context (with its
  error); after the context, whether the process ends within ten seconds of the SIGTERM.
\<close>

datatype exec_end = Exited "error option" | CtxEnded error bool

definition signal_process :: "'w ext \<Rightarrow> int64 \<Rightarrow> string \<Rightarrow> (('w, 'z) sys_scheme, unit) state" where
  "signal_process x pid sig = do { _ \<leftarrow> ext_call (x_signal x pid sig) (EvSignal pid sig); ret () }"

definition wait_process :: "'w ext \<Rightarrow> string \<Rightarrow> int64 \<Rightarrow> exec_end \<Rightarrow> (('w, 'z) rt_scheme, unit) state" where
  "wait_process x i pid ending =
     (case ending of
        Exited err \<Rightarrow> do {
          now \<leftarrow> time_Now x;
          update_exec i (\<lambda>e. e\<lparr>ex_FinishedAt := Some now\<rparr>);
          (case err of
             Some e \<Rightarrow> update_exec i (\<lambda>ex. ex\<lparr>ex_Status := EXECUTION_STATUS_FAILED, ex_Error := error_text e\<rparr>)
           | None \<Rightarrow> update_exec i (\<lambda>ex. ex\<lparr>ex_Status := EXECUTION_STATUS_SUCCEEDED\<rparr>))
        }
      | CtxEnded ctx_err exits \<Rightarrow> do {
          signal_process x pid ''SIGTERM'';
          (if exits then ret () else signal_process x pid ''SIGKILL'');
          now \<leftarrow> time_Now x;
          update_exec i (\<lambda>e. e\<lparr>ex_FinishedAt := Some now\<rparr>);
          update_exec i (\<lambda>e. e\<lparr>ex_Status := EXECUTION_STATUS_FAILED, ex_Error := error_text ctx_err\<rparr>)
        })"

text \<open>
  \<open>execute\<close> in three parts: marking the execution as running, the process, and the deferred
  removal, which also runs on a panic; a panic (\<open>Inl\<close>) ends the service.
\<close>

definition begin_execution :: "'w ext \<Rightarrow> string \<Rightarrow> (('w, 'z) rt_scheme, unit) state" where
  "begin_execution x i = do {
     update_exec i (\<lambda>e. e\<lparr>ex_Status := EXECUTION_STATUS_RUNNING\<rparr>);
     now \<leftarrow> time_Now x;
     update_exec i (\<lambda>e. e\<lparr>ex_StartedAt := now\<rparr>)
   }"

definition run_process ::
  "'w ext \<Rightarrow> string list \<Rightarrow> string \<Rightarrow> RunRequest \<Rightarrow> exec_end \<Rightarrow> (('w, 'z) rt_scheme, unit result) state" where
  "run_process x environ0 i req ending =
     must (startProcess x environ0 req) (\<lambda>started. do {
       (case started of
          Inl err \<Rightarrow> update_exec i (\<lambda>e. e\<lparr>ex_Status := EXECUTION_STATUS_FAILED, ex_Error := error_text err\<rparr>)
        | Inr pid \<Rightarrow> do {
            update_exec i (\<lambda>e. e\<lparr>ex_PID := pid\<rparr>);
            wait_process x i pid ending
          });
       ok ()
     })"

definition execute ::
  "'w ext \<Rightarrow> string list \<Rightarrow> string \<Rightarrow> RunRequest \<Rightarrow> exec_end \<Rightarrow> (('w, 'z) rt_scheme, unit result) state" where
  "execute x environ0 i req ending = do {
     begin_execution x i;
     r \<leftarrow> run_process x environ0 i req ending;
     modify (rt_delete i);
     ret r
   }"

subsection \<open>Reporting (grpc.go)\<close>

definition heartbeat_of :: "Execution \<Rightarrow> time \<Rightarrow> HeartbeatRequest" where
  "heartbeat_of exec now =
     \<lparr>hb_ExecutionId = ex_ID exec, hb_JobId = ex_JobID exec, hb_AttemptId = ex_AttemptID exec,
      hb_Status = ex_Status exec, hb_Pid = ex_PID exec, hb_UnixTime = word_of_int (now div 1000000000)\<rparr>"

text \<open>
  One tick. The loop loads the status of an execution twice, once to skip it and once for the message,
  and the goroutine of the execution may store to it in between: an entry of the walk is the
  execution as the check finds it and as the message finds it. Which walks there are is the theory
  RuntimeMachine.
\<close>

type_synonym walk = "(Execution \<times> Execution) list"

fun send_heartbeats :: "'w ext \<Rightarrow> walk \<Rightarrow> (('w, 'z) sys_scheme, unit result) state" where
  "send_heartbeats x [] = ok ()"
| "send_heartbeats x ((checked, exec) # walk) =
     (if ex_Status checked \<noteq> EXECUTION_STATUS_RUNNING then send_heartbeats x walk
      else do {
        now \<leftarrow> time_Now x;
        must (ext_call (x_hb_send x (heartbeat_of exec now)) (EvHbSend (heartbeat_of exec now)))
          (\<lambda>_. send_heartbeats x walk)
      })"

text \<open>What the loop receives: a tick, with what its walk finds, or the end of the context.\<close>

datatype tick = Tick walk | TickDone error

fun heartbeat_ticks :: "'w ext \<Rightarrow> tick list \<Rightarrow> (('w, 'z) sys_scheme, error option) state" where
  "heartbeat_ticks x [] = ret None"
| "heartbeat_ticks x (TickDone err # ticks) = ret (Some err)"
| "heartbeat_ticks x (Tick walk # ticks) =
     catch (send_heartbeats x walk) (\<lambda>err. ret (Some err)) (\<lambda>_. heartbeat_ticks x ticks)"

text \<open>The error it returns, \<open>None\<close> while it goes on.\<close>

definition heartbeatLoop :: "'w ext \<Rightarrow> tick list \<Rightarrow> (('w, 'z) sys_scheme, error option) state" where
  "heartbeatLoop x ticks =
     catch (ext_call (x_hb_open x) EvHbOpen) (\<lambda>err. ret (Some err)) (\<lambda>_. heartbeat_ticks x ticks)"

text \<open>
  \<open>startHeartbeatLoop\<close> over its rounds: whether the context has an error when the round begins, and
  what the stream of the round receives. The result tells whether the function has returned.
\<close>

fun startHeartbeatLoop :: "'w ext \<Rightarrow> (bool \<times> tick list) list \<Rightarrow> (('w, 'z) sys_scheme, bool) state" where
  "startHeartbeatLoop x [] = ret False"
| "startHeartbeatLoop x ((ctx_done, ticks) # rounds) =
     (if ctx_done then ret True
      else do {
        r \<leftarrow> heartbeatLoop x ticks;
        (case r of None \<Rightarrow> ret False | Some err \<Rightarrow> startHeartbeatLoop x rounds)
      })"

subsection \<open>The table\<close>

lemma rt_change: "rt_executions (rt_table.change i f s) = (rt_executions s)(i := map_option f (rt_executions s i))"
  by (auto simp: fun_eq_iff rt_table.look_change)

lemma change_frame: "trace (rt_table.change i f s) = trace s" "world (rt_table.change i f s) = world s"
  by (simp_all add: rt_table.change_def rt_put_def split: option.split)

lemma run_update_exec [simp]: "run_state (update_exec i f) s = ((), rt_table.change i f s)"
  by (simp add: update_exec_def)

lemmas rt_simps = rt_change change_frame

text \<open>
  \<open>Run\<close> registers the request as a pending execution under the id it returns, leaves every other
  execution alone and calls nothing.
\<close>

theorem Run_registers:
  assumes "run_state (Run x req) s = (Inr i, t)"
  shows "trace t = trace s \<and> (\<exists>now. rt_executions t = (rt_executions s)(i \<mapsto> new_exec i req now))"
  using assms
  by (auto simp: Run_def NewExecutionID_def ids_New_def time_Now_def rt_put_def split: prod.splits sum.splits)

definition calm_rt :: "unit rt" where
  "calm_rt = \<lparr>world = (), trace = [], rt_executions = Map.empty\<rparr>"

definition sample_run_req :: RunRequest where
  "sample_run_req = \<lparr>rr_JobId = ''j1'', rr_AttemptId = ''a1'', rr_Entrypoint = [''run''], rr_Payload = [1, 2, 3], rr_TimeoutSeconds = 0\<rparr>"

theorem Run_registers_witness:
  "\<exists>now. rt_executions (snd (run_state (Run calm_ext sample_run_req) calm_rt)) = [''id1'' \<mapsto> new_exec ''id1'' sample_run_req now]"
proof -
  let ?r = "run_state (Run calm_ext sample_run_req) calm_rt"
  have "?r = (Inr ''id1'', snd ?r)"
    by (simp add: Run_def NewExecutionID_def ids_New_def time_Now_def calm_ext_def)
  from Run_registers [OF this] show ?thesis by (simp add: calm_rt_def)
qed

subsection \<open>What an execution ends as\<close>

definition signals :: "exec_end \<Rightarrow> string list" where
  "signals ending = (case ending of Exited _ \<Rightarrow> [] | CtxEnded _ exits \<Rightarrow> if exits then [''SIGTERM''] else [''SIGTERM'', ''SIGKILL''])"

definition end_status :: "exec_end \<Rightarrow> execution_status" where
  "end_status ending = (case ending of Exited None \<Rightarrow> EXECUTION_STATUS_SUCCEEDED | _ \<Rightarrow> EXECUTION_STATUS_FAILED)"

definition end_error :: "exec_end \<Rightarrow> string \<Rightarrow> string" where
  "end_error ending old = (case ending of Exited None \<Rightarrow> old | Exited (Some e) \<Rightarrow> error_text e | CtxEnded e _ \<Rightarrow> error_text e)"

definition is_signal :: "int64 \<Rightarrow> string \<Rightarrow> event \<Rightarrow> bool" where
  "is_signal pid sig ev = (\<exists>r. ev = EvSignal pid sig r)"

lemma wait_process_run:
  assumes "rt_executions s i = Some e"
  shows "\<exists>now es. rt_executions (snd (run_state (wait_process x i pid ending) s)) =
      (rt_executions s)(i \<mapsto> e\<lparr>ex_FinishedAt := Some now, ex_Status := end_status ending, ex_Error := end_error ending (ex_Error e)\<rparr>)
    \<and> trace (snd (run_state (wait_process x i pid ending) s)) = trace s @ es \<and> list_all2 (is_signal pid) (signals ending) es"
proof (cases ending)
  case (Exited err)
  with assms show ?thesis
    by (cases err) (auto simp: wait_process_def time_Now_def end_status_def end_error_def signals_def rt_simps split: prod.split)
next
  case (CtxEnded er exits)
  with assms show ?thesis
    by (cases exits) (auto simp: wait_process_def signal_process_def time_Now_def end_status_def end_error_def signals_def
        is_signal_def rt_simps split: prod.split)
qed

text \<open>
  The three ways the process part of an execution ends, with the calls it made: it panics on an
  empty entrypoint, the process does not start, or the process ran.
\<close>

definition process_outcome ::
  "string list \<Rightarrow> RunRequest \<Rightarrow> exec_end \<Rightarrow> unit result \<Rightarrow> Execution \<Rightarrow> Execution \<Rightarrow> event list \<Rightarrow> bool" where
  "process_outcome environ0 req ending r e e' es =
     (case rr_Entrypoint req of
        [] \<Rightarrow> r = Inl (Error EkPanic ''index out of range [0] with length 0'') \<and> es = [] \<and> e' = e
      | name # args \<Rightarrow> r = Inr () \<and> (\<exists>rs rest. es = EvStart (command_of environ0 req name args) rs # rest \<and>
          (case rs of
             Inl err \<Rightarrow> rest = [] \<and> e' = e\<lparr>ex_Status := EXECUTION_STATUS_FAILED, ex_Error := error_text err\<rparr>
           | Inr pid \<Rightarrow> list_all2 (is_signal pid) (signals ending) rest \<and>
               (\<exists>now. e' = e\<lparr>ex_PID := pid, ex_FinishedAt := Some now, ex_Status := end_status ending,
                  ex_Error := end_error ending (ex_Error e)\<rparr>))))"

lemma startProcess_run:
  "rr_Entrypoint req = name # args \<Longrightarrow> \<exists>rs w. run_state (startProcess x environ0 req) s =
     (Inr rs, s\<lparr>world := w, trace := trace s @ [EvStart (command_of environ0 req name args) rs]\<rparr>)"
  by (auto simp: startProcess_def Let_def split: prod.split)

lemma run_process_run:
  assumes e: "rt_executions s i = Some e" and run: "run_state (run_process x environ0 i req ending) s = (r, t)"
  shows "\<exists>e' es. rt_executions t = (rt_executions s)(i \<mapsto> e') \<and> trace t = trace s @ es
    \<and> process_outcome environ0 req ending r e e' es"
proof (cases "rr_Entrypoint req")
  case Nil
  with run have "r = Inl (Error EkPanic ''index out of range [0] with length 0'')" "t = s"
    by (simp_all add: run_process_def startProcess_def)
  with e Nil show ?thesis
    by (intro exI [where x = e] exI [where x = "[]"]) (simp add: process_outcome_def fun_upd_idem)
next
  case (Cons name args)
  let ?cmd = "command_of environ0 req name args"
  obtain rs w where start: "run_state (startProcess x environ0 req) s =
      (Inr rs, s\<lparr>world := w, trace := trace s @ [EvStart ?cmd rs]\<rparr>)"
    using startProcess_run [OF Cons, of x environ0 s] by (elim exE)
  let ?u = "s\<lparr>world := w, trace := trace s @ [EvStart ?cmd rs]\<rparr>"
  show ?thesis
  proof (cases rs)
    case (Inl err)
    with run start have "r = Inr ()"
      "t = rt_table.change i (\<lambda>e. e\<lparr>ex_Status := EXECUTION_STATUS_FAILED, ex_Error := error_text err\<rparr>) ?u"
      by (simp_all add: run_process_def)
    with e Cons Inl show ?thesis
      by (intro exI [where x = "e\<lparr>ex_Status := EXECUTION_STATUS_FAILED, ex_Error := error_text err\<rparr>"]
          exI [where x = "[EvStart ?cmd rs]"]) (simp add: process_outcome_def rt_simps)
  next
    case (Inr pid)
    let ?v = "rt_table.change i (\<lambda>e. e\<lparr>ex_PID := pid\<rparr>) ?u"
    have v: "rt_executions ?v i = Some (e\<lparr>ex_PID := pid\<rparr>)" using e by (simp add: rt_simps)
    from run start Inr have "r = Inr ()" "t = snd (run_state (wait_process x i pid ending) ?v)"
      by (simp_all add: run_process_def case_prod_beta)
    with wait_process_run [OF v, of x pid ending] Cons Inr show ?thesis
      by (fastforce simp: process_outcome_def rt_simps)
  qed
qed

text \<open>
  C30: The end of an execution: an empty entrypoint panics, a process that does not start is recorded as
  failed with the start error, a process that ends by itself as succeeded or failed by the error of its
  wait, and one whose context ends as failed with the context's error after a SIGTERM, and a
  SIGKILL exactly when it did not end within the grace period.
\<close>

theorem process_ends:
  assumes "rt_executions s i = Some e" "run_state (run_process x environ0 i req ending) s = (r, t)"
  shows "\<exists>e' es. rt_executions t = (rt_executions s)(i \<mapsto> e') \<and> trace t = trace s @ es
    \<and> process_outcome environ0 req ending r e e' es"
  using assms by (rule run_process_run)

theorem process_ends_witness:
  "\<exists>e' es. trace (snd (run_state (run_process calm_ext [] ''e1'' sample_run_req (CtxEnded (Error EkDeadlineExceeded ''deadline'') False))
      (calm_rt\<lparr>rt_executions := [''e1'' \<mapsto> new_exec ''e1'' sample_run_req 0]\<rparr>))) = es
    \<and> process_outcome [] sample_run_req (CtxEnded (Error EkDeadlineExceeded ''deadline'') False) (Inr ())
        (new_exec ''e1'' sample_run_req 0) e' es"
proof -
  let ?s = "calm_rt\<lparr>rt_executions := [''e1'' \<mapsto> new_exec ''e1'' sample_run_req 0]\<rparr>"
  let ?fin = "CtxEnded (Error EkDeadlineExceeded ''deadline'') False"
  let ?r = "run_state (run_process calm_ext [] ''e1'' sample_run_req ?fin) ?s"
  have "?r = (Inr (), snd ?r)"
    by (simp add: run_process_def startProcess_def Let_def sample_run_req_def wait_process_def signal_process_def
        time_Now_def calm_ext_def)
  from process_ends [OF _ this, of "new_exec ''e1'' sample_run_req 0"] show ?thesis
    by (auto simp: calm_rt_def)
qed

lemma begin_execution_run:
  "\<exists>now w. snd (run_state (begin_execution x i) s) = (rt_table.change i (\<lambda>e. e\<lparr>ex_StartedAt := now\<rparr>)
     ((rt_table.change i (\<lambda>e. e\<lparr>ex_Status := EXECUTION_STATUS_RUNNING\<rparr>) s)\<lparr>world := w\<rparr>))"
  by (auto simp: begin_execution_def time_Now_def split: prod.split)

lemma execute_run:
  assumes "rt_executions s i = Some e" "run_state (execute x environ0 i req ending) s = (r, t)"
  shows "\<exists>now e' es. rt_executions t = (rt_executions s)(i := None) \<and> trace t = trace s @ es \<and>
    process_outcome environ0 req ending r (e\<lparr>ex_Status := EXECUTION_STATUS_RUNNING, ex_StartedAt := now\<rparr>) e' es"
proof -
  define u where "u = snd (run_state (begin_execution x i) s)"
  obtain q v where run: "run_state (run_process x environ0 i req ending) u = (q, v)" by fastforce
  obtain now w where "u = rt_table.change i (\<lambda>e. e\<lparr>ex_StartedAt := now\<rparr>)
     ((rt_table.change i (\<lambda>e. e\<lparr>ex_Status := EXECUTION_STATUS_RUNNING\<rparr>) s)\<lparr>world := w\<rparr>)"
    unfolding u_def using begin_execution_run [of x i s] by (elim exE)
  with assms(1) have u: "rt_executions u = (rt_executions s)(i \<mapsto> e\<lparr>ex_Status := EXECUTION_STATUS_RUNNING, ex_StartedAt := now\<rparr>)"
    and tu: "trace u = trace s"
    by (simp_all add: rt_simps)
  then have "rt_executions u i = Some (e\<lparr>ex_Status := EXECUTION_STATUS_RUNNING, ex_StartedAt := now\<rparr>)" by simp
  from run_process_run [OF this run] obtain e' es where v: "rt_executions v = (rt_executions u)(i \<mapsto> e')"
    "trace v = trace u @ es" and out: "process_outcome environ0 req ending q (e\<lparr>ex_Status := EXECUTION_STATUS_RUNNING, ex_StartedAt := now\<rparr>) e' es" by blast
  from assms(2) run have "t = rt_delete i v" "r = q" by (auto simp: execute_def case_prod_beta u_def)
  with u tu v out show ?thesis by (auto simp: rt_delete_def)
qed

text \<open>
  However an execution ends, panic included, it is no longer in the table, and every other execution
  is as it was: no terminal status stays behind.
\<close>

theorem execute_removes:
  assumes "rt_executions s i = Some e"
  shows "rt_executions (snd (run_state (execute x environ0 i req ending) s)) = (rt_executions s)(i := None)"
  using execute_run [OF assms] by (metis surj_pair snd_conv)

theorem execute_removes_witness:
  "rt_executions (snd (run_state (execute calm_ext [] ''e1'' sample_run_req (Exited None))
      (calm_rt\<lparr>rt_executions := [''e1'' \<mapsto> new_exec ''e1'' sample_run_req 0]\<rparr>))) = Map.empty"
  by (subst execute_removes [where e = "new_exec ''e1'' sample_run_req 0"]) auto

subsection \<open>What the process is given\<close>

text \<open>
  The process is started with the entrypoint's words, its inherited environment first and the three
  job variables last, and the payload's bytes come back from the last variable by base64 decoding.
\<close>

theorem process_environment:
  "cmd_Name (command_of environ0 req name args) = name \<and> cmd_Args (command_of environ0 req name args) = args
   \<and> take (length environ0) (cmd_Env (command_of environ0 req name args)) = environ0
   \<and> (\<exists>txt. last (cmd_Env (command_of environ0 req name args)) = ''WARDU_PAYLOAD='' @ txt
        \<and> b64_decode txt = Some (rr_Payload req))"
  by (simp add: command_of_def b64_decode_encode)

text \<open>
  The time limit of a process is its timeout in whole seconds: fractions are cut off, so a timeout
  below one second is no limit, and from 2^63 nanoseconds on the product wraps to a negative number
  and is no limit either.
\<close>

theorem timeout_seconds:
  assumes "f32_finite (rr_TimeoutSeconds req)" "0 \<le> f32_trunc (rr_TimeoutSeconds req)"
    and "f32_trunc (rr_TimeoutSeconds req) * 1000000000 < 2 ^ 64"
  shows "map_option sint (run_deadline oor req) =
    (let ns = f32_trunc (rr_TimeoutSeconds req) * 1000000000 in if 0 < ns \<and> ns < 2 ^ 63 then Some ns else None)"
proof -
  define n where "n = f32_trunc (rr_TimeoutSeconds req)"
  from assms have n: "0 \<le> n" "n * 1000000000 < 2 ^ 64" by (simp_all add: n_def)
  then have conv: "run_timeout oor req = word_of_int n * second"
    using assms(1) by (simp add: run_timeout_def f32_to_int64_def n_def)
  show ?thesis
  proof (cases "n * 1000000000 < 2 ^ 63")
    case True
    with n have "sint (word_of_int n * second) = n * 1000000000" by (intro sint_times_second)
    with n True conv show ?thesis by (simp add: run_deadline_def positive_def Let_def flip: n_def)
  next
    case False
    with n have "sint (word_of_int n * second) = n * 1000000000 - 2 ^ 64" by (intro sint_times_second_wrap) auto
    with n False conv show ?thesis by (simp add: run_deadline_def positive_def Let_def flip: n_def)
  qed
qed

text \<open>Half a second, and ten thousand million seconds.\<close>

lemma half_second: "f32_finite 0x3F000000" "f32_trunc 0x3F000000 = 0"
  by (simp_all add: f32_finite_def f32_trunc_def f32_exponent_def f32_mantissa_def f32_negative_def drop_bit_eq_div bit_iff_odd)

lemma ten_giga_seconds: "f32_finite 0x501502F9" "f32_trunc 0x501502F9 = 10000000000"
  by (simp_all add: f32_finite_def f32_trunc_def f32_exponent_def f32_mantissa_def f32_negative_def drop_bit_eq_div bit_iff_odd)

theorem timeout_seconds_witness:
  "map_option sint (run_deadline (\<lambda>_. 0) (sample_run_req\<lparr>rr_TimeoutSeconds := 0x3F000000\<rparr>)) = None
   \<and> map_option sint (run_deadline (\<lambda>_. 0) (sample_run_req\<lparr>rr_TimeoutSeconds := 0x501502F9\<rparr>)) = None"
  using timeout_seconds [of "sample_run_req\<lparr>rr_TimeoutSeconds := 0x3F000000\<rparr>" "\<lambda>_. 0"]
    timeout_seconds [of "sample_run_req\<lparr>rr_TimeoutSeconds := 0x501502F9\<rparr>" "\<lambda>_. 0"]
  by (simp add: half_second ten_giga_seconds Let_def)

subsection \<open>What is reported\<close>

text \<open>
  Reports of running executions; the rounds in which no execution changes its status between the two
  loads make no other.
\<close>

definition is_report :: "event \<Rightarrow> bool" where
  "is_report ev = (case ev of
     EvHbOpen _ \<Rightarrow> True | EvHbSend hb _ \<Rightarrow> hb_Status hb = EXECUTION_STATUS_RUNNING | _ \<Rightarrow> False)"

definition steady_walk :: "walk \<Rightarrow> bool" where
  "steady_walk = list_all (\<lambda>(checked, exec). ex_Status exec = ex_Status checked)"

definition steady_tick :: "tick \<Rightarrow> bool" where
  "steady_tick tk = (case tk of Tick walk \<Rightarrow> steady_walk walk | TickDone _ \<Rightarrow> True)"

definition steady_rounds :: "(bool \<times> tick list) list \<Rightarrow> bool" where
  "steady_rounds = list_all (\<lambda>(_, ticks). list_all steady_tick ticks)"

lemma grow_send_heartbeats: "steady_walk walk \<Longrightarrow> state_io_rel (grows is_report) (send_heartbeats x walk)"
  by (induction x walk rule: send_heartbeats.induct)
     (auto simp: heartbeat_of_def is_report_def steady_walk_def intro!: grow_intros grow_ids)

lemma grow_heartbeat_ticks: "list_all steady_tick ticks \<Longrightarrow> state_io_rel (grows is_report) (heartbeat_ticks x ticks)"
  by (induction x ticks rule: heartbeat_ticks.induct)
     (auto simp: steady_tick_def intro!: grow_intros grow_send_heartbeats)

lemma grow_heartbeatLoop: "list_all steady_tick ticks \<Longrightarrow> state_io_rel (grows is_report) (heartbeatLoop x ticks)"
  unfolding heartbeatLoop_def
  by (intro grow_intros grow_heartbeat_ticks) (simp_all add: is_report_def)

lemma grow_startHeartbeatLoop: "steady_rounds rounds \<Longrightarrow> state_io_rel (grows is_report) (startHeartbeatLoop x rounds)"
  by (induction x rounds rule: startHeartbeatLoop.induct)
     (auto simp: steady_rounds_def intro!: grow_intros grow_heartbeatLoop)

text \<open>
  A tick on which no send fails sends one heartbeat for every execution that its check finds running,
  in the order of the walk, with what the execution holds when the message is built, and no other.
\<close>

theorem tick_reports:
  assumes "run_state (send_heartbeats x walk) s = (Inr u, t)"
  shows "\<exists>hbs. trace t = trace s @ map (\<lambda>hb. EvHbSend hb (Inr ())) hbs
    \<and> list_all2 (\<lambda>e hb. \<exists>now. hb = heartbeat_of e now)
        (map snd (filter (\<lambda>(checked, _). ex_Status checked = EXECUTION_STATUS_RUNNING) walk)) hbs"
  using assms
proof (induction walk arbitrary: s)
  case Nil
  then show ?case by simp
next
  case (Cons p walk)
  obtain checked e where p: "p = (checked, e)" by fastforce
  show ?case
  proof (cases "ex_Status checked = EXECUTION_STATUS_RUNNING")
    case False
    with Cons p show ?thesis by simp
  next
    case True
    obtain now w where now: "x_now x (world s) = (now, w)" by fastforce
    obtain r w2 where send: "x_hb_send x (heartbeat_of e now) w = (r, w2)" by fastforce
    let ?u = "s\<lparr>world := w2, trace := trace s @ [EvHbSend (heartbeat_of e now) r]\<rparr>"
    from Cons.prems True now send p have r: "r = Inr ()" and "run_state (send_heartbeats x walk) ?u = (Inr u, t)"
      by (auto simp: time_Now_def split: sum.splits)
    from Cons.IH [OF this(2)] obtain hbs where
      "trace t = trace ?u @ map (\<lambda>hb. EvHbSend hb (Inr ())) hbs"
      "list_all2 (\<lambda>e hb. \<exists>now. hb = heartbeat_of e now)
         (map snd (filter (\<lambda>(checked, _). ex_Status checked = EXECUTION_STATUS_RUNNING) walk)) hbs"
      by blast
    with True r p show ?thesis by (intro exI [where x = "heartbeat_of e now # hbs"]) auto
  qed
qed

text \<open>The second execution ends between its check and its message, and is reported as ended.\<close>

theorem tick_reports_witness:
  "\<exists>now. trace (snd (run_state (send_heartbeats calm_ext
       [(new_exec ''e1'' sample_run_req 0, new_exec ''e1'' sample_run_req 0),
        ((new_exec ''e2'' sample_run_req 0)\<lparr>ex_Status := EXECUTION_STATUS_RUNNING\<rparr>,
         (new_exec ''e2'' sample_run_req 0)\<lparr>ex_Status := EXECUTION_STATUS_SUCCEEDED\<rparr>)]) calm_sys))
     = [EvHbSend (heartbeat_of ((new_exec ''e2'' sample_run_req 0)\<lparr>ex_Status := EXECUTION_STATUS_SUCCEEDED\<rparr>) now) (Inr ())]"
proof -
  let ?es = "[(new_exec ''e1'' sample_run_req 0, new_exec ''e1'' sample_run_req 0),
        ((new_exec ''e2'' sample_run_req 0)\<lparr>ex_Status := EXECUTION_STATUS_RUNNING\<rparr>,
         (new_exec ''e2'' sample_run_req 0)\<lparr>ex_Status := EXECUTION_STATUS_SUCCEEDED\<rparr>)]"
  let ?r = "run_state (send_heartbeats calm_ext ?es) calm_sys"
  have "?r = (Inr (), snd ?r)"
    by (simp add: calm_defs time_Now_def new_exec_def)
  from tick_reports [OF this] show ?thesis
    by (auto simp: calm_sys_def new_exec_def list_all2_Cons1)
qed

end
