(* ===== verification/Logger.thy ===== *)
theory Logger
  imports World
begin

section \<open>Request correlation in the logs (shared/logger)\<close>

text \<open>
  Metadata maps lower-case keys to values. The interceptors log one line per call; a line is
  modelled with what it says apart from latencies and time stamps.
\<close>

type_synonym metadata = "string \<rightharpoonup> string list"

record call_context =
  cx_incoming :: "metadata option"
  cx_outgoing :: "metadata option"

definition requestIDFromMetadata :: "metadata \<Rightarrow> string" where
  "requestIDFromMetadata md = (case md ''x-request-id'' of Some (v # _) \<Rightarrow> v | _ \<Rightarrow> [])"

definition requestIDFromContext :: "call_context \<Rightarrow> string" where
  "requestIDFromContext ctx =
     (let out = (case cx_outgoing ctx of
            Some md \<Rightarrow> (if requestIDFromMetadata md \<noteq> [] then requestIDFromMetadata md else [])
          | None \<Rightarrow> []) in
      case cx_incoming ctx of
        Some md \<Rightarrow> (if requestIDFromMetadata md \<noteq> [] then requestIDFromMetadata md else out)
      | None \<Rightarrow> out)"

text \<open>\<open>metadata.AppendToOutgoingContext(ctx, k, v)\<close>\<close>

definition append_outgoing :: "string \<Rightarrow> string \<Rightarrow> call_context \<Rightarrow> call_context" where
  "append_outgoing k v ctx =
     (let md = (case cx_outgoing ctx of Some md \<Rightarrow> md | None \<Rightarrow> Map.empty);
          old = (case md k of Some vs \<Rightarrow> vs | None \<Rightarrow> [])
      in ctx\<lparr>cx_outgoing := Some (md(k \<mapsto> old @ [v]))\<rparr>)"

datatype log_level = LevelInfo | LevelError

record log_line =
  ll_level :: log_level
  ll_method :: string
  ll_request_id :: "string option"
  ll_error :: "string option"
  ll_message :: string

definition request_id_field :: "call_context \<Rightarrow> string option" where
  "request_id_field ctx = (let rid = requestIDFromContext ctx in if rid \<noteq> [] then Some rid else None)"

definition rpc_line :: "call_context \<Rightarrow> string \<Rightarrow> 'a result \<Rightarrow> log_line" where
  "rpc_line ctx rpc_method r =
     (let event = \<lparr>ll_level = LevelInfo, ll_method = rpc_method, ll_request_id = request_id_field ctx,
                   ll_error = None, ll_message = ''grpc request''\<rparr> in
      case r of
        Inr _ \<Rightarrow> event
      | Inl err \<Rightarrow> \<lparr>ll_level = LevelError, ll_method = rpc_method, ll_request_id = request_id_field ctx,
                    ll_error = Some (error_text err), ll_message = ''grpc request failed''\<rparr>)"

text \<open>The result of a call with the line it logs; a panic passes the interceptor without a line.\<close>

definition unwinds :: "'a result \<Rightarrow> bool" where
  "unwinds r = (case r of Inl err \<Rightarrow> kind_of err = EkPanic \<or> kind_of err = EkExit | Inr _ \<Rightarrow> False)"

definition UnaryClientInterceptor ::
  "call_context \<Rightarrow> string \<Rightarrow> ('s, 'a result) state \<Rightarrow> ('s, 'a result \<times> log_line option) state" where
  "UnaryClientInterceptor ctx rpc_method invoker = do {
     r \<leftarrow> invoker;
     ret (r, if unwinds r then None else Some (rpc_line ctx rpc_method r))
   }"

definition UnaryServerInterceptor ::
  "call_context \<Rightarrow> string \<Rightarrow> ('s, 'a result) state \<Rightarrow> ('s, 'a result \<times> log_line option) state" where
  "UnaryServerInterceptor ctx rpc_method handler = do {
     r \<leftarrow> handler;
     ret (r, if unwinds r then None else Some (rpc_line ctx rpc_method r))
   }"

text \<open>\<open>parse\<close> is \<open>zerolog.ParseLevel\<close>, \<open>trim\<close> is \<open>strings.TrimSpace\<close>.\<close>

definition parseLevel ::
  "(string \<Rightarrow> 'l option) \<Rightarrow> (string \<Rightarrow> string) \<Rightarrow> (string \<Rightarrow> string) \<Rightarrow> 'l \<Rightarrow> string \<Rightarrow> 'l" where
  "parseLevel parse trim uni info raw =
     (case parse (strings_ToLower uni (trim raw)) of None \<Rightarrow> info | Some level \<Rightarrow> level)"

text \<open>
  What \<open>Setup\<close> decides: the level, the console format and the service name of every line.
  \<open>strings.EqualFold\<close> with a text of ASCII letters other than k and s, which no other rune folds to.
\<close>

definition EqualFold_ascii :: "string \<Rightarrow> string \<Rightarrow> bool" where
  "EqualFold_ascii s t = (map ascii_lower s = map ascii_lower t)"

record 'l logger_config =
  lc_Level :: 'l
  lc_Console :: bool
  lc_Service :: string

definition Setup ::
  "(string \<Rightarrow> 'l option) \<Rightarrow> (string \<Rightarrow> string) \<Rightarrow> (string \<Rightarrow> string) \<Rightarrow> 'l \<Rightarrow> environ \<Rightarrow> string \<Rightarrow> 'l logger_config" where
  "Setup parse trim uni info env srv =
     \<lparr>lc_Level = parseLevel parse trim uni info (GetString env ''LOG_LEVEL'' ''info''),
      lc_Console = (GetBool env ''LOG_PRETTY'' False \<or> EqualFold_ascii (GetString env ''APP_ENV'' ''production'') ''development''),
      lc_Service = srv\<rparr>"

text \<open>The line of an HTTP request (echo.go), from the values the middleware collects; the latency is left out.\<close>

record request_values =
  rv_Error :: "error option"
  rv_Method :: string
  rv_URI :: string
  rv_URIPath :: string
  rv_RoutePath :: string
  rv_RemoteIP :: string
  rv_RequestID :: string
  rv_UserAgent :: string
  rv_Referer :: string
  rv_Status :: go_int
  rv_ContentLength :: string
  rv_ResponseSize :: int64

record http_line =
  hl_level :: log_level
  hl_error :: "string option"
  hl_fields :: "(string \<times> string) list"

definition RequestLogger :: "request_values \<Rightarrow> http_line" where
  "RequestLogger v =
     \<lparr>hl_level = (case rv_Error v of Some _ \<Rightarrow> LevelError | None \<Rightarrow> LevelInfo),
      hl_error = map_option error_text (rv_Error v),
      hl_fields =
        [(''method'', rv_Method v), (''uri'', rv_URI v), (''path'', rv_URIPath v), (''route'', rv_RoutePath v),
         (''remote_ip'', rv_RemoteIP v), (''request_id'', rv_RequestID v), (''user_agent'', rv_UserAgent v),
         (''referer'', rv_Referer v), (''status'', itoa (rv_Status v)), (''content_length'', rv_ContentLength v),
         (''response_size'', itoa (rv_ResponseSize v))]\<rparr>"

lemma requestID_outgoing:
  "requestIDFromContext \<lparr>cx_incoming = None, cx_outgoing = cx_outgoing (append_outgoing ''x-request-id'' rid
      \<lparr>cx_incoming = None, cx_outgoing = None\<rparr>)\<rparr> = rid"
  by (simp add: requestIDFromContext_def requestIDFromMetadata_def append_outgoing_def Let_def)

text \<open>
  An RPC that does not panic is logged with one line, at error level exactly when it failed, under the request id it
  came in with, or failing that the one it goes out with; and the interceptor hands the result on
  unchanged with the state the call left.
\<close>

theorem interceptor_logs:
  "run_state (UnaryServerInterceptor ctx rpc_method handler) s =
     (case run_state handler s of (r, t) \<Rightarrow> ((r, if unwinds r then None else Some (rpc_line ctx rpc_method r)), t))
   \<and> (ll_level (rpc_line ctx rpc_method r) = LevelError \<longleftrightarrow> \<not> is_ok r)
   \<and> (ll_request_id (rpc_line ctx rpc_method r) = None \<longleftrightarrow>
        (case cx_incoming ctx of Some md \<Rightarrow> requestIDFromMetadata md = [] | None \<Rightarrow> True) \<and>
        (case cx_outgoing ctx of Some md \<Rightarrow> requestIDFromMetadata md = [] | None \<Rightarrow> True))"
  by (auto simp: UnaryServerInterceptor_def rpc_line_def request_id_field_def requestIDFromContext_def Let_def is_ok_def
      split: sum.splits option.splits prod.splits)

text \<open>
  Lines are meant for a console only when that is asked for: with \<open>LOG_PRETTY\<close> and \<open>APP_ENV\<close> unset
  they are JSON.
\<close>

lemma Setup_json:
  assumes "env ''LOG_PRETTY'' = None" "env ''APP_ENV'' = None"
  shows "\<not> lc_Console (Setup parse trim uni info env srv)"
  using assms by (simp add: Setup_def env_bool.unset env_str.unset EqualFold_ascii_def)

end
