(* ===== verification/Gateway.thy ===== *)
theory Gateway
  imports Logger Database
begin

section \<open>The API gateway (services/api-gateway)\<close>

text \<open>
  The HTTP handlers, the client of the scheduler and the address of the server. Echo's binding of the
  request body, the JSON of the payload and the gRPC transport are arguments.
\<close>

subsection \<open>Responses (handlers.go)\<close>

datatype JobStatus =
    JobStatusDead | JobStatusFailed | JobStatusPending | JobStatusQueued | JobStatusRejected | JobStatusRunning | JobStatusSucceeded

definition JobStatus_text :: "JobStatus \<Rightarrow> string" where
  "JobStatus_text st =
     (case st of
        JobStatusDead \<Rightarrow> ''dead'' | JobStatusFailed \<Rightarrow> ''failed'' | JobStatusPending \<Rightarrow> ''pending''
      | JobStatusQueued \<Rightarrow> ''queued'' | JobStatusRejected \<Rightarrow> ''rejected'' | JobStatusRunning \<Rightarrow> ''running''
      | JobStatusSucceeded \<Rightarrow> ''succeeded'')"

datatype body =
    ErrorResponse string
  | SubmitJobResponse string JobStatus
  | HealthResponse "string \<rightharpoonup> string"

record response =
  rsp_Status :: int
  rsp_Body :: body

definition getDefaultErrorMessages :: "int \<Rightarrow> string" where
  "getDefaultErrorMessages status = (if status = 400 then ''invalid request body'' else ''Unknown error'')"

definition withErr :: "int \<Rightarrow> string list \<Rightarrow> response" where
  "withErr status customMessage =
     (let msg0 = getDefaultErrorMessages status;
          msg = (case customMessage of m # _ \<Rightarrow> if m \<noteq> [] then m else msg0 | [] \<Rightarrow> msg0)
      in \<lparr>rsp_Status = status, rsp_Body = ErrorResponse msg\<rparr>)"

subsection \<open>submitJob (jobs_handler.go)\<close>

definition request_context :: "string \<Rightarrow> call_context \<Rightarrow> call_context" where
  "request_context requestID ctx =
     (if requestID \<noteq> [] then append_outgoing ''x-request-id'' requestID ctx else ctx)"

definition submitJob ::
  "('p \<Rightarrow> byte list result) \<Rightarrow> (float32 \<Rightarrow> int64) \<Rightarrow> (call_context \<Rightarrow> CreateJobRequest \<Rightarrow> ('s, string result) state) \<Rightarrow>
   string \<Rightarrow> call_context \<Rightarrow> 'p SubmitJobRequest result \<Rightarrow> ('s, response) state" where
  "submitJob marshal oor createJob requestID ctx0 bound =
     (let ctx = request_context requestID ctx0 in
      case bound of
        Inl err \<Rightarrow> ret (withErr 400 [])
      | Inr req \<Rightarrow>
     (case BuildJobProto marshal oor req of
        Inl err \<Rightarrow> ret (withErr 400 [])
      | Inr job \<Rightarrow>
          catch (createJob ctx job)
            (\<lambda>err. ret (withErr 400 [error_text err]))
            (\<lambda>jobId. ret \<lparr>rsp_Status = 202, rsp_Body = SubmitJobResponse jobId JobStatusPending\<rparr>)))"

subsection \<open>The rest of the server\<close>

definition healthHandler :: "(string \<rightharpoonup> string) \<Rightarrow> response" where
  "healthHandler health = \<lparr>rsp_Status = 200, rsp_Body = HealthResponse health\<rparr>"

text \<open>
  \<open>port, _ := strconv.Atoi(s)\<close>: 0 when the text is no number, the nearest \<open>int\<close> when it is out of
  range.
\<close>

definition atoi_ignoring_error :: "string \<Rightarrow> go_int" where
  "atoi_ignoring_error s =
     (case parse_int s of None \<Rightarrow> 0 | Some i \<Rightarrow> word_of_int (max (- (2 ^ 63)) (min (2 ^ 63 - 1) i)))"

definition server_addr :: "environ \<Rightarrow> string" where
  "server_addr env = CHR '':'' # itoa (atoi_ignoring_error (GetString env ''GATEWAY_HTTP_PORT'' ''8080''))"

definition newScheduler :: "'w ext \<Rightarrow> environ \<Rightarrow> (('w, 'z) sys_scheme, string result) state" where
  "newScheduler x env =
     (let addr = GetString env ''SCHEDULER_GRPC_ADDR'' ''localhost:8081'' in
      must (ext_call (x_grpc_dial x addr) (EvDial addr)) (\<lambda>_. ok addr))"

definition NewServices :: "'w ext \<Rightarrow> environ \<Rightarrow> (('w, 'z) sys_scheme, string result) state" where
  "NewServices x env = must (newScheduler x env) ok"

text \<open>\<open>None\<close> stands for the nil client.\<close>

definition CloseAll :: "'w ext \<Rightarrow> string option \<Rightarrow> (('w, 'z) sys_scheme, unit result) state" where
  "CloseAll x scheduler =
     (case scheduler of
        None \<Rightarrow> ok ()
      | Some addr \<Rightarrow> catch (ext_call (x_grpc_close x addr) (EvClose addr))
          (\<lambda>err. fail (Error (kind_of err) (''failed to close scheduler: '' @ error_text err)))
          ok)"

subsection \<open>Routes (routes.go, handle.go, handlers.go)\<close>

datatype endpoint = SubmitJob | HealthCheck

text \<open>A group adds its prefix to the paths of its routes.\<close>

definition route_group :: "string \<Rightarrow> (string \<times> string \<times> endpoint) list \<Rightarrow> (string \<times> string \<times> endpoint) list" where
  "route_group pre rs = map (\<lambda>(verb, path, h). (verb, pre @ path, h)) rs"

definition AddJobsEndPoints :: "(string \<times> string \<times> endpoint) list" where
  "AddJobsEndPoints = [(''POST'', [], SubmitJob)]"

definition CreateApiV1Routes :: "(string \<times> string \<times> endpoint) list" where
  "CreateApiV1Routes = (''GET'', ''/health'', HealthCheck) # route_group ''/jobs'' AddJobsEndPoints"

definition api_routes :: "(string \<times> string \<times> endpoint) list" where
  "api_routes = route_group ''api/v1'' CreateApiV1Routes"

lemma api_routes_eq: "api_routes = [(''GET'', ''api/v1/health'', HealthCheck), (''POST'', ''api/v1/jobs'', SubmitJob)]"
  by (simp add: api_routes_def CreateApiV1Routes_def AddJobsEndPoints_def route_group_def)

subsection \<open>Properties\<close>

text \<open>The request the scheduler is sent for a bound body, when there is one.\<close>

definition submitted ::
  "('p \<Rightarrow> byte list result) \<Rightarrow> (float32 \<Rightarrow> int64) \<Rightarrow> 'p SubmitJobRequest result \<Rightarrow> CreateJobRequest option" where
  "submitted marshal oor bound =
     (case bound of Inl _ \<Rightarrow> None | Inr req \<Rightarrow>
        (case BuildJobProto marshal oor req of Inl _ \<Rightarrow> None | Inr job \<Rightarrow> Some job))"

lemma submitJob_run:
  "run_state (submitJob marshal oor createJob rid ctx bound) s =
     (case submitted marshal oor bound of
        None \<Rightarrow> (withErr 400 [], s)
      | Some job \<Rightarrow> (case run_state (createJob (request_context rid ctx) job) s of
            (Inl err, t) \<Rightarrow> (withErr 400 [error_text err], t)
          | (Inr i, t) \<Rightarrow> (\<lparr>rsp_Status = 202, rsp_Body = SubmitJobResponse i JobStatusPending\<rparr>, t)))"
  by (simp add: submitJob_def submitted_def Let_def split: sum.split prod.split)

text \<open>
  What the scheduler is asked for a submitted job: an unset namespace becomes wardu, an unset
  priority 1, unset autorun false, unset numbers 0, an unset entrypoint is empty, and everything set
  is passed on, the priority truncated to an integer.
\<close>

theorem submission_defaults:
  assumes "marshal (sj_Payload req) = Inr payload"
  shows "\<exists>job. submitted marshal oor (Inr req) = Some job
    \<and> cj_Image job = sj_Image req \<and> cj_Payload job = payload
    \<and> cj_Namespace job = case_option ''wardu'' id (sj_Namespace req)
    \<and> cj_Priority job = case_option 1 (f32_to_int64 oor) (sj_Priority req)
    \<and> cj_Autorun job = (sj_Autorun req = Some True)
    \<and> cj_Entrypoint job = case_option [] id (sj_Entrypoint req)
    \<and> cj_TimeoutSeconds job = case_option 0 id (sj_TimeoutSeconds req)
    \<and> cj_MaxAttempts job = case_option 0 id (sj_MaxAttempts req)
    \<and> cj_IdleTimeoutSeconds job = case_option 0 id (sj_IdleTimeoutSeconds req)"
  using assms by (auto simp: submitted_def BuildJobProto_def zero_f32_def split: option.split bool.split)

definition sample_submission :: "unit SubmitJobRequest" where
  "sample_submission = \<lparr>sj_Autorun = Some True, sj_Entrypoint = None, sj_IdleTimeoutSeconds = None, sj_Image = ''app'',
     sj_MaxAttempts = None, sj_Namespace = None, sj_Payload = (), sj_Priority = None, sj_TimeoutSeconds = None\<rparr>"

theorem submission_defaults_witness:
  "\<exists>job. submitted (\<lambda>_. Inr [123, 125]) (\<lambda>_. 0) (Inr sample_submission) = Some job
     \<and> cj_Namespace job = ''wardu'' \<and> cj_Entrypoint job = [] \<and> cj_Priority job = 1"
  using submission_defaults [of "\<lambda>_. Inr [123, 125]" sample_submission "[123, 125]" "\<lambda>_. 0"]
  by (auto simp: sample_submission_def)

end
