(* ===== verification/Lifecycle.thy ===== *)
theory Lifecycle
  imports GoChan
begin

section \<open>Process lifecycles (the four mains and their gracefulShutdown)\<close>

text \<open>
  Each service runs a main goroutine, which serves until the server stops, and a shutdown
  goroutine, which waits for a signal. The four mains differ in four points: whether the main
  goroutine waits on \<open>done\<close> after serving, whether the shutdown goroutine sends on it, whether
  the server's serve call returns when its shutdown begins (\<open>net/http\<close>) or when it is complete (grpc),
  and whether a third goroutine consumes jobs, under the context that the signal ends.
\<close>

record service =
  sv_waits_done :: bool
  sv_sends_done :: bool
  sv_http :: bool
  sv_consumes :: bool

definition api_gateway :: service where
  "api_gateway = \<lparr>sv_waits_done = True, sv_sends_done = True, sv_http = True, sv_consumes = False\<rparr>"

definition scheduler :: service where
  "scheduler = \<lparr>sv_waits_done = True, sv_sends_done = False, sv_http = False, sv_consumes = False\<rparr>"

definition dispatcher :: service where
  "dispatcher = \<lparr>sv_waits_done = False, sv_sends_done = False, sv_http = False, sv_consumes = True\<rparr>"

definition runtime :: service where
  "runtime = \<lparr>sv_waits_done = False, sv_sends_done = False, sv_http = False, sv_consumes = False\<rparr>"

text \<open>
  The main goroutine: serving, waiting on \<open>done\<close>, or the process has exited with a code. The shutdown
  goroutine: waiting for the signal, stopping the server (after closing the connections), the
  server stopped, or finished.
\<close>

datatype main_pc = Serving | WaitingDone | ExitedWith nat

datatype shutdown_pc = WaitingSignal | Stopping | Stopped | Finished

text \<open>The consumer of jobs: none, about to subscribe, or in its loop.\<close>

datatype consumer_pc = NoConsumer | Subscribing | Consuming

record process =
  pr_main :: main_pc
  pr_shutdown :: shutdown_pc
  pr_consumer :: consumer_pc
  pr_signalled :: bool
  pr_done :: "unit chan"

definition process_start :: "service \<Rightarrow> process" where
  "process_start sv =
     \<lparr>pr_main = Serving, pr_shutdown = WaitingSignal, pr_consumer = (if sv_consumes sv then Subscribing else NoConsumer),
      pr_signalled = False, pr_done = make_chan 1\<rparr>"

definition serve_may_return :: "service \<Rightarrow> shutdown_pc \<Rightarrow> bool" where
  "serve_may_return sv sd =
     (case sd of WaitingSignal \<Rightarrow> False | Stopping \<Rightarrow> sv_http sv | Stopped \<Rightarrow> True | Finished \<Rightarrow> True)"

text \<open>No goroutine acts once the process has exited.\<close>

definition alive :: "process \<Rightarrow> bool" where
  "alive p = (case pr_main p of ExitedWith _ \<Rightarrow> False | _ \<Rightarrow> True)"

inductive lifecycle_step :: "service \<Rightarrow> process \<Rightarrow> process \<Rightarrow> bool" for sv :: service where
  signal: "alive p \<Longrightarrow> \<not> pr_signalled p \<Longrightarrow>
    lifecycle_step sv p (p\<lparr>pr_signalled := True\<rparr>)"
| got_signal: "alive p \<Longrightarrow> pr_shutdown p = WaitingSignal \<Longrightarrow> pr_signalled p \<Longrightarrow>
    lifecycle_step sv p (p\<lparr>pr_shutdown := Stopping\<rparr>)"
| server_stopped: "alive p \<Longrightarrow> pr_shutdown p = Stopping \<Longrightarrow>
    lifecycle_step sv p (p\<lparr>pr_shutdown := Stopped\<rparr>)"
| send_done: "alive p \<Longrightarrow> pr_shutdown p = Stopped \<Longrightarrow> sv_sends_done sv \<Longrightarrow> chan_send () (pr_done p) = Some c \<Longrightarrow>
    lifecycle_step sv p (p\<lparr>pr_shutdown := Finished, pr_done := c\<rparr>)"
| shutdown_ends: "alive p \<Longrightarrow> pr_shutdown p = Stopped \<Longrightarrow> \<not> sv_sends_done sv \<Longrightarrow>
    lifecycle_step sv p (p\<lparr>pr_shutdown := Finished\<rparr>)"
| serve_fails: "pr_main p = Serving \<Longrightarrow>
    lifecycle_step sv p (p\<lparr>pr_main := ExitedWith 1\<rparr>)"
| serve_returns: "pr_main p = Serving \<Longrightarrow> serve_may_return sv (pr_shutdown p) \<Longrightarrow>
    lifecycle_step sv p (p\<lparr>pr_main := (if sv_waits_done sv then WaitingDone else ExitedWith 0)\<rparr>)"
| recv_done: "pr_main p = WaitingDone \<Longrightarrow> chan_recv (pr_done p) = Some (u, c) \<Longrightarrow>
    lifecycle_step sv p (p\<lparr>pr_main := ExitedWith 0, pr_done := c\<rparr>)"
| subscribes: "alive p \<Longrightarrow> pr_consumer p = Subscribing \<Longrightarrow>
    lifecycle_step sv p (p\<lparr>pr_consumer := Consuming\<rparr>)"
| subscribe_fails: "alive p \<Longrightarrow> pr_consumer p = Subscribing \<Longrightarrow>
    lifecycle_step sv p (p\<lparr>pr_main := ExitedWith 1\<rparr>)"
| consumer_exits: "alive p \<Longrightarrow> pr_consumer p = Consuming \<Longrightarrow> pr_signalled p \<Longrightarrow>
    lifecycle_step sv p (p\<lparr>pr_main := ExitedWith 1\<rparr>)"

inductive_cases lifecycle_stepE: "lifecycle_step sv p q"

definition lifecycle_reachable :: "service \<Rightarrow> process \<Rightarrow> bool" where
  "lifecycle_reachable sv p = (lifecycle_step sv)\<^sup>*\<^sup>* (process_start sv) p"

text \<open>What is in the channel, and when the main goroutine can be past serving.\<close>

definition lifecycle_inv :: "service \<Rightarrow> process \<Rightarrow> bool" where
  "lifecycle_inv sv p =
     (chan_cap (pr_done p) = 1 \<and>
      (pr_consumer p = NoConsumer \<longleftrightarrow> \<not> sv_consumes sv) \<and> (pr_shutdown p \<noteq> WaitingSignal \<longrightarrow> pr_signalled p) \<and>
      (pr_main p = Serving \<or> pr_main p = WaitingDone \<longrightarrow>
         chan_buf (pr_done p) = (if sv_sends_done sv \<and> pr_shutdown p = Finished then [()] else [])) \<and>
      (pr_main p = WaitingDone \<longrightarrow> sv_waits_done sv \<and> serve_may_return sv (pr_shutdown p)) \<and>
      (pr_main p = ExitedWith 0 \<longrightarrow> serve_may_return sv (pr_shutdown p) \<and>
         (sv_waits_done sv \<longrightarrow> sv_sends_done sv \<and> pr_shutdown p = Finished)))"

lemma lifecycle_inv_start: "lifecycle_inv sv (process_start sv)"
  by (simp add: lifecycle_inv_def process_start_def make_chan_def)

lemma serve_may_return_mono:
  "serve_may_return sv Stopping \<Longrightarrow> serve_may_return sv Stopped" "serve_may_return sv Stopped" "serve_may_return sv Finished"
  "\<not> serve_may_return sv WaitingSignal"
  by (simp_all add: serve_may_return_def)

lemma lifecycle_inv_step:
  assumes "lifecycle_step sv p q" "lifecycle_inv sv p"
  shows "lifecycle_inv sv q"
  using assms
  by cases (auto simp: lifecycle_inv_def serve_may_return_mono alive_def chan_send_def chan_recv_def
      split: main_pc.splits if_splits list.splits)

lemma lifecycle_reachable_inv: "lifecycle_reachable sv p \<Longrightarrow> lifecycle_inv sv p"
  unfolding lifecycle_reachable_def
  by (induction rule: rtranclp_induct) (simp_all add: lifecycle_inv_start lifecycle_inv_step)

definition shutdown_left :: "shutdown_pc \<Rightarrow> nat" where
  "shutdown_left sd = (case sd of WaitingSignal \<Rightarrow> 3 | Stopping \<Rightarrow> 2 | Stopped \<Rightarrow> 1 | Finished \<Rightarrow> 0)"

definition main_left :: "main_pc \<Rightarrow> nat" where
  "main_left pc = (case pc of Serving \<Rightarrow> 2 | WaitingDone \<Rightarrow> 1 | ExitedWith _ \<Rightarrow> 0)"

definition consumer_left :: "consumer_pc \<Rightarrow> nat" where
  "consumer_left c = (case c of Subscribing \<Rightarrow> 1 | _ \<Rightarrow> 0)"

definition steps_left :: "process \<Rightarrow> nat" where
  "steps_left p = shutdown_left (pr_shutdown p) + main_left (pr_main p) + consumer_left (pr_consumer p) +
     (if pr_signalled p then 0 else 1)"

lemma main_left_alive: "alive p \<Longrightarrow> 0 < main_left (pr_main p)"
  by (simp add: alive_def main_left_def split: main_pc.splits)

lemma steps_left_step: "lifecycle_step sv p q \<Longrightarrow> steps_left q < steps_left p"
  by (erule lifecycle_stepE)
     (auto dest!: main_left_alive simp: steps_left_def shutdown_left_def consumer_left_def main_left_def)

text \<open>After the signal, a step towards the end that is no failure.\<close>

lemma step_exists:
  assumes "lifecycle_inv sv p" "alive p" "pr_signalled p" "sv_waits_done sv \<longrightarrow> sv_sends_done sv"
  shows "\<exists>q. lifecycle_step sv p q \<and> pr_main q \<noteq> ExitedWith 1"
proof (cases "pr_shutdown p")
  case WaitingSignal
  from lifecycle_step.got_signal [OF assms(2) this assms(3)] assms(2) show ?thesis
    by (intro exI conjI) (auto simp: alive_def)
next
  case Stopping
  from lifecycle_step.server_stopped [OF assms(2) this] assms(2) show ?thesis
    by (intro exI conjI) (auto simp: alive_def)
next
  case Stopped
  show ?thesis
  proof (cases "sv_sends_done sv")
    case True
    with assms(1,2) Stopped have "chan_send () (pr_done p) = Some ((pr_done p)\<lparr>chan_buf := [()]\<rparr>)"
      by (auto simp: lifecycle_inv_def chan_send_def alive_def split: main_pc.splits)
    from lifecycle_step.send_done [OF assms(2) Stopped True this] assms(2) show ?thesis
      by (intro exI conjI) (auto simp: alive_def)
  next
    case False
    from lifecycle_step.shutdown_ends [OF assms(2) Stopped False] assms(2) show ?thesis
      by (intro exI conjI) (auto simp: alive_def)
  qed
next
  case Finished
  show ?thesis
  proof (cases "pr_main p")
    case Serving
    from lifecycle_step.serve_returns [OF this, of sv] Finished show ?thesis
      by (intro exI conjI) (auto simp: serve_may_return_def split: if_splits)
  next
    case WaitingDone
    with assms(1,4) Finished have "chan_recv (pr_done p) = Some ((), (pr_done p)\<lparr>chan_buf := []\<rparr>)"
      by (auto simp: lifecycle_inv_def chan_recv_def)
    from lifecycle_step.recv_done [OF WaitingDone this, of sv] show ?thesis by (intro exI conjI) auto
  qed (use assms(2) in \<open>simp add: alive_def\<close>)
qed

lemma step_result:
  "lifecycle_step sv p q \<Longrightarrow> alive q \<or> pr_main q = ExitedWith 0 \<or> pr_main q = ExitedWith 1"
  "lifecycle_step sv p q \<Longrightarrow> pr_signalled p \<Longrightarrow> pr_signalled q"
  by (auto elim!: lifecycle_stepE simp: alive_def)

text \<open>Unless the main goroutine waits for what is never sent, a clean exit stays possible after the signal.\<close>

lemma can_end_cleanly:
  assumes "lifecycle_inv sv p" "alive p" "pr_signalled p" "sv_waits_done sv \<longrightarrow> sv_sends_done sv"
  shows "\<exists>q. (lifecycle_step sv)\<^sup>*\<^sup>* p q \<and> pr_main q = ExitedWith 0"
  using assms(1-3)
proof (induction "steps_left p" arbitrary: p rule: less_induct)
  case less
  from step_exists [OF less.prems assms(4)] obtain q where q: "lifecycle_step sv p q" "pr_main q \<noteq> ExitedWith 1" by blast
  show ?case
  proof (cases "alive q")
    case True
    from less.hyps [OF steps_left_step [OF q(1)] lifecycle_inv_step [OF q(1) less.prems(1)] True step_result(2) [OF q(1) less.prems(3)]]
    show ?thesis using q(1) by (meson converse_rtranclp_into_rtranclp)
  next
    case False
    with step_result(1) [OF q(1)] q show ?thesis by blast
  qed
qed

text \<open>
  C36: The api gateway cannot hang in its shutdown: once it is signalled there is always a step towards the end
  that is no failure, every step brings the end closer, and it exits with code 0 only after the
  shutdown goroutine has finished.
\<close>

theorem gateway_exits:
  assumes "lifecycle_reachable api_gateway p"
  shows "(if alive p then pr_signalled p \<longrightarrow>
            (\<exists>q. lifecycle_step api_gateway p q \<and> pr_main q \<noteq> ExitedWith 1 \<and> steps_left q < steps_left p)
          else pr_main p \<noteq> ExitedWith 0 \<or> pr_shutdown p = Finished)"
proof -
  from assms have inv: "lifecycle_inv api_gateway p" by (rule lifecycle_reachable_inv)
  show ?thesis
  proof (cases "alive p")
    case True
    with step_exists [OF inv] steps_left_step show ?thesis by (fastforce simp: api_gateway_def)
  next
    case False
    with inv show ?thesis by (auto simp: lifecycle_inv_def api_gateway_def)
  qed
qed

lemma signalled_reachable:
  "lifecycle_reachable sv ((process_start sv)\<lparr>pr_signalled := True\<rparr>)"
  using lifecycle_step.signal [of "process_start sv" sv]
  by (auto simp: lifecycle_reachable_def process_start_def alive_def)

theorem gateway_exits_witness:
  "\<exists>q. lifecycle_step api_gateway ((process_start api_gateway)\<lparr>pr_signalled := True\<rparr>) q \<and> pr_main q \<noteq> ExitedWith 1"
  using gateway_exits [OF signalled_reachable] by (auto simp: alive_def process_start_def)

text \<open>
  C40: The scheduler never exits cleanly: its main goroutine waits on a channel that nothing sends on, so
  once the shutdown is over and serving has returned no step is left and the process hangs.
\<close>

theorem scheduler_hangs:
  assumes "lifecycle_reachable scheduler p"
  shows "pr_main p \<noteq> ExitedWith 0 \<and>
    (if pr_main p = WaitingDone \<and> pr_shutdown p = Finished then \<forall>q. \<not> lifecycle_step scheduler p q else True)"
proof -
  from assms have inv: "lifecycle_inv scheduler p" by (rule lifecycle_reachable_inv)
  then have "pr_main p \<noteq> ExitedWith 0" by (auto simp: lifecycle_inv_def scheduler_def)
  moreover have "\<not> lifecycle_step scheduler p q" if "pr_main p = WaitingDone" "pr_shutdown p = Finished" for q
    using that inv by (auto elim!: lifecycle_stepE simp: lifecycle_inv_def scheduler_def chan_recv_def)
  ultimately show ?thesis by simp
qed

definition hanging :: process where
  "hanging = \<lparr>pr_main = WaitingDone, pr_shutdown = Finished, pr_consumer = NoConsumer, pr_signalled = True,
     pr_done = make_chan 1\<rparr>"

lemma scheduler_waiting: "lifecycle_reachable scheduler hanging"
proof -
  let ?p0 = "(process_start scheduler)\<lparr>pr_signalled := True\<rparr>"
  let ?p1 = "?p0\<lparr>pr_shutdown := Stopping\<rparr>"
  let ?p2 = "?p1\<lparr>pr_shutdown := Stopped\<rparr>"
  let ?p3 = "?p2\<lparr>pr_shutdown := Finished\<rparr>"
  let ?p4 = "?p3\<lparr>pr_main := (if sv_waits_done scheduler then WaitingDone else ExitedWith 0)\<rparr>"
  have "lifecycle_step scheduler ?p0 ?p1"
    by (rule lifecycle_step.got_signal) (simp_all add: process_start_def alive_def)
  moreover have "lifecycle_step scheduler ?p1 ?p2"
    by (rule lifecycle_step.server_stopped) (simp_all add: process_start_def alive_def)
  moreover have "lifecycle_step scheduler ?p2 ?p3"
    by (rule lifecycle_step.shutdown_ends) (simp_all add: process_start_def alive_def scheduler_def)
  moreover have "lifecycle_step scheduler ?p3 ?p4"
    by (rule lifecycle_step.serve_returns) (simp_all add: process_start_def serve_may_return_def)
  ultimately have "(lifecycle_step scheduler)\<^sup>*\<^sup>* (process_start scheduler) ?p4"
    using signalled_reachable [of scheduler] unfolding lifecycle_reachable_def
    by (meson rtranclp.rtrancl_into_rtrancl)
  then show ?thesis by (simp add: lifecycle_reachable_def process_start_def scheduler_def hanging_def)
qed

theorem scheduler_hangs_witness: "\<forall>q. \<not> lifecycle_step scheduler hanging q"
  using scheduler_hangs [OF scheduler_waiting] by (simp add: hanging_def)

text \<open>
  C37: The dispatcher's shutdown is a race it may lose: from the signal on, wherever the shutdown goroutine
  is, the consumer may end the process with code 1, since the end of its context is an error to it; a clean
  exit is still possible then, but only after the server has stopped.
\<close>

theorem dispatcher_shutdown_races:
  assumes "lifecycle_reachable dispatcher p" "alive p" "pr_signalled p" "pr_consumer p = Consuming"
  shows "lifecycle_step dispatcher p (p\<lparr>pr_main := ExitedWith 1\<rparr>)
    \<and> (\<exists>q. (lifecycle_step dispatcher)\<^sup>*\<^sup>* p q \<and> pr_main q = ExitedWith 0)
    \<and> (\<forall>q. (lifecycle_step dispatcher)\<^sup>*\<^sup>* p q \<and> pr_main q = ExitedWith 0 \<longrightarrow> pr_shutdown q = Stopped \<or> pr_shutdown q = Finished)"
proof (intro conjI allI impI)
  show "lifecycle_step dispatcher p (p\<lparr>pr_main := ExitedWith 1\<rparr>)" using assms(2,4,3) by (rule lifecycle_step.consumer_exits)
  show "\<exists>q. (lifecycle_step dispatcher)\<^sup>*\<^sup>* p q \<and> pr_main q = ExitedWith 0"
    using lifecycle_reachable_inv [OF assms(1)] assms(2,3) by (rule can_end_cleanly) (simp add: dispatcher_def)
next
  fix q
  assume q: "(lifecycle_step dispatcher)\<^sup>*\<^sup>* p q \<and> pr_main q = ExitedWith 0"
  with assms(1) have "lifecycle_reachable dispatcher q" unfolding lifecycle_reachable_def by (meson rtranclp_trans)
  then have "lifecycle_inv dispatcher q" by (rule lifecycle_reachable_inv)
  with q show "pr_shutdown q = Stopped \<or> pr_shutdown q = Finished"
    by (cases "pr_shutdown q") (auto simp: lifecycle_inv_def serve_may_return_def dispatcher_def)
qed

theorem dispatcher_shutdown_races_witness:
  "\<exists>p. lifecycle_reachable dispatcher p \<and> pr_shutdown p = WaitingSignal
     \<and> lifecycle_step dispatcher p (p\<lparr>pr_main := ExitedWith 1\<rparr>) \<and> (\<exists>q. (lifecycle_step dispatcher)\<^sup>*\<^sup>* p q \<and> pr_main q = ExitedWith 0)"
proof -
  let ?p = "(process_start dispatcher)\<lparr>pr_signalled := True\<rparr>"
  have "lifecycle_step dispatcher ?p (?p\<lparr>pr_consumer := Consuming\<rparr>)"
    by (rule lifecycle_step.subscribes) (simp_all add: process_start_def alive_def dispatcher_def)
  then have r: "lifecycle_reachable dispatcher (?p\<lparr>pr_consumer := Consuming\<rparr>)"
    using signalled_reachable [of dispatcher] unfolding lifecycle_reachable_def by (rule rtranclp.rtrancl_into_rtrancl [rotated])
  have "alive (?p\<lparr>pr_consumer := Consuming\<rparr>)" by (simp add: process_start_def alive_def)
  from dispatcher_shutdown_races [OF r this] r show ?thesis
    by (intro exI [where x = "?p\<lparr>pr_consumer := Consuming\<rparr>"]) (simp add: process_start_def)
qed

end
