(* ===== verification/NameSpec.thy ===== *)
theory NameSpec
  imports K8sNames
begin

section \<open>A reference definition of DNS names\<close>

text \<open>
  \<open>generateDNSName\<close> replaces, trims and squeezes step by step. What comes out is simpler to say: the
  words of letters and digits in the lower-cased name, joined by single hyphens and cut to 63
  bytes. This theory proves the two definitions equal.
\<close>

definition word_char :: "char \<Rightarrow> bool" where
  "word_char c = (dns_char c \<and> c \<noteq> CHR ''-'')"

fun begins_word :: "string \<Rightarrow> bool" where
  "begins_word [] = False"
| "begins_word (c # cs) = word_char c"

fun words_of :: "string \<Rightarrow> string list" where
  "words_of [] = []"
| "words_of (c # cs) =
     (if \<not> word_char c then words_of cs
      else if begins_word cs then (c # hd (words_of cs)) # tl (words_of cs)
      else [c] # words_of cs)"

fun hyphenated :: "string list \<Rightarrow> string" where
  "hyphenated [] = []"
| "hyphenated [w] = w"
| "hyphenated (w # ws) = w @ CHR ''-'' # hyphenated ws"

definition reference_DNSName :: "(string \<Rightarrow> string) \<Rightarrow> string \<Rightarrow> string" where
  "reference_DNSName uni name = take 63 (hyphenated (words_of (strings_ToLower uni name)))"

subsection \<open>The steps keep the words\<close>

text \<open>Two texts with the same words, one of which begins with a word exactly when the other does.\<close>

definition same_words :: "string \<Rightarrow> string \<Rightarrow> bool" where
  "same_words s t = (words_of s = words_of t \<and> begins_word s = begins_word t)"

lemma same_words_refl: "same_words s s"
  by (simp add: same_words_def)

lemma same_words_Cons: "same_words s t \<Longrightarrow> same_words (c # s) (c # t)"
  by (simp add: same_words_def)

lemma not_word_hyphen [simp]: "\<not> word_char (CHR ''-'')"
  by (simp add: word_char_def)

lemma words_of_dropWhile:
  "(\<And>c. p c \<Longrightarrow> \<not> word_char c) \<Longrightarrow> words_of (dropWhile p s) = words_of s"
  by (induction s) auto

lemma words_of_snoc:
  assumes "\<not> word_char c"
  shows "words_of (s @ [c]) = words_of s \<and> begins_word (s @ [c]) = begins_word s"
proof (induction s)
  case Nil
  with assms show ?case by simp
next
  case (Cons d s)
  then show ?case by simp
qed

lemma words_of_replicate: "words_of (s @ replicate n (CHR ''-'')) = words_of s"
proof (induction n arbitrary: s)
  case (Suc n)
  from Suc [of "s @ ''-''"] show ?case by (simp add: words_of_snoc)
qed simp

lemma words_of_replace_runs:
  assumes "\<And>c. p c \<Longrightarrow> \<not> word_char c"
  shows "same_words (replace_runs p ''-'' s) s"
proof (induction "length s" arbitrary: s rule: less_induct)
  case less
  show ?case
  proof (cases s)
    case Nil
    then show ?thesis by (simp add: same_words_refl)
  next
    case (Cons c cs)
    show ?thesis
    proof (cases "p c")
      case True
      have "length (dropWhile p cs) < length s" using Cons length_dropWhile_le [of p cs] by simp
      from less [OF this] True Cons assms words_of_dropWhile [of p cs] show ?thesis
        by (simp add: same_words_def)
    next
      case False
      with less [of cs] Cons show ?thesis by (simp add: same_words_Cons)
    qed
  qed
qed

lemma words_of_Trim: "words_of (strings_Trim s (CHR ''-'')) = words_of s"
proof -
  let ?t = "dropWhile (\<lambda>x. x = CHR ''-'') s"
  let ?k = "length (takeWhile (\<lambda>x. x = CHR ''-'') (rev ?t))"
  have "takeWhile (\<lambda>x. x = CHR ''-'') (rev ?t) = replicate ?k (CHR ''-'')"
    by (rule replicate_eqI) (auto dest: set_takeWhileD)
  then have "?t = rev (dropWhile (\<lambda>x. x = CHR ''-'') (rev ?t)) @ replicate ?k (CHR ''-'')"
    by (metis rev_append rev_replicate rev_rev_ident takeWhile_dropWhile_id)
  then have "?t = strings_Trim s (CHR ''-'') @ replicate ?k (CHR ''-'')"
    by (simp only: strings_Trim_def)
  then have "words_of ?t = words_of (strings_Trim s (CHR ''-''))"
    by (metis words_of_replicate)
  moreover have "words_of ?t = words_of s" by (rule words_of_dropWhile) simp
  ultimately show ?thesis by simp
qed

lemma same_words_hyphens: "same_words (replace_all ''--'' ''-'' s) s"
proof (induction s rule: induct_list012)
  case (3 c d cs)
  show ?case
  proof (cases "c = CHR ''-'' \<and> d = CHR ''-''")
    case True
    with 3 show ?thesis by (simp add: hyphens_pair same_words_def)
  next
    case False
    with 3 show ?thesis by (simp add: hyphens_other same_words_Cons del: words_of.simps begins_word.simps)
  qed
qed (simp_all add: hyphens_one same_words_refl)

lemma words_of_squeeze: "words_of (squeeze s) = words_of s"
proof -
  have "words_of (squeeze s) = words_of s"
    by (rule squeeze_invariant [where P = "\<lambda>t. words_of t = words_of s"])
       (use same_words_hyphens in \<open>simp_all add: same_words_def\<close>)
  then show ?thesis .
qed

lemma words_of_dns_body: "words_of (dns_body uni name) = words_of (strings_ToLower uni name)"
proof -
  have "same_words (replace_runs (\<lambda>c. \<not> dns_char c) ''-'' t) t" for t
    by (rule words_of_replace_runs) (simp add: word_char_def)
  then show ?thesis by (simp add: dns_body_def words_of_squeeze words_of_Trim same_words_def)
qed

subsection \<open>A clean name is its words, hyphenated\<close>

lemma hyphenated_Cons: "ws \<noteq> [] \<Longrightarrow> hyphenated (w # ws) = w @ CHR ''-'' # hyphenated ws"
  by (cases ws) simp_all

lemma words_of_Nil: "words_of s = [] \<longleftrightarrow> list_all (\<lambda>c. \<not> word_char c) s"
  by (induction s) auto

lemma hyphenated_words:
  assumes "set s \<subseteq> {c. dns_char c}" "\<not> contains s ''--''" "s \<noteq> [] \<Longrightarrow> last s \<noteq> CHR ''-''"
  shows "hyphenated (words_of s) = (if take 1 s = ''-'' then tl s else s)"
  using assms
proof (induction s)
  case (Cons c cs)
  show ?case
  proof (cases cs)
    case Nil
    with Cons.prems show ?thesis by (simp add: word_char_def)
  next
    case (Cons d ds)
    have ih: "hyphenated (words_of cs) = (if take 1 cs = ''-'' then tl cs else cs)"
      using Cons.prems Cons.IH \<open>cs = d # ds\<close> by simp
    show ?thesis
    proof (cases "c = CHR ''-''")
      case True
      with Cons.prems(2) Cons ih show ?thesis by auto
    next
      case False
      then have wc: "word_char c" using Cons.prems(1) by (simp add: word_char_def)
      show ?thesis
      proof (cases "d = CHR ''-''")
        case True
        have "last ds \<noteq> CHR ''-''" "ds \<noteq> []" using Cons.prems(3) Cons True by (auto split: if_splits)
        moreover from this(2) have "last ds \<in> set ds" by simp
        moreover from this have "dns_char (last ds)" using Cons.prems(1) Cons by auto
        ultimately have "words_of ds \<noteq> []" unfolding words_of_Nil list_all_iff word_char_def by blast
        with True wc ih Cons False show ?thesis by (simp add: hyphenated_Cons)
      next
        case False
        then have "word_char d" using Cons.prems(1) Cons by (simp add: word_char_def)
        then obtain w ws where ws: "words_of cs = w # ws" using Cons by (cases "words_of cs") (auto split: if_splits)
        have "hyphenated ((c # w) # ws) = c # hyphenated (w # ws)" by (cases ws) simp_all
        with ws wc \<open>word_char d\<close> ih Cons False \<open>c \<noteq> CHR ''-''\<close> show ?thesis by simp
      qed
    qed
  qed
qed simp

text \<open>
  C18: The DNS name of a namespace, computed by replacing, trimming and squeezing, is the words of
  letters and digits of the lower-cased name joined by single hyphens and cut to 63 bytes.
\<close>

theorem DNSName_reference: "generateDNSName uni name = reference_DNSName uni name"
proof -
  let ?b = "dns_body uni name"
  have "hyphenated (words_of ?b) = (if take 1 ?b = ''-'' then tl ?b else ?b)"
    using dns_body_alphabet dns_body_single dns_body_ends [of uni name]
    by (intro hyphenated_words) (auto simp: no_end_hyphen_def)
  moreover have "take 1 ?b \<noteq> ''-''" using dns_body_ends [of uni name] by (cases ?b) (auto simp: no_end_hyphen_def)
  ultimately have "hyphenated (words_of ?b) = ?b" by simp
  then show ?thesis by (simp add: generateDNSName_body reference_DNSName_def words_of_dns_body)
qed

end
