(* ===== verification/RuntimeLogs.thy ===== *)
theory RuntimeLogs
  imports Runtime
begin

section \<open>The output of a process (collectLogs in services/runtime/server/execution.go)\<close>

text \<open>
  Two goroutines read the process's stdout and stderr and log them line by line. The
  \<open>bufio.Scanner\<close> they use is modelled with the things the code relies on: what is a line, the
  64 KiB its buffer holds, and that a read error ends the input like its end does, but is reported.
\<close>

definition newline :: byte where
  "newline = 10"

definition MaxScanTokenSize :: nat where
  "MaxScanTokenSize = 65536"

text \<open>\<open>bufio.ScanLines\<close> drops one trailing carriage return.\<close>

definition drop_cr :: "byte list \<Rightarrow> byte list" where
  "drop_cr l = (if l \<noteq> [] \<and> last l = 13 then butlast l else l)"

text \<open>
  The lines scanned with a buffer of \<open>limit\<close> bytes, and whether the scan stopped because the buffer was
  full and held no end of line; what it did not deliver is the third component.
\<close>

function scan_lines :: "nat \<Rightarrow> byte list \<Rightarrow> byte list list \<times> bool \<times> byte list" where
  "scan_lines limit s =
     (if s = [] then ([], False, [])
      else
        (let w = takeWhile (\<lambda>b. b \<noteq> newline) s in
         if limit \<le> length w then ([], True, s)
         else
           (case scan_lines limit (drop (Suc (length w)) s) of
              (ls, too_long, left) \<Rightarrow> (drop_cr w # ls, too_long, left))))"
  by pat_completeness auto
termination by (relation "measure (\<lambda>(limit, s). length s)") auto

declare scan_lines.simps [simp del]

datatype log_record =
    OutputLine string string "byte list" \<comment> \<open>job id, stream, text\<close>
  | StreamError string string

text \<open>
  \<open>r\<close> is what is read from the pipe; \<open>closed\<close> says that the reading ended in an error. \<open>cmd.Wait\<close> of the
  goroutine that started this one closes the pipe when the process has exited, read or not.
\<close>

definition collectLogs :: "Execution \<Rightarrow> string \<Rightarrow> byte list \<Rightarrow> bool \<Rightarrow> log_record list" where
  "collectLogs execRec stream r closed =
     (case scan_lines MaxScanTokenSize r of
        (ls, too_long, left) \<Rightarrow>
          map (OutputLine (ex_JobID execRec) stream) ls @
          (if too_long \<or> closed then [StreamError (ex_JobID execRec) stream] else []))"

subsection \<open>Lines\<close>

definition one_line :: "byte list \<Rightarrow> bool" where
  "one_line l = (newline \<notin> set l)"

definition unlines :: "byte list list \<Rightarrow> byte list" where
  "unlines ls = concat (map (\<lambda>l. l @ [newline]) ls)"

lemma first_line: "one_line l \<Longrightarrow> takeWhile (\<lambda>b. b \<noteq> newline) (l @ newline # s) = l"
  unfolding one_line_def by (subst takeWhile_append2) auto

lemma scan_line:
  "one_line l \<Longrightarrow> length l < limit \<Longrightarrow> scan_lines limit (l @ newline # s) =
     (case scan_lines limit s of (ls, too_long, left) \<Rightarrow> (drop_cr l # ls, too_long, left))"
  by (subst scan_lines.simps) (simp add: first_line Let_def)

lemma scan_unlines:
  "(\<And>l. l \<in> set ls \<Longrightarrow> one_line l \<and> length l < limit) \<Longrightarrow>
   scan_lines limit (unlines ls @ s) =
     (case scan_lines limit s of (ls', too_long, left) \<Rightarrow> (map drop_cr ls @ ls', too_long, left))"
  by (induction ls) (simp_all add: unlines_def scan_line split: prod.split)

lemma scan_long:
  "limit \<le> length (takeWhile (\<lambda>b. b \<noteq> newline) s) \<Longrightarrow> 0 < limit \<Longrightarrow> scan_lines limit s = ([], True, s)"
  by (subst scan_lines.simps) auto



text \<open>
  C35: A line of 64 KiB or more ends the logging of its stream: the lines before it are logged, then one
  error, and neither it nor anything after it is logged or read.
\<close>

theorem long_line_stops:
  assumes "\<And>l. l \<in> set ls \<Longrightarrow> one_line l \<and> length l < MaxScanTokenSize"
    and "one_line l" "MaxScanTokenSize \<le> length l"
  shows "collectLogs e stream (unlines ls @ l @ rest) closed =
      map (\<lambda>l. OutputLine (ex_JobID e) stream (drop_cr l)) ls @ [StreamError (ex_JobID e) stream]
    \<and> snd (snd (scan_lines MaxScanTokenSize (unlines ls @ l @ rest))) = l @ rest"
proof -
  have "takeWhile (\<lambda>b. b \<noteq> newline) (l @ rest) = l @ takeWhile (\<lambda>b. b \<noteq> newline) rest"
    using assms(2) by (intro takeWhile_append2) (auto simp: one_line_def)
  then have "length l \<le> length (takeWhile (\<lambda>b. b \<noteq> newline) (l @ rest))" by simp
  with assms(3) have "scan_lines MaxScanTokenSize (l @ rest) = ([], True, l @ rest)"
    by (intro scan_long) (simp_all add: MaxScanTokenSize_def)
  with scan_unlines [OF assms(1), of ls "l @ rest"] show ?thesis by (simp add: collectLogs_def)
qed

theorem long_line_stops_witness:
  "collectLogs (new_exec ''e1'' sample_run_req 0) ''stdout'' (unlines [[104]] @ replicate MaxScanTokenSize 65 @ unlines [[], [104]]) False =
     [OutputLine (rr_JobId sample_run_req) ''stdout'' [104], StreamError (rr_JobId sample_run_req) ''stdout'']"
proof -
  have "one_line (replicate MaxScanTokenSize 65)" by (auto simp: one_line_def newline_def)
  from long_line_stops [OF _ this, of "[[104]]" "new_exec ''e1'' sample_run_req 0" "''stdout''" "unlines [[], [104]]" False]
  moreover have "1 < MaxScanTokenSize" by (simp add: MaxScanTokenSize_def)
  ultimately show ?thesis by (simp add: one_line_def newline_def drop_cr_def new_exec_def)
qed

text \<open>A cut of the output: whole lines, and the beginning of the next one.\<close>

lemma take_unlines:
  assumes "k \<le> length (unlines ls)"
  shows "\<exists>n p. take k (unlines ls) = unlines (take n ls) @ p \<and> n \<le> length ls \<and> (p = [] \<or> n < length ls \<and> prefix p (ls ! n))"
  using assms
proof (induction ls arbitrary: k)
  case (Cons l ls)
  show ?case
  proof (cases "k \<le> length l")
    case True
    then have "take k (unlines (l # ls)) = unlines (take 0 (l # ls)) @ take k l" by (simp add: unlines_def)
    moreover have "prefix (take k l) ((l # ls) ! 0)" by (simp add: take_is_prefix)
    ultimately show ?thesis by (intro exI [where x = 0] exI [where x = "take k l"]) simp
  next
    case False
    then have split: "take k (unlines (l # ls)) = (l @ [newline]) @ take (k - Suc (length l)) (unlines ls)"
      by (simp add: unlines_def take_Cons')
    from Cons.prems have "k - Suc (length l) \<le> length (unlines ls)" by (simp add: unlines_def)
    from Cons.IH [OF this] obtain n p where np: "take (k - Suc (length l)) (unlines ls) = unlines (take n ls) @ p"
      "n \<le> length ls" "p = [] \<or> n < length ls \<and> prefix p (ls ! n)" by blast
    with split show ?thesis
      by (intro exI [where x = "Suc n"] exI [where x = p]) (simp add: unlines_def)
  qed
qed (simp add: unlines_def)

lemma scan_rest:
  assumes "one_line p" "length p < limit"
  shows "scan_lines limit p = (if p = [] then [] else [drop_cr p], False, [])"
proof -
  have w: "takeWhile (\<lambda>b. b \<noteq> newline) p = p" using assms(1) by (auto simp: one_line_def takeWhile_eq_all_conv)
  have nil: "scan_lines limit [] = ([], False, [])" by (subst scan_lines.simps) simp
  show ?thesis using assms(2) by (subst scan_lines.simps) (simp add: w nil Let_def)
qed

text \<open>
  C34: The end of a process can cut its output short: if \<open>Wait\<close> closes the pipe when \<open>k\<close> bytes have been read,
  the lines logged are the first lines of the output and perhaps the beginning of the next one as if it were
  a line, and then an error; the rest is lost. Nothing is logged that was not written.
\<close>

theorem output_cut_short:
  assumes "\<And>l. l \<in> set ls \<Longrightarrow> one_line l \<and> length l < MaxScanTokenSize" "k \<le> length (unlines ls)"
  shows "\<exists>n part. n \<le> length ls \<and> k \<le> length (unlines (take n ls)) + length part
    \<and> (part = [] \<or> n < length ls \<and> prefix part (ls ! n))
    \<and> collectLogs e stream (take k (unlines ls)) True =
        map (\<lambda>l. OutputLine (ex_JobID e) stream (drop_cr l)) (take n ls @ (if part = [] then [] else [part])) @
        [StreamError (ex_JobID e) stream]"
proof -
  from take_unlines [OF assms(2)] obtain n p where cut: "take k (unlines ls) = unlines (take n ls) @ p" "n \<le> length ls"
    "p = [] \<or> n < length ls \<and> prefix p (ls ! n)" by blast
  have p: "one_line p \<and> length p < MaxScanTokenSize"
  proof (cases "p = []")
    case True
    then show ?thesis by (simp add: one_line_def MaxScanTokenSize_def)
  next
    case False
    with cut(3) have "n < length ls" "prefix p (ls ! n)" by simp_all
    with assms(1) [of "ls ! n"] show ?thesis
      using prefix_length_le [of p "ls ! n"] set_mono_prefix [of p "ls ! n"] by (auto simp: one_line_def)
  qed
  have whole: "one_line l \<and> length l < MaxScanTokenSize" if "l \<in> set (take n ls)" for l
    using assms(1) in_set_takeD [OF that] by blast
  have "k \<le> length (unlines (take n ls)) + length p"
    using cut(1) assms(2) by (metis length_append length_take min.absorb2 order_refl)
  moreover have "collectLogs e stream (take k (unlines ls)) True =
      map (\<lambda>l. OutputLine (ex_JobID e) stream (drop_cr l)) (take n ls @ (if p = [] then [] else [p])) @
      [StreamError (ex_JobID e) stream]"
    unfolding cut(1) using scan_unlines [OF whole, of "take n ls" p] scan_rest [of p MaxScanTokenSize] p
    by (simp add: collectLogs_def)
  ultimately show ?thesis using cut(2,3) by blast
qed

theorem output_cut_short_witness:
  "\<exists>n part. 1 \<le> length (unlines (take n [[104, 105]])) + length part \<and>
     collectLogs (new_exec ''e1'' sample_run_req 0) ''stdout'' (take 1 (unlines [[104, 105]])) True =
       map (\<lambda>l. OutputLine (rr_JobId sample_run_req) ''stdout'' (drop_cr l)) (take n [[104, 105]] @ (if part = [] then [] else [part])) @
       [StreamError (rr_JobId sample_run_req) ''stdout'']"
proof -
  have "one_line l \<and> length l < MaxScanTokenSize" if "l \<in> set [[104, 105]]" for l :: "byte list"
    using that by (simp add: one_line_def newline_def MaxScanTokenSize_def)
  moreover have "1 \<le> length (unlines [[104, 105 :: byte]])" by (simp add: unlines_def)
  ultimately obtain n part where "1 \<le> length (unlines (take n [[104, 105 :: byte]])) + length part"
    "collectLogs (new_exec ''e1'' sample_run_req 0) ''stdout'' (take 1 (unlines [[104, 105]])) True =
       map (\<lambda>l. OutputLine (ex_JobID (new_exec ''e1'' sample_run_req 0)) ''stdout'' (drop_cr l))
         (take n [[104, 105]] @ (if part = [] then [] else [part])) @
       [StreamError (ex_JobID (new_exec ''e1'' sample_run_req 0)) ''stdout'']"
    using output_cut_short [of "[[104, 105]]" 1 "new_exec ''e1'' sample_run_req 0" "''stdout''"] by blast
  then show ?thesis by (intro exI [where x = n] exI [where x = part]) (simp add: new_exec_def)
qed

end
