(* ===== verification/Refinement.thy ===== *)
theory Refinement
  imports Main
begin

section \<open>Simulations\<close>

text \<open>
  A detailed transition system refines an abstract one when every detailed step is matched by
  abstract steps, none or several, that keep the two states related. Runs, and with them
  invariants, then carry over.
\<close>

locale simulation =
  fixes cinit :: "'c \<Rightarrow> bool"
    and cstep :: "'c \<Rightarrow> 'c \<Rightarrow> bool"
    and ainit :: "'a \<Rightarrow> bool"
    and astep :: "'a \<Rightarrow> 'a \<Rightarrow> bool"
    and related :: "'c \<Rightarrow> 'a \<Rightarrow> bool"
  assumes related_init: "cinit c \<Longrightarrow> \<exists>a. ainit a \<and> related c a"
    and related_step: "related c a \<Longrightarrow> cstep c d \<Longrightarrow> \<exists>b. astep\<^sup>*\<^sup>* a b \<and> related d b"
begin

lemma related_run: "cstep\<^sup>*\<^sup>* c d \<Longrightarrow> related c a \<Longrightarrow> \<exists>b. astep\<^sup>*\<^sup>* a b \<and> related d b"
proof (induction rule: rtranclp_induct)
  case base
  then show ?case by blast
next
  case (step d e)
  then obtain b where "astep\<^sup>*\<^sup>* a b" "related d b" by blast
  with related_step [OF this(2) step(2)] show ?case by (meson rtranclp_trans)
qed

lemma refines: "cinit c \<Longrightarrow> cstep\<^sup>*\<^sup>* c d \<Longrightarrow> \<exists>a b. ainit a \<and> astep\<^sup>*\<^sup>* a b \<and> related d b"
  using related_init related_run by blast

text \<open>An invariant of the abstract system holds of an abstract state of every detailed one.\<close>

lemma transfers:
  assumes "\<And>a. ainit a \<Longrightarrow> I a" "\<And>a b. I a \<Longrightarrow> astep a b \<Longrightarrow> I b" "cinit c" "cstep\<^sup>*\<^sup>* c d"
  shows "\<exists>b. related d b \<and> I b"
proof -
  from refines [OF assms(3,4)] obtain a b where ab: "ainit a" "astep\<^sup>*\<^sup>* a b" "related d b" by blast
  from ab(2) have "I b"
    by (induction rule: rtranclp_induct) (use assms(1) [OF ab(1)] assms(2) in blast)+
  with ab(3) show ?thesis by blast
qed

end

end
