(* ===== verification/ConsumerSpec.thy ===== *)
theory ConsumerSpec
  imports Consumer Refinement
begin

section \<open>What the consumer implements: a pool of workers\<close>

text \<open>
  Seen from outside, the consumer is a pool with room for \<open>n\<close> jobs: jobs wait in the order of
  the queue, the first one starts when there is room, and a running job completes at any time. The
  semaphore, the settlements, the deliveries that do not parse and the phases of the loop are details.
\<close>

record pool =
  po_waiting :: "JobMessage list"
  po_active :: "JobMessage multiset"
  po_done :: "JobMessage multiset"

definition pool_start :: "JobMessage list \<Rightarrow> pool" where
  "pool_start ms = \<lparr>po_waiting = ms, po_active = {#}, po_done = {#}\<rparr>"

inductive pool_step :: "nat \<Rightarrow> pool \<Rightarrow> pool \<Rightarrow> bool" for n :: nat where
  begin_job: "po_waiting p = m # ms \<Longrightarrow> size (po_active p) < n \<Longrightarrow>
    pool_step n p (p\<lparr>po_waiting := ms, po_active := add_mset m (po_active p)\<rparr>)"
| complete_job: "po_active p = add_mset m ms \<Longrightarrow>
    pool_step n p (p\<lparr>po_active := ms, po_done := add_mset m (po_done p)\<rparr>)"

text \<open>The pool a state of the consumer stands for.\<close>

definition pool_of :: "consumer \<Rightarrow> pool" where
  "pool_of c =
     \<lparr>po_waiting = (case cq_phase c of Entering _ m \<Rightarrow> [m] | _ \<Rightarrow> []) @ jobs_of (cq_queue c),
      po_active = mset (cq_running c), po_done = mset (cq_finished c)\<rparr>"

definition represents :: "(nat \<times> JobMessage option) list \<Rightarrow> nat \<Rightarrow> consumer \<Rightarrow> pool \<Rightarrow> bool" where
  "represents q n c p = (consumer_inv q n c \<and> p = pool_of c)"

lemma pool_of_step:
  assumes "consumer_step c d" "consumer_inv q n c"
  shows "pool_of d = pool_of c \<or> pool_step n (pool_of c) (pool_of d)"
  using assms(1)
proof cases
  case (receive tag m q')
  then show ?thesis by (simp add: pool_of_def)
next
  case (enter tag m s)
  have "length (cq_running c) < n"
    using assms(2) sem.acquire_Some [OF enter(3)] by (simp add: consumer_inv_def)
  then have "pool_step n (pool_of c)
      ((pool_of c)\<lparr>po_waiting := jobs_of (cq_queue c), po_active := add_mset m (po_active (pool_of c))\<rparr>)"
    using enter by (intro pool_step.begin_job) (simp_all add: pool_of_def)
  with enter show ?thesis by (simp add: pool_of_def)
next
  case (reject tag q')
  then show ?thesis by (simp add: pool_of_def)
next
  case (acknowledge tag)
  then show ?thesis by (simp add: pool_of_def)
next
  case cancel
  then show ?thesis by (simp add: pool_of_def)
next
  case stop
  then show ?thesis by (simp add: pool_of_def)
next
  case (finish xs m ys s)
  then have "pool_step n (pool_of c)
      ((pool_of c)\<lparr>po_active := mset (xs @ ys), po_done := add_mset m (po_done (pool_of c))\<rparr>)"
    by (intro pool_step.complete_job) (simp add: pool_of_def)
  with finish show ?thesis by (simp add: pool_of_def split: consumer_phase.split)
qed

interpretation consumer_pool: simulation
  "\<lambda>c. c = consumer_start q (make_chan n)" consumer_step "\<lambda>p. p = pool_start (jobs_of q)" "pool_step n" "represents q n"
  for q n
proof
  show "\<exists>p. p = pool_start (jobs_of q) \<and> represents q n c p" if "c = consumer_start q (make_chan n)" for c
    using that consumer_inv_start by (simp add: represents_def pool_of_def pool_start_def consumer_start_def)
  show "\<exists>b. (pool_step n)\<^sup>*\<^sup>* p b \<and> represents q n d b" if "represents q n c p" "consumer_step c d" for c p d
    using that pool_of_step [of c d q n] consumer_inv_step [of c d q n] by (auto simp: represents_def)
qed

text \<open>
  C13: The consumer refines the pool: whatever it does over a queue is a run of the pool over the
  queue's messages, so jobs start in queue order, each once, and never more than there is room for.
\<close>

theorem consumer_refines_pool:
  assumes "consumer_reachable q (make_chan n) c"
  shows "(pool_step n)\<^sup>*\<^sup>* (pool_start (jobs_of q)) (pool_of c)"
  using consumer_pool.refines [of _ q n c] assms by (simp add: consumer_reachable_def represents_def)

theorem consumer_refines_pool_witness:
  "(pool_step 1)\<^sup>*\<^sup>* (pool_start [plain_message]) \<lparr>po_waiting = [], po_active = {#plain_message#}, po_done = {#}\<rparr>"
  using consumer_refines_pool [OF sample_run] by (simp add: pool_of_def busy_def)

end
