(* ===== verification/RuntimeMachine.thy ===== *)
theory RuntimeMachine
  imports Runtime Refinement
begin

section \<open>The runtime's goroutines as a state machine\<close>

text \<open>
  The theory Runtime gives what one goroutine does by itself. Here all goroutines of a runtime share the
  table: the handlers of \<open>Run\<close>, one \<open>execute\<close> per execution and the reporting loop, in any
  interleaving. A step is one store to shared data, or one load of the loop. The loop holds the read
  lock of the table from the beginning of a tick to its end, so \<open>Run\<close> and the removal, which take
  the write lock, wait for it; the stores to an execution are atomic and do not.
\<close>

subsection \<open>One execution\<close>

datatype exec_pc = Registered | Began | Waiting int64 | Ended | Panicked

inductive exec_move :: "RunRequest \<Rightarrow> exec_pc \<times> Execution \<Rightarrow> exec_pc \<times> Execution \<Rightarrow> bool" for req :: RunRequest where
  begins: "exec_move req (Registered, e) (Began, e\<lparr>ex_Status := EXECUTION_STATUS_RUNNING, ex_StartedAt := now\<rparr>)"
| panics: "rr_Entrypoint req = [] \<Longrightarrow> exec_move req (Began, e) (Panicked, e)"
| start_fails: "rr_Entrypoint req \<noteq> [] \<Longrightarrow>
    exec_move req (Began, e) (Ended, e\<lparr>ex_Status := EXECUTION_STATUS_FAILED, ex_Error := error_text err\<rparr>)"
| starts: "rr_Entrypoint req \<noteq> [] \<Longrightarrow> exec_move req (Began, e) (Waiting pid, e\<lparr>ex_PID := pid\<rparr>)"
| finishes: "exec_move req (Waiting pid, e) (Ended, e\<lparr>ex_FinishedAt := Some now, ex_Status := end_status ending,
      ex_Error := end_error ending (ex_Error e)\<rparr>)"

inductive_cases exec_moveE: "exec_move req (pc, e) (pc', e')"

subsection \<open>The machine\<close>

text \<open>The loop: between ticks, about to check the next execution, or past a check.\<close>

datatype beat_pc = BeatIdle | Scanning "string list" | Checked string "string list"

record machine =
  mc_table :: "string \<rightharpoonup> Execution"
  mc_gos :: "string \<rightharpoonup> RunRequest \<times> exec_pc"
  mc_beat :: beat_pc
  mc_sent :: "HeartbeatRequest list"
  mc_crashed :: bool

definition machine_start :: machine where
  "machine_start = \<lparr>mc_table = Map.empty, mc_gos = Map.empty, mc_beat = BeatIdle, mc_sent = [], mc_crashed = False\<rparr>"

text \<open>Execution ids are not used again: \<open>run\<close> takes one that is free.\<close>

inductive machine_step :: "machine \<Rightarrow> machine \<Rightarrow> bool" where
  run: "\<not> mc_crashed m \<Longrightarrow> mc_beat m = BeatIdle \<Longrightarrow> mc_gos m i = None \<Longrightarrow>
    machine_step m (m\<lparr>mc_table := (mc_table m)(i \<mapsto> new_exec i req now), mc_gos := (mc_gos m)(i \<mapsto> (req, Registered))\<rparr>)"
| move: "\<not> mc_crashed m \<Longrightarrow> mc_gos m i = Some (req, pc) \<Longrightarrow> mc_table m i = Some e \<Longrightarrow> exec_move req (pc, e) (pc', e') \<Longrightarrow>
    machine_step m (m\<lparr>mc_table := (mc_table m)(i \<mapsto> e'), mc_gos := (mc_gos m)(i \<mapsto> (req, pc'))\<rparr>)"
| remove: "\<not> mc_crashed m \<Longrightarrow> mc_beat m = BeatIdle \<Longrightarrow> mc_gos m i = Some (req, pc) \<Longrightarrow> pc = Ended \<or> pc = Panicked \<Longrightarrow>
    machine_step m (m\<lparr>mc_table := (mc_table m)(i := None), mc_gos := (mc_gos m)(i := None), mc_crashed := (pc = Panicked)\<rparr>)"
| tick: "\<not> mc_crashed m \<Longrightarrow> mc_beat m = BeatIdle \<Longrightarrow> distinct order \<Longrightarrow> set order = dom (mc_table m) \<Longrightarrow>
    machine_step m (m\<lparr>mc_beat := Scanning order\<rparr>)"
| check: "\<not> mc_crashed m \<Longrightarrow> mc_beat m = Scanning (i # is) \<Longrightarrow> mc_table m i = Some e \<Longrightarrow>
    machine_step m (m\<lparr>mc_beat := (if ex_Status e = EXECUTION_STATUS_RUNNING then Checked i is else Scanning is)\<rparr>)"
| send: "\<not> mc_crashed m \<Longrightarrow> mc_beat m = Checked i is \<Longrightarrow> mc_table m i = Some e \<Longrightarrow>
    machine_step m (m\<lparr>mc_beat := Scanning is, mc_sent := mc_sent m @ [heartbeat_of e now]\<rparr>)"
| send_fails: "\<not> mc_crashed m \<Longrightarrow> mc_beat m = Checked i is \<Longrightarrow>
    machine_step m (m\<lparr>mc_beat := BeatIdle\<rparr>)"
| tick_ends: "\<not> mc_crashed m \<Longrightarrow> mc_beat m = Scanning [] \<Longrightarrow>
    machine_step m (m\<lparr>mc_beat := BeatIdle\<rparr>)"

inductive_cases machine_stepE: "machine_step m n"

definition machine_reachable :: "machine \<Rightarrow> bool" where
  "machine_reachable m = machine_step\<^sup>*\<^sup>* machine_start m"

subsection \<open>Invariants\<close>

text \<open>What the fields of an execution say at each point of its goroutine.\<close>

definition agrees :: "string \<Rightarrow> exec_pc \<Rightarrow> Execution \<Rightarrow> bool" where
  "agrees i pc e =
     (ex_ID e = i \<and>
      (case pc of
         Registered \<Rightarrow> ex_Status e = EXECUTION_STATUS_PENDING \<and> ex_PID e = 0 \<and> ex_FinishedAt e = None
       | Began \<Rightarrow> ex_Status e = EXECUTION_STATUS_RUNNING \<and> ex_PID e = 0 \<and> ex_FinishedAt e = None
       | Waiting pid \<Rightarrow> ex_Status e = EXECUTION_STATUS_RUNNING \<and> ex_PID e = pid \<and> ex_FinishedAt e = None
       | Ended \<Rightarrow> ex_Status e = EXECUTION_STATUS_SUCCEEDED \<or> ex_Status e = EXECUTION_STATUS_FAILED
       | Panicked \<Rightarrow> ex_Status e = EXECUTION_STATUS_RUNNING))"

text \<open>The executions the loop has still to visit are in the table, which the lock keeps so.\<close>

definition visits :: "beat_pc \<Rightarrow> string list" where
  "visits b = (case b of BeatIdle \<Rightarrow> [] | Scanning is \<Rightarrow> is | Checked i is \<Rightarrow> i # is)"

definition table_agrees :: "machine \<Rightarrow> bool" where
  "table_agrees m =
     (\<forall>i. case (mc_table m i, mc_gos m i) of
        (None, None) \<Rightarrow> True | (Some e, Some (req, pc)) \<Rightarrow> agrees i pc e | _ \<Rightarrow> False)"

definition past_check :: "machine \<Rightarrow> bool" where
  "past_check m =
     (case mc_beat m of Checked i is \<Rightarrow> (case mc_table m i of Some e \<Rightarrow> ex_Status e \<noteq> EXECUTION_STATUS_PENDING | None \<Rightarrow> False)
      | _ \<Rightarrow> True)"

definition sent_after_start :: "machine \<Rightarrow> bool" where
  "sent_after_start m = list_all (\<lambda>hb. hb_Status hb \<noteq> EXECUTION_STATUS_PENDING) (mc_sent m)"

definition machine_inv :: "machine \<Rightarrow> bool" where
  "machine_inv m =
     (table_agrees m \<and> distinct (visits (mc_beat m)) \<and> set (visits (mc_beat m)) \<subseteq> dom (mc_table m) \<and>
      past_check m \<and> sent_after_start m)"

lemma end_status_cases: "end_status ending = EXECUTION_STATUS_SUCCEEDED \<or> end_status ending = EXECUTION_STATUS_FAILED"
  by (simp add: end_status_def split: exec_end.split option.split)

lemma end_status_not_pending: "end_status ending \<noteq> EXECUTION_STATUS_PENDING"
  by (simp add: end_status_def split: exec_end.split option.split)

lemma end_status_other: "end_status ending \<noteq> EXECUTION_STATUS_FAILED \<Longrightarrow> end_status ending = EXECUTION_STATUS_SUCCEEDED"
  using end_status_cases by blast

lemma agrees_new: "agrees i Registered (new_exec i req now)"
  by (simp add: agrees_def new_exec_def)

lemma agrees_move: "exec_move req (pc, e) (pc', e') \<Longrightarrow> agrees i pc e \<Longrightarrow> agrees i pc' e'"
  by (erule exec_moveE) (use end_status_cases in \<open>auto simp: agrees_def\<close>)

lemma move_not_pending:
  "exec_move req (pc, e) (pc', e') \<Longrightarrow> agrees i pc e \<Longrightarrow> ex_Status e' \<noteq> EXECUTION_STATUS_PENDING"
  by (erule exec_moveE) (auto simp: agrees_def end_status_not_pending)

lemma table_agrees_upd:
  "table_agrees m \<Longrightarrow> agrees i pc e \<Longrightarrow>
   table_agrees (m\<lparr>mc_table := (mc_table m)(i \<mapsto> e), mc_gos := (mc_gos m)(i \<mapsto> (req, pc))\<rparr>)"
  by (simp add: table_agrees_def)

lemma table_agrees_look:
  assumes "table_agrees m" "mc_gos m i = Some (req, pc)" "mc_table m i = Some e"
  shows "agrees i pc e"
  using assms(1) [unfolded table_agrees_def, rule_format, of i] assms(2,3) by simp

lemma table_agrees_dom:
  assumes "table_agrees m"
  shows "mc_table m i = None \<longleftrightarrow> mc_gos m i = None"
  using assms [unfolded table_agrees_def, rule_format, of i] by (auto split: option.splits)

lemma table_agrees_frame: "mc_table n = mc_table m \<Longrightarrow> mc_gos n = mc_gos m \<Longrightarrow> table_agrees n = table_agrees m"
  by (simp add: table_agrees_def)

lemma machine_inv_start: "machine_inv machine_start"
  by (simp add: machine_inv_def machine_start_def table_agrees_def visits_def past_check_def sent_after_start_def)

lemma inv_move:
  assumes inv: "machine_inv m" and gos: "mc_gos m i = Some (req, pc)" and e: "mc_table m i = Some e"
    and step: "exec_move req (pc, e) (pc', e')"
  shows "machine_inv (m\<lparr>mc_table := (mc_table m)(i \<mapsto> e'), mc_gos := (mc_gos m)(i \<mapsto> (req, pc'))\<rparr>)" (is "machine_inv ?n")
proof -
  from inv have tab: "table_agrees m" by (simp add: machine_inv_def)
  from table_agrees_look [OF tab gos e] have ag: "agrees i pc e" .
  have "table_agrees ?n" using tab agrees_move [OF step ag] by (rule table_agrees_upd)
  moreover have "past_check ?n"
    using inv e move_not_pending [OF step ag] by (auto simp: machine_inv_def past_check_def split: beat_pc.splits)
  ultimately show ?thesis using inv e by (auto simp: machine_inv_def sent_after_start_def)
qed

lemma inv_send:
  assumes "machine_inv m" "mc_beat m = Checked i is" "mc_table m i = Some e"
  shows "machine_inv (m\<lparr>mc_beat := Scanning is, mc_sent := mc_sent m @ [heartbeat_of e now]\<rparr>)"
  using assms
  by (auto simp: machine_inv_def visits_def past_check_def sent_after_start_def heartbeat_of_def table_agrees_def)

lemma machine_inv_step:
  assumes "machine_step m n" "machine_inv m"
  shows "machine_inv n"
  using assms(1)
proof cases
  case (run i req now)
  with assms(2) show ?thesis
    by (auto simp: machine_inv_def visits_def past_check_def sent_after_start_def intro: table_agrees_upd agrees_new)
next
  case (move i req pc e pc' e')
  with assms(2) show ?thesis by (simp add: inv_move)
next
  case (remove i req pc)
  with assms(2) show ?thesis
    by (auto simp: machine_inv_def visits_def past_check_def sent_after_start_def table_agrees_def)
next
  case (send i "is" e now)
  with assms(2) show ?thesis by (simp add: inv_send)
next
  case (check i "is" e)
  with assms(2) show ?thesis
    by (auto simp: machine_inv_def visits_def past_check_def sent_after_start_def table_agrees_def)
qed (use assms(2) in \<open>auto simp: machine_inv_def visits_def past_check_def sent_after_start_def table_agrees_def\<close>)

lemma machine_reachable_inv: "machine_reachable m \<Longrightarrow> machine_inv m"
  unfolding machine_reachable_def
  by (induction rule: rtranclp_induct) (simp_all add: machine_inv_start machine_inv_step)

subsection \<open>The program is a run of the machine\<close>

definition put_go :: "string \<Rightarrow> RunRequest \<Rightarrow> exec_pc \<times> Execution \<Rightarrow> machine \<Rightarrow> machine" where
  "put_go i req g m =
     m\<lparr>mc_table := (mc_table m)(i \<mapsto> snd g), mc_gos := (mc_gos m)(i \<mapsto> (req, fst g))\<rparr>"

lemma put_go_simps [simp]:
  "mc_table (put_go i req g m) = (mc_table m)(i \<mapsto> snd g)" "mc_gos (put_go i req g m) = (mc_gos m)(i \<mapsto> (req, fst g))"
  "mc_beat (put_go i req g m) = mc_beat m" "mc_sent (put_go i req g m) = mc_sent m"
  "mc_crashed (put_go i req g m) = mc_crashed m"
  by (simp_all add: put_go_def)

lemma put_go_again [simp]: "put_go i req g (put_go i req h m) = put_go i req g m"
  by (simp add: put_go_def)

lemma moves_lift:
  assumes "(exec_move req)\<^sup>*\<^sup>* g h" "\<not> mc_crashed m"
  shows "machine_step\<^sup>*\<^sup>* (put_go i req g m) (put_go i req h m)"
  using assms(1)
proof (induction rule: rtranclp_induct)
  case base
  then show ?case by simp
next
  case (step h k)
  have "machine_step (put_go i req h m) (put_go i req k (put_go i req h m))"
    unfolding put_go_def [of i req k]
    by (rule machine_step.move [where pc = "fst h" and e = "snd h"]) (use assms(2) step(2) in simp_all)
  with step(3) show ?case by simp
qed

lemma outcome_moves:
  assumes "process_outcome environ0 req ending r e e' es"
  shows "\<exists>pc. (exec_move req)\<^sup>*\<^sup>* (Began, e) (pc, e') \<and> (pc = Ended \<and> is_ok r \<or> pc = Panicked \<and> \<not> is_ok r)"
proof (cases "rr_Entrypoint req")
  case Nil
  with assms have "e' = e" "\<not> is_ok r" by (auto simp: process_outcome_def)
  with exec_move.panics [OF Nil, of e] show ?thesis by blast
next
  case (Cons name args)
  then have ne: "rr_Entrypoint req \<noteq> []" by simp
  from assms Cons have r: "is_ok r" by (simp add: process_outcome_def)
  from assms Cons obtain rs rest where rs: "case rs of
      Inl err \<Rightarrow> rest = [] \<and> e' = e\<lparr>ex_Status := EXECUTION_STATUS_FAILED, ex_Error := error_text err\<rparr>
    | Inr pid \<Rightarrow> list_all2 (is_signal pid) (signals ending) rest \<and> (\<exists>now. e' = e\<lparr>ex_PID := pid, ex_FinishedAt := Some now,
        ex_Status := end_status ending, ex_Error := end_error ending (ex_Error e)\<rparr>)"
    by (simp only: process_outcome_def list.case) (elim conjE exE)
  have "(exec_move req)\<^sup>*\<^sup>* (Began, e) (Ended, e')"
  proof (cases rs)
    case (Inl err)
    with rs exec_move.start_fails [OF ne, of e err] show ?thesis by simp
  next
    case (Inr pid)
    with rs obtain now where
      "e' = (e\<lparr>ex_PID := pid\<rparr>)\<lparr>ex_FinishedAt := Some now, ex_Status := end_status ending,
         ex_Error := end_error ending (ex_Error (e\<lparr>ex_PID := pid\<rparr>))\<rparr>" by auto
    then have "exec_move req (Waiting pid, e\<lparr>ex_PID := pid\<rparr>) (Ended, e')" by (simp only: exec_move.finishes)
    with exec_move.starts [OF ne, of e pid] show ?thesis
      by (rule converse_rtranclp_into_rtranclp [OF _ r_into_rtranclp])
  qed
  with r show ?thesis by blast
qed



subsection \<open>What is reported\<close>


text \<open>An execution that ends after the check of a tick and before its message.\<close>

definition racing :: "exec_pc \<Rightarrow> Execution \<Rightarrow> beat_pc \<Rightarrow> machine" where
  "racing pc e b = \<lparr>mc_table = [''e1'' \<mapsto> e], mc_gos = [''e1'' \<mapsto> (sample_run_req, pc)], mc_beat = b, mc_sent = [], mc_crashed = False\<rparr>"

lemma racing_move:
  assumes "machine_reachable (racing pc e b)" "exec_move sample_run_req (pc, e) (pc', e')"
  shows "machine_reachable (racing pc' e' b)"
proof -
  have "machine_step (racing pc e b) (racing pc' e' b)"
    using machine_step.move [of "racing pc e b" "''e1''" sample_run_req pc e pc' e'] assms(2) by (simp add: racing_def)
  with assms(1) show ?thesis unfolding machine_reachable_def by (rule rtranclp.rtrancl_into_rtrancl)
qed

lemma racing_beat:
  assumes "machine_reachable (racing pc e b)" "machine_step (racing pc e b) (racing pc e b')"
  shows "machine_reachable (racing pc e b')"
  using assms unfolding machine_reachable_def by (rule rtranclp.rtrancl_into_rtrancl)

lemma race_reachable:
  defines "e \<equiv> (new_exec ''e1'' sample_run_req 0)\<lparr>ex_Status := EXECUTION_STATUS_RUNNING, ex_StartedAt := 1\<rparr>"
  shows "machine_reachable (racing Ended (e\<lparr>ex_PID := 42, ex_FinishedAt := Some 9, ex_Status := end_status (Exited None),
     ex_Error := end_error (Exited None) (ex_Error (e\<lparr>ex_PID := 42\<rparr>))\<rparr>) (Checked ''e1'' []))"
proof -
  have req: "rr_Entrypoint sample_run_req \<noteq> []" by (simp add: sample_run_req_def)
  have "machine_step machine_start (racing Registered (new_exec ''e1'' sample_run_req 0) BeatIdle)"
    using machine_step.run [of machine_start "''e1''" sample_run_req 0] by (simp add: machine_start_def racing_def)
  then have "machine_reachable (racing Registered (new_exec ''e1'' sample_run_req 0) BeatIdle)"
    by (simp add: machine_reachable_def)
  then have "machine_reachable (racing Began e BeatIdle)"
    unfolding e_def by (rule racing_move) (rule exec_move.begins)
  then have "machine_reachable (racing Began e (Scanning [''e1'']))"
    by (rule racing_beat) (use machine_step.tick [of "racing Began e BeatIdle" "[''e1'']"] in \<open>simp add: racing_def\<close>)
  then have "machine_reachable (racing Began e (Checked ''e1'' []))"
    by (rule racing_beat)
       (use machine_step.check [of "racing Began e (Scanning [''e1''])" "''e1''" "[]" e] in \<open>simp add: racing_def e_def\<close>)
  then have "machine_reachable (racing (Waiting 42) (e\<lparr>ex_PID := 42\<rparr>) (Checked ''e1'' []))"
    by (rule racing_move) (rule exec_move.starts [OF req])
  then show ?thesis by (rule racing_move) (rule exec_move.finishes)
qed


subsection \<open>Every execution ends\<close>

definition moves_left :: "exec_pc \<Rightarrow> nat" where
  "moves_left pc = (case pc of Registered \<Rightarrow> 3 | Began \<Rightarrow> 2 | Waiting _ \<Rightarrow> 1 | _ \<Rightarrow> 0)"

lemma move_decreases: "exec_move req g h \<Longrightarrow> moves_left (fst h) < moves_left (fst g)"
  by (cases g; cases h) (auto elim!: exec_moveE simp: moves_left_def)

lemma moves_bounded: "(exec_move req ^^ k) g h \<Longrightarrow> k + moves_left (fst h) \<le> moves_left (fst g)"
proof (induction k arbitrary: h)
  case (Suc k)
  then obtain f where "(exec_move req ^^ k) g f" "exec_move req f h" by auto
  with Suc.IH [of f] move_decreases [of req f h] show ?case by simp
qed simp

lemma move_possible: "moves_left pc \<noteq> 0 \<Longrightarrow> \<exists>h. exec_move req (pc, e) h"
proof (cases pc)
  case Began
  then show ?thesis
    by (cases "rr_Entrypoint req = []") (blast intro: exec_move.panics exec_move.starts)+
qed (auto simp: moves_left_def intro: exec_move.begins exec_move.finishes)



subsection \<open>What the outside sees: statuses\<close>

text \<open>
  The statuses of the executions by themselves: pending when registered, then running, then succeeded or
  failed, and gone at any time once running (a panic takes a running one).
\<close>

type_synonym view = "string \<rightharpoonup> execution_status"

inductive view_step :: "view \<Rightarrow> view \<Rightarrow> bool" where
  registers: "v i = None \<Longrightarrow> view_step v (v(i \<mapsto> EXECUTION_STATUS_PENDING))"
| runs: "v i = Some EXECUTION_STATUS_PENDING \<Longrightarrow> view_step v (v(i \<mapsto> EXECUTION_STATUS_RUNNING))"
| ends: "v i = Some EXECUTION_STATUS_RUNNING \<Longrightarrow> st = EXECUTION_STATUS_SUCCEEDED \<or> st = EXECUTION_STATUS_FAILED \<Longrightarrow>
    view_step v (v(i \<mapsto> st))"
| vanishes: "v i = Some st \<Longrightarrow> st \<noteq> EXECUTION_STATUS_PENDING \<Longrightarrow> view_step v (v(i := None))"

definition view_of :: "machine \<Rightarrow> view" where
  "view_of m = (\<lambda>i. map_option ex_Status (mc_table m i))"

lemma view_upd: "view_of (m\<lparr>mc_table := (mc_table m)(i := e), mc_gos := gs\<rparr>) = (view_of m)(i := map_option ex_Status e)"
  by (simp add: view_of_def fun_eq_iff)

lemma move_view:
  assumes "exec_move req (pc, e) (pc', e')" "agrees i pc e" "view_of m i = Some (ex_Status e)"
  shows "(view_of m)(i \<mapsto> ex_Status e') = view_of m \<or> view_step (view_of m) ((view_of m)(i \<mapsto> ex_Status e'))"
proof (cases "ex_Status e' = ex_Status e")
  case True
  with assms(3) show ?thesis by (simp add: fun_upd_idem)
next
  case False
  with assms(1,2) have "ex_Status e = EXECUTION_STATUS_PENDING \<and> ex_Status e' = EXECUTION_STATUS_RUNNING \<or>
    ex_Status e = EXECUTION_STATUS_RUNNING \<and>
      (ex_Status e' = EXECUTION_STATUS_SUCCEEDED \<or> ex_Status e' = EXECUTION_STATUS_FAILED)"
    by (cases rule: exec_moveE) (auto simp: agrees_def dest: end_status_other)
  with assms(3) view_step.runs view_step.ends show ?thesis by metis
qed

lemma view_of_step:
  assumes "machine_step m n" "machine_inv m"
  shows "view_of n = view_of m \<or> view_step (view_of m) (view_of n)"
  using assms(1)
proof cases
  case (run i req now)
  have "view_of m i = None" using run(4) table_agrees_dom [of m i] assms(2) by (simp add: view_of_def machine_inv_def)
  from view_step.registers [of "view_of m", OF this] run(1) show ?thesis by (simp add: view_upd new_exec_def)
next
  case (move i req pc e pc' e')
  have "agrees i pc e" using table_agrees_look [of m i req pc e] move assms(2) by (simp add: machine_inv_def)
  moreover have "view_of m i = Some (ex_Status e)" using move by (simp add: view_of_def)
  ultimately have "(view_of m)(i \<mapsto> ex_Status e') = view_of m \<or> view_step (view_of m) ((view_of m)(i \<mapsto> ex_Status e'))"
    by (rule move_view [OF move(5)])
  with move(1) show ?thesis by (simp add: view_upd)
next
  case (remove i req pc)
  from assms(2) have tab: "table_agrees m" by (simp add: machine_inv_def)
  with table_agrees_dom [of m i] remove(4) obtain e where e: "mc_table m i = Some e" by (cases "mc_table m i") auto
  have "agrees i pc e" using tab remove(4) e by (rule table_agrees_look)
  with remove(5) have "ex_Status e \<noteq> EXECUTION_STATUS_PENDING" by (auto simp: agrees_def)
  moreover have "view_of m i = Some (ex_Status e)" using e by (simp add: view_of_def)
  ultimately have "view_step (view_of m) ((view_of m)(i := None))" by (intro view_step.vanishes)
  moreover have "view_of n = (view_of m)(i := None)" using remove(1) by (simp add: view_of_def fun_eq_iff)
  ultimately show ?thesis by simp
qed (simp_all add: view_of_def)

interpretation machine_view: simulation
  "\<lambda>m. m = machine_start" machine_step "\<lambda>v. v = Map.empty" view_step "\<lambda>m v. machine_inv m \<and> v = view_of m"
proof
  show "\<exists>v. v = Map.empty \<and> machine_inv m \<and> v = view_of m" if "m = machine_start" for m
    using that machine_inv_start by (simp add: view_of_def machine_start_def)
  show "\<exists>w. view_step\<^sup>*\<^sup>* v w \<and> machine_inv n \<and> w = view_of n" if "machine_inv m \<and> v = view_of m" "machine_step m n" for m v n
    using that view_of_step [of m n] machine_inv_step [of m n] by auto
qed

text \<open>
  C32: The statuses of a runtime only ever go forward: any interleaving of its goroutines, seen from outside, is
  a run of the four status changes, one execution at a time.
\<close>

theorem machine_refines_view:
  assumes "machine_reachable m"
  shows "view_step\<^sup>*\<^sup>* Map.empty (view_of m)"
  using machine_view.refines [of machine_start m] assms by (simp add: machine_reachable_def)

theorem machine_refines_view_witness:
  "view_step\<^sup>*\<^sup>* Map.empty [''e1'' \<mapsto> EXECUTION_STATUS_SUCCEEDED]"
proof -
  have "view_of (racing Ended e b) = [''e1'' \<mapsto> ex_Status e]" for e b
    by (simp add: view_of_def racing_def fun_eq_iff)
  with machine_refines_view [OF race_reachable] show ?thesis by (simp add: end_status_def)
qed

end
