(* ===== verification/System.thy ===== *)
theory System
  imports Dispatcher RuntimeMachine
begin

section \<open>A dispatcher and its runtimes together\<close>

text \<open>
  The dispatcher's table of executions beside the runtimes it mirrors, one in each pod. A \<open>Run\<close> call registers an
  execution in the runtime of the pod that was selected; its answer, when it arrives, registers it with the
  dispatcher. The heartbeats that a runtime sends are delivered in order, or lost with their stream. A pod
  may be restarted, which loses the table of its runtime and the processes. Everything else is the
  runtimes' own machines, so that a run of the system is any interleaving of the services.
\<close>

record system =
  sy_rts :: "string \<Rightarrow> machine" \<comment> \<open>by the name of the pod\<close>
  sy_calls :: "(string \<times> Job \<times> JobAttempt \<times> Pod) list" \<comment> \<open>answers under way: execution id and the call\<close>
  sy_table :: "string \<rightharpoonup> RuntimeExecution"
  sy_seen :: "string \<Rightarrow> nat" \<comment> \<open>how many of a runtime's heartbeats have arrived or are lost\<close>
  sy_owner :: "string \<rightharpoonup> string" \<comment> \<open>the ids issued so far, and where\<close>

definition system_start :: system where
  "system_start =
     \<lparr>sy_rts = (\<lambda>_. machine_start), sy_calls = [], sy_table = Map.empty, sy_seen = (\<lambda>_. 0), sy_owner = Map.empty\<rparr>"

text \<open>What one heartbeat does to the dispatcher's table.\<close>

definition apply_beat :: "HeartbeatRequest \<Rightarrow> time \<Rightarrow> (string \<rightharpoonup> RuntimeExecution) \<Rightarrow> (string \<rightharpoonup> RuntimeExecution)" where
  "apply_beat hb now tab =
     (case tab (hb_ExecutionId hb) of
        None \<Rightarrow> tab
      | Some exec \<Rightarrow> tab(hb_ExecutionId hb \<mapsto> exec\<lparr>re_Status := hb_Status hb, re_PID := hb_Pid hb, re_LastHeartbeat := now\<rparr>))"

text \<open>The programs behind the steps \<open>deliver\<close> and \<open>answer\<close>.\<close>

lemma heartbeat_one_apply:
  "\<exists>now. executions (snd (run_state (heartbeat_one x hb) s)) = apply_beat hb now (executions s)"
  by (auto simp: heartbeat_one_def apply_beat_def time_Now_def put_exec_def split: option.split prod.split)

inductive system_step :: "system \<Rightarrow> system \<Rightarrow> bool" where
  accept: "sy_owner s i = None \<Longrightarrow> req = run_request job a \<Longrightarrow> rt = sy_rts s (pod_Name pod) \<Longrightarrow> machine_step rt m \<Longrightarrow>
    m = rt\<lparr>mc_table := (mc_table rt)(i \<mapsto> new_exec i req now), mc_gos := (mc_gos rt)(i \<mapsto> (req, Registered))\<rparr> \<Longrightarrow>
    system_step s (s\<lparr>sy_rts := (sy_rts s)(pod_Name pod := m), sy_calls := (i, job, a, pod) # sy_calls s,
      sy_owner := (sy_owner s)(i \<mapsto> pod_Name pod)\<rparr>)"
| answer: "sy_calls s = xs @ (i, job, a, pod) # ys \<Longrightarrow>
    system_step s (s\<lparr>sy_table := (sy_table s)(i \<mapsto> new_execution i job a pod), sy_calls := xs @ ys\<rparr>)"
| call_fails: "sy_calls s = xs @ (i, job, a, pod) # ys \<Longrightarrow>
    system_step s (s\<lparr>sy_calls := xs @ ys\<rparr>)"
| runtime_moves: "machine_step (sy_rts s p) m \<Longrightarrow> dom (mc_gos m) \<subseteq> dom (mc_gos (sy_rts s p)) \<Longrightarrow>
    system_step s (s\<lparr>sy_rts := (sy_rts s)(p := m)\<rparr>)"
| restart: "system_step s (s\<lparr>sy_rts := (sy_rts s)(p := machine_start\<lparr>mc_sent := mc_sent (sy_rts s p)\<rparr>)\<rparr>)"
| deliver: "sy_seen s p < length (mc_sent (sy_rts s p)) \<Longrightarrow>
    system_step s (s\<lparr>sy_table := apply_beat (mc_sent (sy_rts s p) ! sy_seen s p) now (sy_table s),
      sy_seen := (sy_seen s)(p := Suc (sy_seen s p))\<rparr>)"
| lose: "sy_seen s p < length (mc_sent (sy_rts s p)) \<Longrightarrow>
    system_step s (s\<lparr>sy_seen := (sy_seen s)(p := Suc (sy_seen s p))\<rparr>)"

inductive_cases system_stepE: "system_step s t"

definition system_reachable :: "system \<Rightarrow> bool" where
  "system_reachable s = system_step\<^sup>*\<^sup>* system_start s"

subsection \<open>What the dispatcher knows\<close>

text \<open>A status that a heartbeat may report.\<close>

definition reportable :: "execution_status \<Rightarrow> bool" where
  "reportable st = (st = EXECUTION_STATUS_RUNNING \<or> st = EXECUTION_STATUS_SUCCEEDED \<or> st = EXECUTION_STATUS_FAILED)"

text \<open>An entry is as registered, or as one of the heartbeats says that have arrived.\<close>

definition known_from :: "HeartbeatRequest list \<Rightarrow> string \<Rightarrow> RuntimeExecution \<Rightarrow> bool" where
  "known_from hbs i e =
     (re_Status e = EXECUTION_STATUS_PENDING \<and> re_PID e = 0 \<or>
      list_ex (\<lambda>hb. hb_ExecutionId hb = i \<and> hb_Status hb = re_Status e \<and> hb_Pid hb = re_PID e) hbs)"

text \<open>The heartbeats of a pod that have arrived, or would have.\<close>

definition arrived :: "system \<Rightarrow> string \<Rightarrow> HeartbeatRequest list" where
  "arrived s p = take (sy_seen s p) (mc_sent (sy_rts s p))"

definition ids_issued :: "system \<Rightarrow> bool" where
  "ids_issued s =
     ((\<forall>p i. mc_gos (sy_rts s p) i \<noteq> None \<longrightarrow> sy_owner s i = Some p) \<and>
      (\<forall>i job a pod. (i, job, a, pod) \<in> set (sy_calls s) \<longrightarrow> sy_owner s i = Some (pod_Name pod)) \<and>
      (\<forall>i e. sy_table s i = Some e \<longrightarrow> sy_owner s i = Some (re_PodName e)) \<and>
      distinct (map fst (sy_calls s)) \<and> fst ` set (sy_calls s) \<inter> dom (sy_table s) = {})"

definition from_pod :: "(string \<rightharpoonup> string) \<Rightarrow> string \<Rightarrow> HeartbeatRequest \<Rightarrow> bool" where
  "from_pod ow p hb = (reportable (hb_Status hb) \<and> ow (hb_ExecutionId hb) = Some p)"

definition system_inv :: "system \<Rightarrow> bool" where
  "system_inv s =
     (ids_issued s \<and>
      (\<forall>p. machine_inv (sy_rts s p) \<and> sy_seen s p \<le> length (mc_sent (sy_rts s p)) \<and>
         list_all (from_pod (sy_owner s) p) (mc_sent (sy_rts s p))) \<and>
      (\<forall>i e. sy_table s i = Some e \<longrightarrow> known_from (arrived s (re_PodName e)) i e))"

lemma system_inv_start: "system_inv system_start"
proof -
  have "mc_gos machine_start = Map.empty" "mc_sent machine_start = []" by (simp_all add: machine_start_def)
  then show ?thesis by (simp add: system_inv_def system_start_def machine_inv_start ids_issued_def)
qed

lemma system_inv_pod:
  assumes "system_inv s"
  shows "machine_inv (sy_rts s p)" "sy_seen s p \<le> length (mc_sent (sy_rts s p))"
    "list_all (from_pod (sy_owner s) p) (mc_sent (sy_rts s p))"
  using assms by (simp_all add: system_inv_def)

lemma issued_gos: "system_inv s \<Longrightarrow> mc_gos (sy_rts s p) i \<noteq> None \<Longrightarrow> sy_owner s i = Some p"
  by (simp add: system_inv_def ids_issued_def)

text \<open>A step of a runtime sends at most one heartbeat, about an execution it has.\<close>

lemma sent_step:
  assumes "machine_step m n" "machine_inv m"
  shows "mc_sent n = mc_sent m \<or>
    (\<exists>hb. mc_sent n = mc_sent m @ [hb] \<and> reportable (hb_Status hb) \<and> mc_gos m (hb_ExecutionId hb) \<noteq> None)"
  using assms(1)
proof cases
  case (send i "is" e now)
  from assms(2) have tab: "table_agrees m" by (simp add: machine_inv_def)
  with table_agrees_dom [of m i] send(4) obtain req pc where gos: "mc_gos m i = Some (req, pc)" by auto
  from table_agrees_look [OF tab gos send(4)] have ag: "agrees i pc e" .
  moreover have "ex_Status e \<noteq> EXECUTION_STATUS_PENDING"
    using assms(2) send by (simp add: machine_inv_def past_check_def)
  ultimately have "reportable (ex_Status e)" "ex_ID e = i"
    by (auto simp: agrees_def reportable_def split: exec_pc.splits)
  with send gos show ?thesis by (simp add: heartbeat_of_def)
qed simp_all

lemma known_from_mono: "known_from hbs i e \<Longrightarrow> known_from (hbs @ hbs') i e"
  by (auto simp: known_from_def)

lemma sent_extends:
  assumes "machine_step m n" "machine_inv m"
  shows "\<exists>hbs. mc_sent n = mc_sent m @ hbs \<and> list_all (\<lambda>hb. reportable (hb_Status hb) \<and> mc_gos m (hb_ExecutionId hb) \<noteq> None) hbs"
  using sent_step [OF assms] by (elim disjE exE conjE; force)

lemma from_pod_mono: "list_all (from_pod ow p) hbs \<Longrightarrow> ow \<subseteq>\<^sub>m ow' \<Longrightarrow> list_all (from_pod ow' p) hbs"
  by (auto simp: list_all_iff from_pod_def map_le_def) (metis domI)

lemma inv_pod:
  assumes inv: "system_inv s" and m: "machine_inv m"
    and sent: "mc_sent m = mc_sent (sy_rts s p) @ hbs" "list_all (from_pod ow p) hbs"
    and ids: "ids_issued (s\<lparr>sy_rts := (sy_rts s)(p := m), sy_calls := cs, sy_owner := ow\<rparr>)"
    and ow: "sy_owner s \<subseteq>\<^sub>m ow"
  shows "system_inv (s\<lparr>sy_rts := (sy_rts s)(p := m), sy_calls := cs, sy_owner := ow\<rparr>)" (is "system_inv ?t")
proof -
  note pod = system_inv_pod [OF inv]
  have arrived: "arrived ?t q = arrived s q" for q
    using sent(1) pod(2) [of p] by (simp add: arrived_def)
  have "known_from (arrived ?t (re_PodName e)) i e" if "sy_table ?t i = Some e" for i e
    using that inv unfolding arrived by (simp add: system_inv_def)
  moreover have "machine_inv (sy_rts ?t q)" for q using m pod(1) by simp
  moreover have "sy_seen ?t q \<le> length (mc_sent (sy_rts ?t q))" for q using sent(1) pod(2) by (simp add: trans_le_add1)
  moreover have "list_all (from_pod (sy_owner ?t) q) (mc_sent (sy_rts ?t q))" for q
    using sent from_pod_mono [OF pod(3) ow] by (simp add: list_all_append)
  ultimately show ?thesis using ids unfolding system_inv_def by blast
qed

lemma step_hbs:
  assumes inv: "system_inv s" and step: "machine_step (sy_rts s p) m"
  shows "\<exists>hbs. mc_sent m = mc_sent (sy_rts s p) @ hbs \<and> list_all (from_pod (sy_owner s) p) hbs
    \<and> list_all (\<lambda>hb. mc_gos (sy_rts s p) (hb_ExecutionId hb) \<noteq> None) hbs"
proof -
  from sent_extends [OF step system_inv_pod(1) [OF inv]] obtain hbs where hbs: "mc_sent m = mc_sent (sy_rts s p) @ hbs"
    "list_all (\<lambda>hb. reportable (hb_Status hb) \<and> mc_gos (sy_rts s p) (hb_ExecutionId hb) \<noteq> None) hbs" by (elim exE conjE)
  with issued_gos [OF inv] show ?thesis by (auto simp: list_all_iff from_pod_def)
qed

lemma inv_runtime:
  assumes inv: "system_inv s" and step: "machine_step (sy_rts s p) m"
    and ids: "ids_issued (s\<lparr>sy_rts := (sy_rts s)(p := m), sy_calls := cs, sy_owner := ow\<rparr>)" and ow: "sy_owner s \<subseteq>\<^sub>m ow"
  shows "system_inv (s\<lparr>sy_rts := (sy_rts s)(p := m), sy_calls := cs, sy_owner := ow\<rparr>)"
proof -
  from step_hbs [OF inv step] obtain hbs where hbs: "mc_sent m = mc_sent (sy_rts s p) @ hbs"
    "list_all (from_pod (sy_owner s) p) hbs" by blast
  show ?thesis
    using inv machine_inv_step [OF step system_inv_pod(1) [OF inv]] hbs(1) from_pod_mono [OF hbs(2) ow] ids ow by (rule inv_pod)
qed

lemma machine_inv_restart: "machine_inv m \<Longrightarrow> machine_inv (machine_start\<lparr>mc_sent := mc_sent m\<rparr>)"
  by (simp add: machine_inv_def machine_start_def table_agrees_def visits_def past_check_def sent_after_start_def)

lemma inv_restart:
  assumes inv: "system_inv s"
  shows "system_inv (s\<lparr>sy_rts := (sy_rts s)(p := machine_start\<lparr>mc_sent := mc_sent (sy_rts s p)\<rparr>)\<rparr>)" (is "system_inv ?t")
proof -
  let ?m = "machine_start\<lparr>mc_sent := mc_sent (sy_rts s p)\<rparr>"
  have "ids_issued (s\<lparr>sy_rts := (sy_rts s)(p := ?m), sy_calls := sy_calls s, sy_owner := sy_owner s\<rparr>)"
    using inv by (simp add: system_inv_def ids_issued_def machine_start_def)
  from inv_pod [OF inv machine_inv_restart [OF system_inv_pod(1) [OF inv]] _ _ this, of "[]"] show ?thesis by simp
qed

lemma known_apply:
  assumes "known_from (take k hbs) i e" "k < length hbs" "apply_beat (hbs ! k) now tab i = Some e'" "tab i = Some e"
  shows "known_from (take (Suc k) hbs) i e'"
  using assms by (auto simp: known_from_def apply_beat_def take_Suc_conv_app_nth split: option.splits if_splits)

text \<open>A heartbeat changes no entry but its own, and of that only what it reports.\<close>

lemma apply_beat_entry:
  "apply_beat hb now tab i = Some e' \<Longrightarrow>
   \<exists>e. tab i = Some e \<and> re_PodName e' = re_PodName e \<and> (hb_ExecutionId hb \<noteq> i \<longrightarrow> e' = e)"
  by (auto simp: apply_beat_def split: option.splits if_splits)

lemma apply_beat_dom: "dom (apply_beat hb now tab) = dom tab"
  by (auto simp: apply_beat_def split: option.splits if_splits)

lemma arrived_next:
  "sy_seen s p < length (mc_sent (sy_rts s p)) \<Longrightarrow>
   arrived (s\<lparr>sy_table := tab, sy_seen := (sy_seen s)(p := Suc (sy_seen s p))\<rparr>) q =
     (if q = p then arrived s p @ [mc_sent (sy_rts s p) ! sy_seen s p] else arrived s q)"
  by (simp add: arrived_def take_Suc_conv_app_nth)

lemma inv_deliver:
  assumes inv: "system_inv s" and seen: "sy_seen s p < length (mc_sent (sy_rts s p))"
    and tab: "tab = apply_beat (mc_sent (sy_rts s p) ! sy_seen s p) now (sy_table s) \<or> tab = sy_table s"
  shows "system_inv (s\<lparr>sy_table := tab, sy_seen := (sy_seen s)(p := Suc (sy_seen s p))\<rparr>)" (is "system_inv ?t")
proof -
  let ?hb = "mc_sent (sy_rts s p) ! sy_seen s p"
  have owner: "sy_owner s (hb_ExecutionId ?hb) = Some p"
    using system_inv_pod(3) [OF inv, of p] seen by (simp add: list_all_length from_pod_def)
  have entry: "sy_owner s i = Some (re_PodName e) \<and> known_from (arrived s (re_PodName e)) i e" if "sy_table s i = Some e" for i e
    using inv that by (simp add: system_inv_def ids_issued_def)
  have known: "known_from (arrived ?t (re_PodName e')) i e' \<and> sy_owner s i = Some (re_PodName e')" if "tab i = Some e'" for i e'
  proof -
    from that tab apply_beat_entry obtain e where e: "sy_table s i = Some e" "re_PodName e' = re_PodName e"
      "hb_ExecutionId ?hb \<noteq> i \<longrightarrow> e' = e" by blast
    have "known_from (arrived ?t (re_PodName e')) i e'"
    proof (cases "re_PodName e = p \<and> tab \<noteq> sy_table s")
      case True
      with tab that have "apply_beat ?hb now (sy_table s) i = Some e'" by blast
      moreover have "known_from (take (sy_seen s p) (mc_sent (sy_rts s p))) i e" using entry [OF e(1)] True by (simp add: arrived_def)
      ultimately have "known_from (take (Suc (sy_seen s p)) (mc_sent (sy_rts s p))) i e'" using seen e(1) known_apply by blast
      with True e(2) show ?thesis by (simp add: arrived_def)
    next
      case False
      with entry [OF e(1)] owner e that have "e' = e" by auto
      with entry [OF e(1)] known_from_mono show ?thesis by (auto simp: arrived_next [OF seen])
    qed
    with entry [OF e(1)] e(2) show ?thesis by simp
  qed
  have "dom tab = dom (sy_table s)" using tab apply_beat_dom by metis
  then have "ids_issued ?t" using inv known by (simp add: system_inv_def ids_issued_def)
  moreover have "sy_seen ?t q \<le> length (mc_sent (sy_rts ?t q))" for q using seen system_inv_pod(2) [OF inv] by simp
  ultimately show ?thesis using inv known by (simp add: system_inv_def)
qed

lemma inv_answer:
  assumes inv: "system_inv s" and calls: "sy_calls s = xs @ (i, job, a, pod) # ys"
  shows "system_inv (s\<lparr>sy_table := (sy_table s)(i \<mapsto> new_execution i job a pod), sy_calls := xs @ ys\<rparr>)"
    and "system_inv (s\<lparr>sy_calls := xs @ ys\<rparr>)"
proof -
  have "known_from hbs i (new_execution i job a pod)" for hbs by (simp add: known_from_def new_execution_def)
  moreover have "sy_owner s i = Some (pod_Name pod)" using inv calls by (simp add: system_inv_def ids_issued_def)
  ultimately show "system_inv (s\<lparr>sy_table := (sy_table s)(i \<mapsto> new_execution i job a pod), sy_calls := xs @ ys\<rparr>)"
    using inv calls by (auto simp: system_inv_def ids_issued_def arrived_def new_execution_def)
  show "system_inv (s\<lparr>sy_calls := xs @ ys\<rparr>)"
    using inv calls by (auto simp: system_inv_def ids_issued_def arrived_def)
qed

lemma system_inv_step:
  assumes "system_step s t" "system_inv s"
  shows "system_inv t"
  using assms(1)
proof cases
  case (accept i req job a rt pod m now)
  have ow: "sy_owner s \<subseteq>\<^sub>m (sy_owner s)(i \<mapsto> pod_Name pod)" using accept(2) by (auto simp: map_le_def)
  have free: "mc_gos (sy_rts s p) i = None" for p
    using issued_gos [OF assms(2), of p i] accept(2) by (metis option.distinct(1))
  have "ids_issued (s\<lparr>sy_rts := (sy_rts s)(pod_Name pod := m), sy_calls := (i, job, a, pod) # sy_calls s,
      sy_owner := (sy_owner s)(i \<mapsto> pod_Name pod)\<rparr>)"
    using assms(2) accept(2,4,6) by (auto simp: system_inv_def ids_issued_def free)
  with inv_runtime [OF assms(2) accept(5) [unfolded accept(4)] _ ow] accept(1) show ?thesis by simp
next
  case (runtime_moves p m)
  have "ids_issued (s\<lparr>sy_rts := (sy_rts s)(p := m), sy_calls := sy_calls s, sy_owner := sy_owner s\<rparr>)"
    using assms(2) runtime_moves(3) by (auto simp: system_inv_def ids_issued_def)
  from inv_runtime [OF assms(2) runtime_moves(2) this] runtime_moves(1) show ?thesis by simp
next
  case (deliver p now)
  from inv_deliver [OF assms(2) deliver(2) disjI1 [OF refl]] deliver(1) show ?thesis by simp
next
  case (lose p)
  from inv_deliver [OF assms(2) lose(2), of "sy_table s"] lose(1) show ?thesis by simp
qed (use assms(2) inv_answer inv_restart in simp_all)

lemma system_reachable_inv: "system_reachable s \<Longrightarrow> system_inv s"
  unfolding system_reachable_def
  by (induction rule: rtranclp_induct) (simp_all add: system_inv_start system_inv_step)

subsection \<open>Properties\<close>

text \<open>
  C6: What the dispatcher shows of an execution is never invented: the entry is still as registered, or it has
  the status and pid of a heartbeat about this execution that the runtime of the pod of the entry sent and
  that has arrived, and such a status is running, succeeded or failed.
\<close>

theorem dispatcher_view_sound:
  assumes "system_reachable s" "sy_table s i = Some e"
  shows "known_from (arrived s (re_PodName e)) i e \<and> (re_Status e = EXECUTION_STATUS_PENDING \<or> reportable (re_Status e))"
proof -
  from system_reachable_inv [OF assms(1)] have inv: "system_inv s" .
  with assms(2) have known: "known_from (arrived s (re_PodName e)) i e" by (simp add: system_inv_def)
  from system_inv_pod(3) [OF inv, of "re_PodName e"] have "\<forall>hb \<in> set (arrived s (re_PodName e)). reportable (hb_Status hb)"
    by (auto simp: arrived_def list_all_iff from_pod_def dest: in_set_takeD)
  with known have "re_Status e = EXECUTION_STATUS_PENDING \<or> reportable (re_Status e)"
    unfolding known_from_def list_ex_iff by metis
  with known show ?thesis by blast
qed

text \<open>An execution that its runtime has removed, or lost in a restart, with no heartbeat about it under way.\<close>

definition over :: "string \<Rightarrow> system \<Rightarrow> bool" where
  "over i s =
     (\<forall>p. mc_gos (sy_rts s p) i = None \<and>
        list_all (\<lambda>hb. hb_ExecutionId hb \<noteq> i) (drop (sy_seen s p) (mc_sent (sy_rts s p))))"

lemma over_runtime:
  assumes inv: "system_inv s" and over: "over i s" and step: "machine_step (sy_rts s p) m" and gone: "mc_gos m i = None"
  shows "over i (s\<lparr>sy_rts := (sy_rts s)(p := m), sy_calls := cs, sy_owner := ow\<rparr>)"
proof -
  from step_hbs [OF inv step] obtain hbs where hbs: "mc_sent m = mc_sent (sy_rts s p) @ hbs"
    "list_all (\<lambda>hb. mc_gos (sy_rts s p) (hb_ExecutionId hb) \<noteq> None) hbs" by blast
  have "list_all (\<lambda>hb. hb_ExecutionId hb \<noteq> i) hbs"
    using hbs(2) over by (auto simp: over_def list_all_iff)
  with hbs(1) over gone system_inv_pod(2) [OF inv] show ?thesis by (simp add: over_def list_all_append)
qed

lemma drop_next: "k < length xs \<Longrightarrow> list_all P (drop k xs) \<Longrightarrow> list_all P (drop (Suc k) xs) \<and> P (xs ! k)"
  by (simp add: Cons_nth_drop_Suc [symmetric])

lemma over_next:
  assumes "over i s" "sy_seen s p < length (mc_sent (sy_rts s p))"
  shows "over i (s\<lparr>sy_table := tab, sy_seen := (sy_seen s)(p := Suc (sy_seen s p))\<rparr>)"
    and "hb_ExecutionId (mc_sent (sy_rts s p) ! sy_seen s p) \<noteq> i"
  using assms drop_next [OF assms(2), of "\<lambda>hb. hb_ExecutionId hb \<noteq> i"] by (simp_all add: over_def)

lemma over_step:
  assumes step: "system_step s t" and inv: "system_inv s" and e: "sy_table s i = Some e" and over: "over i s"
  shows "sy_table t i = Some e \<and> over i t"
  using step
proof cases
  case (accept j req job a rt pod m now)
  have "sy_owner s i \<noteq> None" using inv e by (auto simp: system_inv_def ids_issued_def)
  with accept(2) have "i \<noteq> j" by auto
  with accept(4,6) over have "mc_gos m i = None" by (simp add: over_def)
  from over_runtime [OF inv over accept(5) [unfolded accept(4)] this] accept(1) e show ?thesis by simp
next
  case (answer xs j job a pod ys)
  have "i \<noteq> j" using inv e answer(2) by (auto simp: system_inv_def ids_issued_def)
  with answer(1) e over show ?thesis by (simp add: over_def)
next
  case (runtime_moves p m)
  with over have "mc_gos m i = None" by (auto simp: over_def)
  from over_runtime [OF inv over runtime_moves(2) this, of "sy_owner s" "sy_calls s"] runtime_moves(1) e
  show ?thesis by simp
next
  case (restart p)
  with e over show ?thesis by (simp add: over_def machine_start_def)
next
  case (deliver p now)
  from over_next [OF over deliver(2)] deliver(1) e show ?thesis by (auto simp: apply_beat_def split: option.split)
next
  case (lose p)
  from over_next(1) [OF over lose(2), of "sy_table s"] lose(1) e show ?thesis by simp
qed (use e over in \<open>simp add: over_def\<close>)

text \<open>
  C14: The dispatcher keeps what it last heard for ever: once an execution is over and the heartbeats about it have
  arrived, its entry never changes again and is never removed, whatever the services do. A job that ended
  between two ticks, or was lost with its pod, stays running, and one that ended before the first tick stays
  pending.
\<close>

theorem dispatcher_view_frozen:
  assumes "system_reachable s" "sy_table s i = Some e" "over i s" "system_step\<^sup>*\<^sup>* s t"
  shows "sy_table t i = Some e"
proof -
  from assms(4) have "system_inv t \<and> sy_table t i = Some e \<and> over i t"
  proof (induction rule: rtranclp_induct)
    case base
    with assms(1-3) system_reachable_inv show ?case by blast
  next
    case (step t u)
    then show ?case using over_step [OF step(2)] system_inv_step [OF step(2)] by blast
  qed
  then show ?thesis by blast
qed

text \<open>A job whose pod is restarted before the first tick.\<close>

lemma system_reach_step: "system_reachable s \<Longrightarrow> system_step s t \<Longrightarrow> system_reachable t"
  unfolding system_reachable_def by (rule rtranclp.rtrancl_into_rtrancl)

definition sample_attempt :: JobAttempt where
  "sample_attempt = new_attempt ''a1'' sample_job plain_message 0"

definition sample_entry :: RuntimeExecution where
  "sample_entry = new_execution ''e1'' sample_job sample_attempt sample_pod"

lemma sample_over:
  "\<exists>s. system_reachable s \<and> over ''e1'' s \<and> sy_table s ''e1'' = Some sample_entry"
proof -
  let ?req = "run_request sample_job sample_attempt"
  let ?m = "machine_start\<lparr>mc_table := (mc_table machine_start)(''e1'' \<mapsto> new_exec ''e1'' ?req 0),
      mc_gos := (mc_gos machine_start)(''e1'' \<mapsto> (?req, Registered))\<rparr>"
  let ?s1 = "system_start\<lparr>sy_rts := (sy_rts system_start)(pod_Name sample_pod := ?m),
      sy_calls := (''e1'', sample_job, sample_attempt, sample_pod) # sy_calls system_start,
      sy_owner := (sy_owner system_start)(''e1'' \<mapsto> pod_Name sample_pod)\<rparr>"
  let ?s2 = "?s1\<lparr>sy_table := (sy_table ?s1)(''e1'' \<mapsto> sample_entry), sy_calls := [] @ []\<rparr>"
  let ?s3 = "?s2\<lparr>sy_rts := (sy_rts ?s2)(pod_Name sample_pod := machine_start\<lparr>mc_sent := mc_sent (sy_rts ?s2 (pod_Name sample_pod))\<rparr>)\<rparr>"
  have "machine_step machine_start ?m" by (rule machine_step.run) (simp_all add: machine_start_def)
  then have "system_step system_start ?s1"
    by (intro system_step.accept [where m = ?m and now = 0]) (simp_all add: system_start_def)
  then have "system_reachable ?s1" by (simp add: system_reachable_def)
  moreover have "system_step ?s1 ?s2"
    unfolding sample_entry_def by (rule system_step.answer) (simp add: system_start_def)
  moreover have "system_step ?s2 ?s3" by (rule system_step.restart)
  ultimately have "system_reachable ?s3" by (metis system_reach_step)
  then show ?thesis by (intro exI [where x = ?s3]) (simp add: over_def system_start_def machine_start_def)
qed

theorem dispatcher_view_frozen_witness:
  "\<exists>s e. system_reachable s \<and> over ''e1'' s \<and> re_Status e = EXECUTION_STATUS_PENDING \<and> (\<forall>t. system_step\<^sup>*\<^sup>* s t \<longrightarrow> sy_table t ''e1'' = Some e)"
proof -
  obtain s where s: "system_reachable s" "over ''e1'' s" "sy_table s ''e1'' = Some sample_entry"
    using sample_over by blast
  have "sy_table t ''e1'' = Some sample_entry" if "system_step\<^sup>*\<^sup>* s t" for t
    using s(1,3,2) that by (rule dispatcher_view_frozen)
  moreover have "re_Status sample_entry = EXECUTION_STATUS_PENDING" by (simp add: sample_entry_def new_execution_def)
  ultimately show ?thesis using s(1,2) by blast
qed

theorem dispatcher_view_sound_witness:
  "\<exists>(s :: system) e. sy_table s ''e1'' = Some e \<and> known_from (arrived s (re_PodName e)) ''e1'' e"
proof -
  obtain s where s: "system_reachable s" "sy_table s ''e1'' = Some sample_entry" using sample_over by blast
  from dispatcher_view_sound [OF s] s(2) show ?thesis by blast
qed

end
