(* ===== verification/Tracing.thy ===== *)
theory Tracing
  imports Gateway Scheduler
begin

section \<open>A request id from the gateway to the scheduler\<close>

text \<open>
  A submission crosses two interceptors that write a log line each: the gateway's client of the scheduler
  and the scheduler's server. The state is extended by the lines written. The transport of gRPC
  is two arguments: \<open>wire\<close> gives the context that a call arrives with, or the error of a call that
  does not arrive, and \<open>answer\<close> what becomes of the result on the way back.
\<close>

definition CreateJob_method :: string where
  "CreateJob_method = ''/wardu.scheduler.v1.SchedulerService/CreateJob''"

text \<open>A program that writes no line, and one that writes the line it returns, if any.\<close>

definition silent :: "('s, 'a) state \<Rightarrow> ('s \<times> log_line list, 'a) state" where
  "silent m = State (\<lambda>(s, ls). case run_state m s of (r, t) \<Rightarrow> (r, (t, ls)))"

definition logged :: "('s \<times> log_line list, 'a \<times> log_line option) state \<Rightarrow> ('s \<times> log_line list, 'a) state" where
  "logged m = State (\<lambda>u. case run_state m u of ((r, l), (t, ls)) \<Rightarrow> (r, (t, ls @ case_option [] (\<lambda>l. [l]) l)))"

lemma run_silent [simp]: "run_state (silent m) (s, ls) = (case run_state m s of (r, t) \<Rightarrow> (r, (t, ls)))"
  by (simp add: silent_def)

lemma run_logged [simp]: "run_state (logged m) u = (case run_state m u of ((r, l), (t, ls)) \<Rightarrow> (r, (t, ls @ case_option [] (\<lambda>l. [l]) l)))"
  by (simp add: logged_def)

text \<open>The scheduler's server, with its chain of one interceptor.\<close>

definition serve_CreateJob ::
  "'w ext \<Rightarrow> platform \<Rightarrow> json_ops \<Rightarrow> call_context \<Rightarrow> CreateJobRequest \<Rightarrow>
   (('w, 'z) sys_scheme \<times> log_line list, string result) state" where
  "serve_CreateJob x p jo ctx req = logged (UnaryServerInterceptor ctx CreateJob_method (silent (CreateJob x p jo req)))"

text \<open>The generated stub and the transport.\<close>

definition stub_CreateJob ::
  "(call_context \<Rightarrow> error + call_context) \<Rightarrow> (string result \<Rightarrow> string result) \<Rightarrow>
   (call_context \<Rightarrow> CreateJobRequest \<Rightarrow> ('s, string result) state) \<Rightarrow>
   call_context \<Rightarrow> CreateJobRequest \<Rightarrow> ('s, string result) state" where
  "stub_CreateJob wire answer serve ctx req =
     (case wire ctx of
        Inl err \<Rightarrow> fail err
      | Inr ctx' \<Rightarrow> do { r \<leftarrow> serve ctx' req; ret (answer r) })"

text \<open>\<open>schedulerClient.CreateJob\<close>, over a connection with the client's interceptor.\<close>

definition client_CreateJob ::
  "(call_context \<Rightarrow> CreateJobRequest \<Rightarrow> ('s \<times> log_line list, string result) state) \<Rightarrow>
   call_context \<Rightarrow> CreateJobRequest \<Rightarrow> ('s \<times> log_line list, string result) state" where
  "client_CreateJob stub ctx job = logged (UnaryClientInterceptor ctx CreateJob_method (stub ctx job))"

lemma rpc_line_simps [simp]:
  "ll_method (rpc_line ctx m r) = m" "ll_request_id (rpc_line ctx m r) = request_id_field ctx"
  "ll_level (rpc_line ctx m r) = (if is_ok r then LevelInfo else LevelError)"
  by (simp_all add: rpc_line_def Let_def split: sum.split)

text \<open>The lines of a call: none when it panics.\<close>

definition lines_of :: "call_context \<Rightarrow> string result \<Rightarrow> log_line list" where
  "lines_of ctx r = (if unwinds r then [] else [rpc_line ctx CreateJob_method r])"

lemma client_CreateJob_run:
  "run_state (client_CreateJob (stub_CreateJob wire answer (serve_CreateJob x p jo)) ctx req) (s, ls) =
     (case wire ctx of
        Inl err \<Rightarrow> (Inl err, (s, ls @ lines_of ctx (Inl err)))
      | Inr ctx' \<Rightarrow> (case run_state (CreateJob x p jo req) s of (r, t) \<Rightarrow>
          (answer r, (t, ls @ lines_of ctx' r @ lines_of ctx (answer r)))))"
  by (simp add: client_CreateJob_def stub_CreateJob_def serve_CreateJob_def UnaryClientInterceptor_def UnaryServerInterceptor_def
      lines_of_def split: sum.split prod.split)

text \<open>A call that comes back to the client is a result or an error, not a panic.\<close>

definition returns :: "(call_context \<Rightarrow> error + call_context) \<Rightarrow> (string result \<Rightarrow> string result) \<Rightarrow> bool" where
  "returns wire answer = ((\<forall>c. \<not> unwinds (wire c)) \<and> (\<forall>r. \<not> unwinds (answer r)))"

text \<open>The transport carries the request id of the outgoing metadata, if the call arrives.\<close>

definition carries_id :: "(call_context \<Rightarrow> error + call_context) \<Rightarrow> bool" where
  "carries_id wire = (\<forall>c c' md. wire c = Inr c' \<and> cx_outgoing c = Some md \<longrightarrow>
     (\<exists>md'. cx_incoming c' = Some md' \<and> md' ''x-request-id'' = md ''x-request-id''))"

lemma request_context_id:
  assumes "rid \<noteq> []" "cx_outgoing ctx = None" "cx_incoming ctx = None"
  shows "request_id_field (request_context rid ctx) = Some rid"
    and "\<exists>md. cx_outgoing (request_context rid ctx) = Some md \<and> md ''x-request-id'' = Some [rid]"
  using assms
  by (simp_all add: request_context_def append_outgoing_def request_id_field_def requestIDFromContext_def
      requestIDFromMetadata_def Let_def)

lemma carried_id:
  assumes "carries_id wire" "wire c = Inr c'" "cx_outgoing c = Some md" "md ''x-request-id'' = Some [rid]" "rid \<noteq> []"
  shows "request_id_field c' = Some rid"
proof -
  from assms(1-3) obtain md' where "cx_incoming c' = Some md'" "md' ''x-request-id'' = md ''x-request-id''"
    unfolding carries_id_def by blast
  with assms(4,5) show ?thesis by (simp add: request_id_field_def requestIDFromContext_def requestIDFromMetadata_def Let_def)
qed


text \<open>A transport that hands the outgoing metadata over.\<close>

definition plain_wire :: "call_context \<Rightarrow> error + call_context" where
  "plain_wire c = Inr \<lparr>cx_incoming = cx_outgoing c, cx_outgoing = None\<rparr>"

text \<open>What the client sees of a panic in the server is a lost connection.\<close>

definition plain_answer :: "string result \<Rightarrow> string result" where
  "plain_answer r = (if unwinds r then Inl (Error EkOther ''rpc error: code = Unavailable'') else r)"

definition sample_submit :: "((unit sys \<times> log_line list), response) state" where
  "sample_submit = submitJob (\<lambda>_. Inr [1]) (\<lambda>_. 0)
     (client_CreateJob (stub_CreateJob plain_wire plain_answer (serve_CreateJob calm_ext sample_platform sample_json)))
     ''r1'' \<lparr>cx_incoming = None, cx_outgoing = None\<rparr> (Inr (sample_submission\<lparr>sj_Entrypoint := Some [''run'']\<rparr>))"


end
