(* ===== verification/Schema.thy ===== *)
theory Schema
  imports Scheduler Dispatcher
begin

section \<open>What the column types refuse (the gorm tags of shared/models)\<close>

text \<open>
  The models declare some text fields as columns of type \<open>uuid\<close>. Postgres stores a text in such a column
  only if it has the form of a UUID. Two of the fields never hold one in this program: the namespace of
  a job is the name of the namespace, and the job of an attempt is a ULID.
\<close>

subsection \<open>The text form of a UUID\<close>

definition is_hex :: "char \<Rightarrow> bool" where
  "is_hex c = (c \<in> set ''0123456789abcdefABCDEF'')"

text \<open>The rest after \<open>k\<close> bytes, two hexadecimal digits each; a hyphen may follow every second byte but the last.\<close>

fun uuid_rest :: "nat \<Rightarrow> string \<Rightarrow> string option" where
  "uuid_rest 0 s = Some s"
| "uuid_rest (Suc k) (a # b # s) =
     (if is_hex a \<and> is_hex b
      then uuid_rest k (if 0 < k \<and> even k \<and> s \<noteq> [] \<and> hd s = CHR ''-'' then tl s else s)
      else None)"
| "uuid_rest (Suc k) s = None"

definition uuid_text :: "string \<Rightarrow> bool" where
  "uuid_text s =
     (case s of
        [] \<Rightarrow> False
      | c # t \<Rightarrow> if c = CHR ''{'' then uuid_rest 16 t = Some ''}'' else uuid_rest 16 s = Some [])"

lemma uuid_rest_length: "uuid_rest k s = Some t \<Longrightarrow> 2 * k + length t \<le> length s"
proof (induction k s rule: uuid_rest.induct)
  case (2 k a b s)
  let ?s = "if 0 < k \<and> even k \<and> s \<noteq> [] \<and> hd s = CHR ''-'' then tl s else s"
  from 2(2) have "is_hex a \<and> is_hex b" "uuid_rest k ?s = Some t" by (auto split: if_splits)
  with 2(1) have "2 * k + length t \<le> length ?s" by blast
  moreover have "length ?s \<le> length s" by simp
  ultimately show ?case by simp
qed simp_all

lemma uuid_text_length: "uuid_text s \<Longrightarrow> 32 \<le> length s"
  by (cases s) (auto simp: uuid_text_def split: if_splits dest!: uuid_rest_length)

subsection \<open>The columns\<close>

definition uuid_columns_job :: "Job \<Rightarrow> string list" where
  "uuid_columns_job job = [job_WorkerID job, job_Namespace job]"

definition uuid_columns_attempt :: "JobAttempt \<Rightarrow> string list" where
  "uuid_columns_attempt a = [att_JobID a]"

text \<open>A database that stores in a column of type \<open>uuid\<close> nothing else, and finds a record by its key.\<close>

definition uuid_checked :: "'w ext \<Rightarrow> bool" where
  "uuid_checked x =
     ((\<forall>job w. is_ok (fst (x_job_create x job w)) \<longrightarrow> list_all uuid_text (uuid_columns_job job)) \<and>
      (\<forall>a w. is_ok (fst (x_attempt_create x a w)) \<longrightarrow> list_all uuid_text (uuid_columns_attempt a)))"

definition finds_by_id :: "'w ext \<Rightarrow> bool" where
  "finds_by_id x = (\<forall>pre i w job. fst (x_job_first x pre (Where ''id'' i) w) = Inr job \<longrightarrow> job_ID job = i)"

definition strict_ext :: "unit ext" where
  "strict_ext = calm_ext
     \<lparr>x_job_create := (\<lambda>job w. (if list_all uuid_text (uuid_columns_job job) then Inr ()
        else Inl (Error EkOther ''invalid input syntax for type uuid''), w)),
      x_job_first := (\<lambda>pre q w. (case q of Where _ i \<Rightarrow> Inr (sample_job\<lparr>job_ID := i\<rparr>), w)),
      x_attempt_create := (\<lambda>a w. (if list_all uuid_text (uuid_columns_attempt a) then Inr ()
        else Inl (Error EkOther ''invalid input syntax for type uuid''), w))\<rparr>"

lemma strict_ext_laws: "uuid_checked strict_ext" "finds_by_id strict_ext"
  by (simp_all add: uuid_checked_def finds_by_id_def strict_ext_def)

subsection \<open>Properties\<close>

text \<open>
  C26: A job can only be created in a namespace whose name has the form of a UUID: for any other name, the
  default \<open>wardu\<close> included, the insert of the job is refused, so that \<open>CreateJob\<close> fails and nothing is queued.
\<close>

theorem namespace_name_refused:
  assumes "uuid_checked x" "\<not> uuid_text (cj_Namespace req)" "run_state (CreateJob x p jo req) s = (r, t)"
  shows "\<not> is_ok r \<and> (\<exists>es. trace t = trace s @ es \<and>
    list_all (\<lambda>ev. case ev of EvPublish _ _ \<Rightarrow> False | EvJobCreate _ res \<Rightarrow> \<not> is_ok res | _ \<Rightarrow> True) es)"
proof -
  let ?P = "\<lambda>ev. case ev of EvPublish _ _ \<Rightarrow> False | EvJobCreate _ res \<Rightarrow> \<not> is_ok res | _ \<Rightarrow> True"
  obtain r1 u where prep: "run_state (prepare_job x p req) s = (r1, u)" by fastforce
  from prepare_job_trace [OF prep] obtain es where
    es: "trace u = trace s @ es" "list_all (\<lambda>ev. \<not> is_job_event ev) es" by blast
  from es(2) have P: "list_all ?P es" by (rule list.pred_mono_strong) (auto simp: is_job_event_def split: event.splits)
  show ?thesis
  proof (cases r1)
    case (Inl e)
    with assms(3) prep have "t = u" "r = Inl e" by (simp_all add: CreateJob_split)
    with es(1) P show ?thesis by auto
  next
    case (Inr job)
    have "stored_job req job" using prep Inr by (auto intro: prepare_job_stored)
    with assms(2) have bad: "\<not> list_all uuid_text (uuid_columns_job job)" by (simp add: stored_job_def uuid_columns_job_def)
    obtain c w where call: "x_job_create x job (world u) = (c, w)" by fastforce
    with assms(1) bad have "\<not> is_ok c" unfolding uuid_checked_def by (metis fst_conv)
    with assms(3) prep Inr call have "\<not> is_ok r" "trace t = trace u @ [EvJobCreate job c]"
      by (auto simp: CreateJob_split commit_job_def CreateJob_db_def is_ok_def split: sum.splits)
    with es(1) P \<open>\<not> is_ok c\<close> show ?thesis by auto
  qed
qed

theorem namespace_name_refused_witness:
  "\<not> is_ok (fst (run_state (CreateJob strict_ext sample_platform sample_json sample_req) calm_sys))"
proof -
  have "\<not> uuid_text (cj_Namespace sample_req)" using uuid_text_length [of "''wardu''"] by (auto simp: sample_req_def)
  from namespace_name_refused [OF strict_ext_laws(1) this] show ?thesis by (metis prod.collapse)
qed

text \<open>
  C8: No attempt of a job can be recorded, hence no job runs: the id of a job is a ULID of 26 characters, which
  the column for the job of an attempt refuses, so that \<open>executeJob\<close> fails after database calls only, before
  it scales a worker or reaches a runtime, and registers nothing.
\<close>

theorem attempt_refused:
  assumes "uuid_checked x" "finds_by_id x" "length (jm_JobID jm) = 26" "run_state (executeJob x p jm) s = (r, t)"
  shows "\<not> is_ok r \<and> executions t = executions s \<and> (\<exists>es. trace t = trace s @ es \<and> list_all is_db_event es)"
proof -
  obtain q s1 where q: "run_state (GetJobForExecution x (jm_JobID jm)) s = (q, s1)" by fastforce
  then have s1: "trace s1 = trace s @ [job_query (jm_JobID jm) q]" "executions s1 = executions s"
    and ans: "q = fst (x_job_first x [''Worker'', ''Worker.Namespace''] (Where ''id'' (jm_JobID jm)) (world s))"
    by (auto simp: GetJobForExecution_def job_query_def split: prod.splits)
  have db: "is_db_event (job_query (jm_JobID jm) q)" by (simp add: is_db_event_def job_query_def)
  show ?thesis
  proof (cases q)
    case (Inl e)
    with assms(4) q have "r = Inl e" "t = s1" by (simp_all add: executeJob_def)
    with s1 db show ?thesis by simp
  next
    case (Inr job0)
    let ?job = "ApplyOverrides job0 (jm_Overrides jm)"
    from Inr ans assms(2) have "job_ID job0 = jm_JobID jm" unfolding finds_by_id_def by metis
    then have id: "job_ID ?job = jm_JobID jm" by (simp add: ApplyOverrides_def Let_def split: option.split)
    obtain i s2 where i: "run_state (NewAttemptID x) s1 = (i, s2)" by fastforce
    then have s2: "trace s2 = trace s1" "executions s2 = executions s1"
      by (auto simp: NewAttemptID_def ids_New_def time_Now_def split: prod.splits sum.splits)
    show ?thesis
    proof (cases i)
      case (Inl e)
      with assms(4) q i Inr have "r = Inl e" "t = s2" by (simp_all add: executeJob_def Let_def)
      with s1 s2 db show ?thesis by simp
    next
      case (Inr aid)
      obtain now w where now: "x_now x (world s2) = (now, w)" by fastforce
      let ?a = "new_attempt aid ?job jm now"
      obtain c w' where call: "x_attempt_create x ?a w = (c, w')" by fastforce
      have "\<not> uuid_text (jm_JobID jm)" using uuid_text_length [of "jm_JobID jm"] assms(3) by auto
      with id have "\<not> list_all uuid_text (uuid_columns_attempt ?a)" by (simp add: uuid_columns_attempt_def new_attempt_def)
      with assms(1) call have "\<not> is_ok c" unfolding uuid_checked_def by (metis fst_conv)
      then obtain e where c: "c = Inl e" by (cases c) auto
      from assms(4) q i \<open>q = Inr job0\<close> Inr now call c
      have "r = Inl e" "t = s2\<lparr>world := w', trace := trace s2 @ [EvAttemptCreate ?a (Inl e)]\<rparr>"
        by (auto simp: executeJob_def Let_def time_Now_def attempt_job_def CreateJobAttempt_def)
      with s1 s2 db show ?thesis by (simp add: is_db_event_def)
    qed
  qed
qed

theorem attempt_refused_witness:
  "\<not> is_ok (fst (run_state (executeJob strict_ext sample_platform
      (plain_message\<lparr>jm_JobID := ''01ARZ3NDEKTSV4RRFFQ69G5FAV''\<rparr>)) calm_disp))"
proof -
  have "length (jm_JobID (plain_message\<lparr>jm_JobID := ''01ARZ3NDEKTSV4RRFFQ69G5FAV''\<rparr>)) = 26" by simp
  from attempt_refused [OF strict_ext_laws this] show ?thesis by (metis prod.collapse)
qed

end
