(* ===== verification/WakeUp.thy ===== *)
theory WakeUp
  imports Dispatcher
begin

section \<open>Two jobs for a sleeping worker\<close>

text \<open>
  A worker sleeps with no replicas. The first job scales it to one replica and waits until it is ready. A
  second job that comes meanwhile reads the number of replicas that is asked for, takes the worker to be
  awake and goes on without waiting.
\<close>

text \<open>
  The outside as the second job finds it: the reads and the insert succeed, one replica or more is asked
  for, and none of the pods is ready.
\<close>

definition half_awake :: "'w ext \<Rightarrow> Job \<Rightarrow> Scale \<Rightarrow> Pod list \<Rightarrow> bool" where
  "half_awake x job0 sc items =
     ((\<forall>pre q w. fst (x_job_first x pre q w) = Inr job0) \<and> (\<forall>n w. is_ok (fst (x_ulid x n w))) \<and>
      (\<forall>a w. is_ok (fst (x_attempt_create x a w))) \<and>
      (\<forall>dns name w. fst (x_k8s_scale_get x dns name w) = Inr sc) \<and> sc_SpecReplicas sc \<noteq> 0 \<and>
      (\<forall>dns sel w. fst (x_k8s_pods x dns sel w) = Inr items) \<and> filter pod_ready items = [] \<and>
      1 \<le> sint (to_int32 (w_MaxReplicas (job_Worker job0))))"

definition no_ready_pods :: error where
  "no_ready_pods = Error EkOther ''no ready worker pods''"

text \<open>Each stage by itself.\<close>

lemma awake_scale:
  assumes "half_awake x job0 sc items" "job_Worker job = job_Worker job0"
  shows "\<exists>t. run_state (ScaleWorker x p job 1 True) s = (Inr (), t) \<and> sys.more t = sys.more s
    \<and> trace t = trace s @ [EvK8sScaleGet (ns_DNS (w_Namespace (job_Worker job))) (w_K8sDeploymentName (job_Worker job)) (Inr sc)]"
proof -
  obtain r w where call: "x_k8s_scale_get x (ns_DNS (w_Namespace (job_Worker job))) (w_K8sDeploymentName (job_Worker job)) (world s) = (r, w)"
    by fastforce
  with assms(1) have "r = Inr sc" unfolding half_awake_def by (metis fst_conv)
  moreover have "sc_SpecReplicas sc \<noteq> 0" "\<not> sint (to_int32 (w_MaxReplicas (job_Worker job))) < 1"
    using assms by (simp_all add: half_awake_def)
  ultimately show ?thesis using call
    by (simp add: ScaleWorker_def fetch_scale_def getWorker_def set_scale_def Let_def)
qed

lemma awake_select:
  assumes "half_awake x job0 sc items"
  shows "\<exists>t. run_state (SelectPod x job) s = (Inl no_ready_pods, t) \<and> sys.more t = sys.more s
    \<and> trace t = trace s @ [EvK8sPods (ns_DNS (w_Namespace (job_Worker job))) (''worker='' @ w_K8sDeploymentName (job_Worker job)) (Inr items)]"
proof -
  obtain r w where call: "x_k8s_pods x (ns_DNS (w_Namespace (job_Worker job))) (''worker='' @ w_K8sDeploymentName (job_Worker job)) (world s) = (r, w)"
    by fastforce
  with assms have "r = Inr items" unfolding half_awake_def by (metis fst_conv)
  moreover have "filter pod_ready items = []" using assms by (simp add: half_awake_def)
  ultimately show ?thesis using call by (simp add: SelectPod_def no_ready_pods_def Let_def)
qed

lemma awake_attempt:
  assumes "half_awake x job0 sc items" "job_Worker job = job_Worker job0"
  shows "\<exists>t now res. run_state (attempt_job x p job a) s = (Inl no_ready_pods, t) \<and> executions t = executions s
    \<and> trace t = trace s @ [EvAttemptCreate a (Inr ()),
        EvK8sScaleGet (ns_DNS (w_Namespace (job_Worker job))) (w_K8sDeploymentName (job_Worker job)) (Inr sc),
        EvK8sPods (ns_DNS (w_Namespace (job_Worker job))) (''worker='' @ w_K8sDeploymentName (job_Worker job)) (Inr items),
        EvAttemptUpdates (Where ''id'' (att_ID a)) (failed_attempt a no_ready_pods now) res]"
proof -
  obtain r w where call: "x_attempt_create x a (world s) = (r, w)" by fastforce
  with assms(1) have "is_ok r" unfolding half_awake_def by (metis fst_conv)
  then have r: "r = Inr ()" by (cases r) auto
  let ?s1 = "s\<lparr>world := w, trace := trace s @ [EvAttemptCreate a (Inr ())]\<rparr>"
  from awake_scale [OF assms] obtain s2 where s2: "run_state (ScaleWorker x p job 1 True) ?s1 = (Inr (), s2)"
    "sys.more s2 = sys.more ?s1"
    "trace s2 = trace ?s1 @ [EvK8sScaleGet (ns_DNS (w_Namespace (job_Worker job))) (w_K8sDeploymentName (job_Worker job)) (Inr sc)]"
    by blast
  from awake_select [OF assms(1)] obtain s3 where s3: "run_state (SelectPod x job) s2 = (Inl no_ready_pods, s3)"
    "sys.more s3 = sys.more s2"
    "trace s3 = trace s2 @ [EvK8sPods (ns_DNS (w_Namespace (job_Worker job))) (''worker='' @ w_K8sDeploymentName (job_Worker job)) (Inr items)]"
    by blast
  have "fst (run_state (or_fail x a (SelectPod x job)) s2) = Inl no_ready_pods"
    using s3(1) by (simp add: or_fail_def split: prod.split)
  then obtain t where t: "run_state (or_fail x a (SelectPod x job)) s2 = (Inl no_ready_pods, t)" by (metis prod.collapse)
  from or_fail_error [OF t] s3(1) obtain now res where u: "sys.more t = sys.more s3"
    "trace t = trace s3 @ [EvAttemptUpdates (Where ''id'' (att_ID a)) (failed_attempt a no_ready_pods now) res]" by auto
  have "run_state (attempt_job x p job a) s = (Inl no_ready_pods, t)"
    using call r s2(1) t
    by (simp add: attempt_job_def CreateJobAttempt_def or_fail_def [of _ _ "ScaleWorker x p job 1 True"] place_job_def)
  moreover have "executions t = executions s"
    using more_executions [OF u(1)] more_executions [OF s3(2)] more_executions [OF s2(2)] by simp
  ultimately show ?thesis using u(2) s3(3) s2(3) by (intro exI [where x = t] exI conjI) auto
qed

text \<open>
  C9: A job that comes while its worker wakes up fails: it does not wait for the worker, as no ready pod is there
  it records the failure of its attempt, and no runtime hears of it.
\<close>

theorem waking_worker_fails:
  assumes "half_awake x job0 sc items"
  shows "\<exists>t a now res. run_state (executeJob x p jm) s = (Inl no_ready_pods, t) \<and> executions t = executions s
    \<and> att_Status (failed_attempt a no_ready_pods now) = AttemptStatusFailed
    \<and> trace t = trace s @ [job_query (jm_JobID jm) (Inr job0), EvAttemptCreate a (Inr ()),
        EvK8sScaleGet (ns_DNS (w_Namespace (job_Worker job0))) (w_K8sDeploymentName (job_Worker job0)) (Inr sc),
        EvK8sPods (ns_DNS (w_Namespace (job_Worker job0))) (''worker='' @ w_K8sDeploymentName (job_Worker job0)) (Inr items),
        EvAttemptUpdates (Where ''id'' (att_ID a)) (failed_attempt a no_ready_pods now) res]"
proof -
  let ?job = "ApplyOverrides job0 (jm_Overrides jm)"
  have worker: "job_Worker ?job = job_Worker job0" by (simp add: ApplyOverrides_def Let_def split: option.split)
  obtain q w1 where first: "x_job_first x [''Worker'', ''Worker.Namespace''] (Where ''id'' (jm_JobID jm)) (world s) = (q, w1)"
    by fastforce
  with assms have q: "q = Inr job0" unfolding half_awake_def by (metis fst_conv)
  let ?s1 = "s\<lparr>world := w1, trace := trace s @ [job_query (jm_JobID jm) (Inr job0)]\<rparr>"
  obtain n w2 where n: "x_now x w1 = (n, w2)" by fastforce
  obtain i w3 where i: "x_ulid x n w2 = (i, w3)" by fastforce
  with assms have "is_ok i" unfolding half_awake_def by (metis fst_conv)
  then obtain aid where aid: "i = Inr aid" by (cases i) auto
  obtain now w4 where now: "x_now x w3 = (now, w4)" by fastforce
  let ?a = "new_attempt aid ?job jm now"
  from awake_attempt [OF assms worker, of p ?a "?s1\<lparr>world := w4\<rparr>"] obtain t now' res where t:
    "run_state (attempt_job x p ?job ?a) (?s1\<lparr>world := w4\<rparr>) = (Inl no_ready_pods, t)" "executions t = executions s"
    "trace t = trace ?s1 @ [EvAttemptCreate ?a (Inr ()),
        EvK8sScaleGet (ns_DNS (w_Namespace (job_Worker job0))) (w_K8sDeploymentName (job_Worker job0)) (Inr sc),
        EvK8sPods (ns_DNS (w_Namespace (job_Worker job0))) (''worker='' @ w_K8sDeploymentName (job_Worker job0)) (Inr items),
        EvAttemptUpdates (Where ''id'' (att_ID ?a)) (failed_attempt ?a no_ready_pods now') res]"
    unfolding worker by auto
  have "run_state (executeJob x p jm) s = (Inl no_ready_pods, t)"
    using first q n i aid now t(1)
    by (simp add: executeJob_def GetJobForExecution_def NewAttemptID_def ids_New_def time_Now_def job_query_def Let_def)
  with t show ?thesis
    by (intro exI [where x = t] exI [where x = ?a] exI [where x = now'] exI [where x = res]) (simp add: failed_attempt_def)
qed

definition waking_ext :: "unit ext" where
  "waking_ext = calm_ext\<lparr>x_k8s_pods := (\<lambda>_ _ w. (Inr [sample_pod\<lparr>pod_Phase := ''Pending''\<rparr>], w))\<rparr>"

theorem waking_worker_fails_witness:
  "\<exists>t. run_state (executeJob waking_ext \<lparr>pl_env = Map.empty, pl_lower = id, pl_oor = (\<lambda>_. 0)\<rparr> plain_message) calm_disp = (Inl no_ready_pods, t) \<and> executions t = Map.empty"
proof -
  have "half_awake waking_ext sample_job \<lparr>sc_SpecReplicas = 1, sc_StatusReplicas = 1\<rparr> [sample_pod\<lparr>pod_Phase := ''Pending''\<rparr>]"
    by (simp add: half_awake_def waking_ext_def calm_ext_def pod_ready_def sample_defs to_int32_def)
  from waking_worker_fails [OF this, of "\<lparr>pl_env = Map.empty, pl_lower = id, pl_oor = (\<lambda>_. 0)\<rparr>" plain_message calm_disp] show ?thesis by (auto simp: calm_disp_def)
qed

end
