(* ===== verification/Spec2Isabelle.thy ===== *)
theory Spec2Isabelle
  imports Startup NameSpec RuntimeLogs ConsumerSpec System Tracing Schema WakeUp
begin

text \<open>
  Wardu is a job scheduler on Kubernetes, four Go processes around a database and a queue. The API gateway
  (\<open>services/api-gateway\<close>) takes a job over HTTP and hands it to the scheduler (\<open>services/scheduler\<close>),
  which makes sure that a namespace and a worker deployment exist, stores the job and queues it in
  RabbitMQ. The dispatcher (\<open>services/dispatcher\<close>) consumes the queue: it records an attempt, scales
  the worker, picks a ready pod and asks the runtime in that pod to run the job. The runtime
  (\<open>services/runtime\<close>) starts the user's process and reports what runs to the dispatcher by
  heartbeats. What they share is in \<open>shared\<close>: models, database, Kubernetes client, queue, logging, ids,
  environment.

  \<^bold>\<open>How the code is translated.\<close> A struct is a record with its fields; an enumeration is a datatype; machine
  integers and floats are words of their width; a string is a list of bytes; a nil pointer is \<open>None\<close>. A
  function with effects is a program of the state monad over the state of its service: the record
  \<open>sys\<close> of the theory World (the state of the outside and the trace of the calls made to it),
  extended by the dispatcher and by the runtime with their table of executions. A returned error
  is \<open>Inl\<close>; a panic is an error of kind \<open>EkPanic\<close>, a fatal log line one of kind \<open>EkExit\<close>. Code outside
  this repository (Kubernetes API, gorm, AMQP, gRPC, ids, clock, processes) is the record \<open>ext\<close> of
  functions over an arbitrary state of the outside, so that every answer and failure is covered.
  What a \<open>select\<close> receives and the order in which a Go map is walked are arguments.

  \<^bold>\<open>Libraries.\<close> Prelude: errors, the combinators \<open>must\<close> and \<open>catch\<close> for Go's error idiom, weakest
  preconditions, the locale \<open>step_contract\<close> for contracts between two states. GoStd, GoNum, GoText, GoChan:
  what the code uses of strings, strconv, time, float and integer conversions, net, base64, and
  channels, with the locale \<open>semaphore\<close>. World: the outside and the contracts \<open>extends\<close> and \<open>grows\<close>
  (\<open>shared/ids\<close> is here too). Refinement: the locale \<open>simulation\<close>. Samples: instances of the outside for the
  witnesses.

  \<^bold>\<open>Components.\<close>
  \<^item> Env (\<open>shared/env\<close>): the getters and the locale \<open>env_getter\<close> of their contract.
  \<^item> Models (\<open>shared/models\<close>, the messages of \<open>shared/proto\<close> and \<open>types.gen.go\<close>): records and conversions.
  \<^item> Database (\<open>shared/database\<close>): each method as the gorm call it makes, and the health report.
  \<^item> K8sNames and NameSpec: the generated DNS and deployment names; that they are well formed, where they are
    not, and that the stepwise definition equals a direct one.
  \<^item> K8sClient (\<open>shared/k8s\<close>): namespaces, workers, scaling with its recovery, waiting for a deployment, and
    the choice of a pod; success and failure of each as the calls made.
  \<^item> Rabbitmq (\<open>shared/rabbitmq\<close>): topology, the JSON of a message with its round trip, publishing, and the
    consuming loop, which settles each delivery once.
  \<^item> Scheduler (\<open>services/scheduler/server\<close>): \<open>CreateJob\<close> and the start-up of the default namespace.
  \<^item> Registry: the locales of execution tables that dispatcher and runtime interpret.
  \<^item> Dispatcher (\<open>services/dispatcher/server\<close>): \<open>RunJob\<close>, \<open>Heartbeat\<close>, \<open>executeJob\<close> with the failure of an attempt
    on each branch, and the monitor. Consumer: \<open>StartJobConsumer\<close> as a program over what the queue delivers
    and, with the goroutines it starts, as a step relation that the program is a run of, up to the end of
    the process when its context ends; ConsumerSpec: the pool of workers that the relation refines. WakeUp: a
    job that comes while another one wakes its worker up.
  \<^item> Schema: the columns that the models declare as UUIDs, and what a database that checks them refuses.
  \<^item> Runtime (\<open>services/runtime/server\<close>): \<open>Run\<close>, \<open>execute\<close> and the reporting loop as programs; RuntimeLogs: the
    output of a process, cut short or not; RuntimeMachine: all goroutines of a runtime as a step relation at the
    granularity of single loads and stores, which \<open>execute\<close> refines and which refines the view of
    the statuses from outside.
  \<^item> System: such a machine in every pod beside the dispatcher's table, with the answers and heartbeats under way
    and restarts of pods, as a step relation over the services.
  \<^item> Logger (\<open>shared/logger\<close>) and Gateway (\<open>services/api-gateway\<close>): request ids, what is logged of a
    request, handlers, clients, routes and address. Tracing: the log lines of a submission in the gateway and
    in the scheduler.
  \<^item> Startup and Lifecycle: the four mains, up to serving as programs, from serving to exit as a step
    relation with the shutdown goroutine and the dispatcher's consumer.
  \<^item> This theory: properties from the gateway to the queue, from a submission to the runtime, from a run request
    to the process, and from the runtime back to the dispatcher.

  \<^bold>\<open>What the lemmas show.\<close> The lemmas named \<open>grow_\<close> and \<open>quiet_\<close> bound the calls an operation can make; the
  lemmas named \<open>_run\<close> and \<open>_ok\<close> give its result as an equation on the trace. The step relations
  have an inductive invariant (\<open>consumer_inv\<close>, \<open>machine_inv\<close>, \<open>system_inv\<close>, \<open>lifecycle_inv\<close>), preserved by every
  step, and those that end have a measure that every step decreases (\<open>work_left\<close>, \<open>moves_left\<close>, \<open>steps_left\<close>). No definition uses fuel:
  loops over what a channel or a stream delivers recurse over the list of what was delivered, and
  their results tell when they would wait for more.

  \<^bold>\<open>Assumptions.\<close> The float texts of the JSON encoder are read back to the same float (\<open>floats_ok\<close>) and ids
  and texts are valid UTF-8; a transaction succeeds only if its body did (\<open>lawful_tx\<close>). Execution ids
  are not issued twice in the machine of the runtime, nor in the system of one dispatcher and its
  runtimes, where a stream delivers heartbeats in order. A database is only assumed to do what a property says:
  to give a stored job back (\<open>same_columns\<close>), to find a record by its key (\<open>finds_by_id\<close>), or to check the form
  of UUIDs (\<open>uuid_checked\<close>). A transport that is said to carry request ids hands the
  outgoing metadata to the server.

  \<^bold>\<open>Not modelled.\<close> Log lines, apart from those of the theories Logger and RuntimeLogs and the fatal ones, with
  the clock reads only they use. The transport of gRPC and the generated stubs
  (\<open>*_grpc.pb.go\<close> and the accessors of \<open>*.pb.go\<close>), the middleware chain, CORS and the time-outs of the HTTP
  server (configuration of echo and \<open>net/http\<close>), zerolog's global variables, the text and the unused flag of
  the root command (\<open>cmd\<close>), the type \<open>Job\<close> of \<open>types.gen.go\<close>, which no code uses. In the sequential theories a walk over a table is one read of it; only the
  theory RuntimeMachine interleaves it with the other goroutines. That \<open>GracefulStop\<close> may never return
  is a step that need not be taken; a second signal, which ends the gateway by the default action, is not a step.
  A delivery channel that closes makes the consumer spin on empty deliveries, which leave no trace here. Retries of
  deliveries by the broker are its own.
\<close>

section \<open>Properties across components\<close>

subsection \<open>From the gateway to the queue\<close>

text \<open>
  The scheduler's \<open>CreateJob\<close> as the gateway sees it: the transport may rewrite the error
  (\<open>rpc error: code = ...\<close>), which is the argument \<open>wrap\<close>.
\<close>

definition rpc_CreateJob ::
  "(error \<Rightarrow> error) \<Rightarrow> 'w ext \<Rightarrow> platform \<Rightarrow> json_ops \<Rightarrow> call_context \<Rightarrow> CreateJobRequest \<Rightarrow>
   (('w, 'z) sys_scheme, string result) state" where
  "rpc_CreateJob wrap x p jo ctx req = catch (CreateJob x p jo req) (\<lambda>err. fail (wrap err)) ok"

lemma queued_decodes:
  assumes "floats_ok jo" "jo_utf8 jo (job_ID job) = job_ID job" "queued jo req job pub"
  shows "decode_message jo (pub_Body pub) = Some (first_message job (cj_Priority req))"
proof -
  from assms(3) obtain body where "encode_message jo (first_message job (cj_Priority req)) = Inr body"
    "pub = publishing_of (first_message job (cj_Priority req)) body"
    by (auto simp: queued_def)
  with decode_encode_message [OF assms(1), of "first_message job (cj_Priority req)" body] assms(2) show ?thesis
    by (simp add: text_ok_def first_message_def publishing_of_def)
qed


lemma sample_submitted:
  "submitted (\<lambda>_. Inr [1]) (\<lambda>_. 0) (Inr (sample_submission\<lparr>sj_Entrypoint := Some [''run'']\<rparr>)) = Some sample_req"
  by (simp add: submitted_def BuildJobProto_def sample_submission_def sample_req_def zero_f32_def)


subsection \<open>From a submission to the runtime\<close>

text \<open>What a read of the jobs table gives back of the job that was stored; its associations are loaded besides.\<close>

definition same_columns :: "Job \<Rightarrow> Job \<Rightarrow> bool" where
  "same_columns job0 job =
     (job_ID job0 = job_ID job \<and> job_Entrypoint job0 = job_Entrypoint job \<and> job_Payload job0 = job_Payload job \<and>
      job_TimeoutSeconds job0 = job_TimeoutSeconds job)"

text \<open>The events of a program that ran from \<open>s\<close> to \<open>t\<close>.\<close>

definition events_between :: "('w, 'z) sys_scheme \<Rightarrow> ('w, 'y) sys_scheme \<Rightarrow> event list" where
  "events_between s t = drop (length (trace s)) (trace t)"


text \<open>The database of the witness gives back the job that \<open>sample_CreateJob\<close> stores, with its worker.\<close>

definition sample_back :: Job where
  "sample_back = sample_job\<lparr>job_ID := ''id1'', job_Payload := [1]\<rparr>"


subsection \<open>From a run request to the process\<close>

text \<open>The message of \<open>RunJob\<close>, decoded and applied to the stored job.\<close>

lemma run_arrives:
  assumes "run_state (RunJob x jo req) s = (Inr i, t)" "floats_ok jo" "\<And>str. jo_utf8 jo str = str"
  shows "i = rj_JobId req \<and> (\<exists>pub jm. trace t = trace s @ [EvPublish pub (Inr ())]
    \<and> decode_message jo (pub_Body pub) = Some jm \<and> jm_JobID jm = i \<and> jm_Attempt jm = 1
    \<and> run_request (ApplyOverrides job (jm_Overrides jm)) a =
        \<lparr>rr_JobId = job_ID job, rr_AttemptId = att_ID a,
         rr_Entrypoint = (if rj_Entrypoint req = [] then job_Entrypoint job else rj_Entrypoint req),
         rr_Payload = (if rj_Payload req = [] then job_Payload job else rj_Payload req),
         rr_TimeoutSeconds = case_option (job_TimeoutSeconds job) id (rj_TimeoutSeconds req)\<rparr>)"
proof -
  from assms(1) obtain body where body: "encode_message jo (run_message req) = Inr body"
    and run: "i = rj_JobId req" "trace t = trace s @ [EvPublish (publishing_of (run_message req) body) (Inr ())]"
    by (auto simp: RunJob_def PublishJob_def split: sum.splits prod.splits)
  have "text_ok jo (run_message req)"
    using assms(3) by (simp add: text_ok_def list_all_iff split: option.split)
  from decode_encode_message [OF assms(2) this body]
  have "decode_message jo (pub_Body (publishing_of (run_message req) body)) = Some (run_message req)"
    by (simp add: publishing_of_def)
  moreover have "jm_JobID (run_message req) = i" "jm_Attempt (run_message req) = 1"
    using run(1) by (simp_all add: run_message_def)
  ultimately show ?thesis
    using run applied_overrides [of job req]
    by (intro conjI exI [where x = "publishing_of (run_message req) body"] exI [where x = "run_message req"])
       (simp_all add: run_request_def Let_def)
qed


definition sample_run :: RunJobRequest where
  "sample_run = \<lparr>rj_JobId = ''j1'', rj_Payload = [7], rj_Priority = None, rj_Entrypoint = [], rj_IdleTimeoutSeconds = None,
     rj_MaxAttempts = None, rj_TimeoutSeconds = Some 0\<rparr>"

lemma sample_RunJob:
  "run_state (RunJob calm_ext sample_json sample_run) calm_sys =
     (Inr ''j1'', snd (run_state (RunJob calm_ext sample_json sample_run) calm_sys))"
proof -
  have "f32_finite 0" by simp
  then have "is_ok (encode_message sample_json (run_message sample_run))"
    by (simp add: encode_message_def encode_overrides_def encodable_def run_message_def sample_run_def
        buildOverridesOps_def Let_def)
  then obtain body where "encode_message sample_json (run_message sample_run) = Inr body"
    by (cases "encode_message sample_json (run_message sample_run)") auto
  then show ?thesis by (simp add: RunJob_def PublishJob_def calm_defs sample_run_def)
qed


subsection \<open>From the runtime back to the dispatcher\<close>

text \<open>The heartbeats in a trace, as the dispatcher's stream receives them.\<close>

definition sent_beats :: "event list \<Rightarrow> HeartbeatRequest list" where
  "sent_beats es = concat (map (\<lambda>ev. case ev of EvHbSend hb (Inr _) \<Rightarrow> [hb] | _ \<Rightarrow> []) es)"

lemma sent_beats_running: "list_all is_report es \<Longrightarrow> hb \<in> set (sent_beats es) \<Longrightarrow> hb_Status hb = EXECUTION_STATUS_RUNNING"
  by (auto simp: sent_beats_def list_all_iff is_report_def split: event.splits sum.splits)

text \<open>No execution of the table has a terminal status; statuses are compared by their number.\<close>

definition none_ended :: "('w, 'z) disp_scheme \<Rightarrow> bool" where
  "none_ended d = (\<forall>i. case executions d i of None \<Rightarrow> True | Some e \<Rightarrow> re_Status e \<le> EXECUTION_STATUS_RUNNING)"

lemma last_beat_in: "last_beat (map HbMsg hbs @ items) i = Some hb \<Longrightarrow> beats items = [] \<Longrightarrow> hb \<in> set hbs"
proof -
  have "beats (map HbMsg hbs @ items) = hbs @ beats items" by (induction hbs) simp_all
  then show "last_beat (map HbMsg hbs @ items) i = Some hb \<Longrightarrow> beats items = [] \<Longrightarrow> hb \<in> set hbs"
    by (auto simp: last_beat_def find_Some_iff) (metis nth_mem set_rev length_rev)
qed


definition sample_rounds :: "(bool \<times> tick list) list" where
  "sample_rounds =
     (let e = (new_exec ''e1'' sample_run_req 0)\<lparr>ex_Status := EXECUTION_STATUS_RUNNING\<rparr>
      in [(False, [Tick [(e, e)], TickDone (Error EkCanceled ''ctx'')])])"


end
